theory Spec2Isabelle
  imports Complex_Main
begin

section \<open>NeighborAEV: the data model\<close>

text \<open>
  The embedding works in exact real arithmetic. A tensor element is a \<open>val\<close>: either a
  real number or the undefined value \<open>None\<close>, which stands for the result of an operation
  that has no real value (a division by zero, an arc cosine outside \<open>[-1, 1]\<close>, a zero base
  raised to a negative power). The library does not raise at such an operation: it goes on with
  a not-a-number, and every arithmetic operation on an undefined operand is undefined again.

  A tensor of shape \<open>(conformations, atoms, 3)\<close> is a list of conformations, each a list of
  points. The trailing axis of length 3 is the type \<open>point\<close>.
\<close>

type_synonym point = "real \<times> real \<times> real"
type_synonym val = "real option"
type_synonym species = string

datatype error = IndexError | RuntimeError

text \<open>\<open>self.constants\<close> and \<open>self.species\<close> of the AEV computer.\<close>

record constants =
  Rcr :: real
  Rca :: real
  EtaR :: "real list"
  ShfR :: "real list"
  EtaA :: "real list"
  Zeta :: "real list"
  ShfA :: "real list"
  ShfZ :: "real list"
  vocabulary :: "species list"

subsection \<open>Arithmetic on tensor elements\<close>

definition add_val :: "val \<Rightarrow> val \<Rightarrow> val" where
  "add_val a b = (case a of None \<Rightarrow> None | Some x \<Rightarrow> (case b of None \<Rightarrow> None | Some y \<Rightarrow> Some (x + y)))"

definition mul_val :: "val \<Rightarrow> val \<Rightarrow> val" where
  "mul_val a b = (case a of None \<Rightarrow> None | Some x \<Rightarrow> (case b of None \<Rightarrow> None | Some y \<Rightarrow> Some (x * y)))"

text \<open>\<open>torch.sum\<close> along one axis: the sum of the elements, undefined as soon as one is.\<close>

definition sum_vals :: "val list \<Rightarrow> val" where
  "sum_vals xs = foldr add_val xs (Some 0)"

definition div_val :: "real \<Rightarrow> real \<Rightarrow> val" where
  "div_val x y = (if y = 0 then None else Some (x / y))"

definition acos_val :: "real \<Rightarrow> val" where
  "acos_val x = (if - 1 \<le> x \<and> x \<le> 1 then Some (arccos x) else None)"

text \<open>
  \<open>base ** z\<close> with a real exponent: \<open>0 ** 0 = 1\<close>, \<open>0 ** z = 0\<close> for a positive \<open>z\<close>,
  no real value for a zero base and a negative exponent, nor for a negative base and an
  exponent that is not an integer.
\<close>

definition pow_val :: "real \<Rightarrow> real \<Rightarrow> val" where
  "pow_val base z =
     (if 0 < base then Some (base powr z)
      else if base = 0 then (if 0 < z then Some 0 else if z = 0 then Some 1 else None)
      else if z = of_int \<lfloor>z\<rfloor> then Some (base powi \<lfloor>z\<rfloor>)
      else None)"

subsection \<open>Geometry\<close>

definition vsub :: "point \<Rightarrow> point \<Rightarrow> point" where
  "vsub p q = (case p of (px, py, pz) \<Rightarrow> (case q of (qx, qy, qz) \<Rightarrow> (px - qx, py - qy, pz - qz)))"

text \<open>\<open>torch.sum(u * v, dim=-1)\<close> and \<open>torch.sqrt(torch.sum(v ** 2, dim=-1))\<close>.\<close>

definition inner_prod :: "point \<Rightarrow> point \<Rightarrow> real" where
  "inner_prod u v = (case u of (ux, uy, uz) \<Rightarrow> (case v of (vx, vy, vz) \<Rightarrow> ux * vx + uy * vy + uz * vz))"

definition distance :: "point \<Rightarrow> real" where
  "distance v = (case v of (x, y, z) \<Rightarrow> sqrt (x\<^sup>2 + y\<^sup>2 + z\<^sup>2))"

subsection \<open>The cutoff function\<close>

text \<open>
  Modelled from the spec: \<open>AEV._cutoff_cosine\<close> lives in \<open>torchaev.py\<close>, which is not part
  of the sources at hand. The specification gives
  \<open>fc(r, Rc) = 0.5 * cos(pi * r / Rc) + 0.5\<close> for \<open>r \<le> Rc\<close>, else \<open>0\<close>. The quotient
  \<open>r / Rc\<close> has no value for \<open>Rc = 0\<close>.
\<close>

definition cutoff_cosine :: "real \<Rightarrow> real \<Rightarrow> val" where
  "cutoff_cosine r Rc =
     (if r \<le> Rc then (if Rc = 0 then None else Some (0.5 * cos (pi * r / Rc) + 0.5))
      else Some 0)"

subsection \<open>Sub-AEV lengths and reshaping\<close>

text \<open>
  Modelled from the spec: \<open>per_species_radial_length\<close> and \<open>per_species_angular_length\<close>
  are methods of the base class \<open>AEVComputer\<close> in \<open>aev_base.py\<close>, which is not part of the
  sources at hand. The specification gives \<open>|EtaR| * |ShfR|\<close> and
  \<open>|EtaA| * |Zeta| * |ShfA| * |ShfZ|\<close>.
\<close>

definition per_species_radial_length :: "constants \<Rightarrow> nat" where
  "per_species_radial_length c = length (EtaR c) * length (ShfR c)"

definition per_species_angular_length :: "constants \<Rightarrow> nat" where
  "per_species_angular_length c = length (EtaA c) * length (Zeta c) * length (ShfA c) * length (ShfZ c)"

function chunks :: "nat \<Rightarrow> 'a list \<Rightarrow> 'a list list" where
  "chunks n xs = (if n = 0 \<or> xs = [] then [] else take n xs # chunks n (drop n xs))"
  by pat_completeness auto
termination
  by (relation "measure (\<lambda>(n, xs). length xs)") auto

text \<open>
  \<open>t.view(-1, L)\<close> on the elements of \<open>t\<close> in row-major order: rows of length \<open>L\<close>. The
  library raises when the number of elements is not a multiple of \<open>L\<close>, and when \<open>L = 0\<close>
  (the size of the free axis cannot be inferred).
\<close>

definition view_rows :: "nat \<Rightarrow> 'a list \<Rightarrow> error + 'a list list" where
  "view_rows L flat =
     (if L = 0 \<or> length flat mod L \<noteq> 0 then Inl RuntimeError else Inr (chunks L flat))"

definition zeros :: "nat \<Rightarrow> nat \<Rightarrow> val list list" where
  "zeros rows cols = replicate rows (replicate cols (Some 0))"

text \<open>
  A tensor with a neighbor axis, of shape \<open>(conformations, N, ...)\<close>, is given as the length
  \<open>N\<close> of that axis and the list of its conformations, each a list of \<open>N\<close> entries. The
  length is kept beside the list, since a tensor of no conformation still has its neighbor axis
  and the list alone would not record it.
\<close>

type_synonym 'a neighbor_tensor = "nat \<times> 'a list list"

subsection \<open>\<open>radial_subaev\<close>\<close>

text \<open>One element of the broadcast product of line 56, at one distance and one \<open>(eta, shift)\<close>.\<close>

definition radial_term :: "real \<Rightarrow> real \<Rightarrow> real \<Rightarrow> real \<Rightarrow> val" where
  "radial_term Rc eta radius_shift d =
     mul_val (Some (0.25 * exp (- eta * (d - radius_shift)\<^sup>2))) (cutoff_cosine d Rc)"

text \<open>\<open>torch.sum(ret, dim=1)\<close> for one conformation: from shape \<open>(N, E, S)\<close> to \<open>(E, S)\<close>.\<close>

definition sum_neighbors2 :: "nat \<Rightarrow> nat \<Rightarrow> val list list list \<Rightarrow> val list list" where
  "sum_neighbors2 E S ret =
     map (\<lambda>e. map (\<lambda>s. sum_vals (map (\<lambda>m. m ! e ! s) ret)) [0..<S]) [0..<E]"

text \<open>
  Line 49: \<open>distances.view(-1, atoms, 1, 1)\<close> raises when \<open>atoms = 0\<close>, since the size
  of the free axis of a tensor without elements cannot be inferred. Line 60 raises in the same
  way when \<open>per_species_radial_length()\<close> is \<open>0\<close>.
\<close>

definition radial_subaev :: "constants \<Rightarrow> point list \<Rightarrow> point neighbor_tensor \<Rightarrow> error + val list list" where
  "radial_subaev c center neighbors =
     (let atoms = fst neighbors;
          Rij_vec = map2 (\<lambda>cn nbs. map (\<lambda>nb. vsub nb cn) nbs) center (snd neighbors);
          distances = map (map distance) Rij_vec
      in if atoms = 0 then Inl RuntimeError
         else
          (let ret = map (map (\<lambda>d. map (\<lambda>eta. map (\<lambda>radius_shift.
                       radial_term (Rcr c) eta radius_shift d) (ShfR c)) (EtaR c))) distances;
               ret = map (sum_neighbors2 (length (EtaR c)) (length (ShfR c))) ret
           in view_rows (per_species_radial_length c) (concat (map concat ret))))"

subsection \<open>\<open>angular_subaev\<close>\<close>

type_synonym pair_tensor = "(point \<times> point) neighbor_tensor"

definition Rij_vec_pairs ::
  "point list \<Rightarrow> (point \<times> point) list list \<Rightarrow> (point \<times> point) list list" where
  "Rij_vec_pairs center neighbors =
     map2 (\<lambda>cn prs. map (\<lambda>pr. (vsub (fst pr) cn, vsub (snd pr) cn)) prs) center neighbors"

definition R_distances_pairs :: "(point \<times> point) list list \<Rightarrow> (real \<times> real) list list" where
  "R_distances_pairs Rij_vec = map (map (\<lambda>pr. (distance (fst pr), distance (snd pr)))) Rij_vec"

text \<open>Lines 98 to 108: the argument of the arc cosine, for every conformation and pair.\<close>

definition cos_angles :: "point list \<Rightarrow> (point \<times> point) list list \<Rightarrow> val list list" where
  "cos_angles center neighbors =
     (let Rij_vec = Rij_vec_pairs center neighbors;
          R_distances = R_distances_pairs Rij_vec;
          Rijk_distance_prods = map (map (\<lambda>d. fst d * snd d)) R_distances;
          Rijk_inner_prods = map (map (\<lambda>pr. inner_prod (fst pr) (snd pr))) Rij_vec
      in map2 (map2 (\<lambda>ip dp. div_val (0.95 * ip) dp)) Rijk_inner_prods Rijk_distance_prods)"

definition angles :: "point list \<Rightarrow> (point \<times> point) list list \<Rightarrow> val list list" where
  "angles center neighbors = map (map (\<lambda>x. Option.bind x acos_val)) (cos_angles center neighbors)"

text \<open>The entries of \<open>cos_angles\<close> and \<open>angles\<close> for one center and one neighbor pair.\<close>

definition pair_cos_angle :: "point \<Rightarrow> point \<times> point \<Rightarrow> val" where
  "pair_cos_angle cn pr =
     div_val (0.95 * inner_prod (vsub (fst pr) cn) (vsub (snd pr) cn))
       (distance (vsub (fst pr) cn) * distance (vsub (snd pr) cn))"

definition pair_angle :: "point \<Rightarrow> point \<times> point \<Rightarrow> val" where
  "pair_angle cn pr = Option.bind (pair_cos_angle cn pr) acos_val"

text \<open>One element of the broadcast product of lines 124 to 126.\<close>

definition angular_term :: "real \<Rightarrow> real \<Rightarrow> real \<Rightarrow> real \<Rightarrow> real \<Rightarrow> val \<Rightarrow> real \<times> real \<Rightarrow> val" where
  "angular_term Rc eta zeta radius_shift angle_shift angle Rij =
     mul_val (mul_val (mul_val
       (mul_val (Some 2) (Option.bind angle (\<lambda>a. pow_val ((1 + cos (a - angle_shift)) / 2) zeta)))
       (Some (exp (- eta * ((fst Rij + snd Rij) / 2 - radius_shift)\<^sup>2))))
       (cutoff_cosine (fst Rij) Rc)) (cutoff_cosine (snd Rij) Rc)"

text \<open>\<open>torch.sum(ret, dim=1)\<close> for one conformation: from \<open>(N, E, Z, A, T)\<close> to \<open>(E, Z, A, T)\<close>.\<close>

definition sum_pairs4 :: "nat \<Rightarrow> nat \<Rightarrow> nat \<Rightarrow> nat \<Rightarrow> val list list list list list \<Rightarrow> val list list list list" where
  "sum_pairs4 E Z A T ret =
     map (\<lambda>e. map (\<lambda>z. map (\<lambda>a. map (\<lambda>t.
       sum_vals (map (\<lambda>m. m ! e ! z ! a ! t) ret)) [0..<T]) [0..<A]) [0..<Z]) [0..<E]"

text \<open>
  Line 113: \<open>angles.view(-1, pairs, 1, 1, 1, 1)\<close> raises when \<open>pairs = 0\<close>, and line 130
  raises when \<open>per_species_angular_length()\<close> is \<open>0\<close>.
\<close>

definition angular_subaev :: "constants \<Rightarrow> point list \<Rightarrow> pair_tensor \<Rightarrow> error + val list list" where
  "angular_subaev c center neighbors =
     (let pairs = fst neighbors;
          Rij = R_distances_pairs (Rij_vec_pairs center (snd neighbors));
          angles = angles center (snd neighbors)
      in if pairs = 0 then Inl RuntimeError
         else
          (let ret = map2 (map2 (\<lambda>angle d. map (\<lambda>eta. map (\<lambda>zeta. map (\<lambda>radius_shift. map (\<lambda>angle_shift.
                       angular_term (Rca c) eta zeta radius_shift angle_shift angle d)
                       (ShfZ c)) (ShfA c)) (Zeta c)) (EtaA c))) angles Rij;
               ret = map (sum_pairs4 (length (EtaA c)) (length (Zeta c)) (length (ShfA c)) (length (ShfZ c))) ret
           in view_rows (per_species_angular_length c)
                (concat (map (\<lambda>g. concat (map (\<lambda>h. concat (map concat h)) g)) ret))))"

subsection \<open>Neighbor lists\<close>

text \<open>
  The neighbor relation is decided by comparing distances with a cutoff. A comparison is the
  one place where the rounding of the floating-point format of the tensors changes an outcome
  and not only a value by a rounding error, so the distances of the neighbor relation are
  modelled with that rounding as a parameter \<open>fl\<close>, applied to the result of each arithmetic
  operation. The identity for \<open>fl\<close> is exact real arithmetic.

  The formats of IEEE 754 round to the nearest number whose significand has \<open>p\<close> bits, a tie
  going to the even significand; \<open>p\<close> is \<open>24\<close> for \<open>float32\<close>. The range of the exponent
  is not bounded here: overflow and underflow are outside the model.
\<close>

definition round_half_even :: "real \<Rightarrow> int" where
  "round_half_even x =
     (let f = \<lfloor>x\<rfloor> in
      if x - of_int f < 1 / 2 then f
      else if 1 / 2 < x - of_int f then f + 1
      else if even f then f else f + 1)"

definition float_round :: "nat \<Rightarrow> real \<Rightarrow> real" where
  "float_round p x =
     (if x = 0 then 0
      else (let e = \<lfloor>log 2 \<bar>x\<bar>\<rfloor> - int p + 1
            in of_int (round_half_even (x / 2 powi e)) * 2 powi e))"

text \<open>
  Lines 137 to 143: \<open>R_vecs\<close> of shape \<open>(conformations, atoms, atoms, 3)\<close>, the entry
  \<open>(n, i, j)\<close> being \<open>coordinates[n, j] - coordinates[n, i]\<close>, and \<open>R_distances\<close> of
  shape \<open>(conformations, atoms, atoms)\<close>, the lengths of these vectors: each component is
  squared, the three squares are added from left to right, and the square root is taken.
\<close>

definition R_distances_all :: "(real \<Rightarrow> real) \<Rightarrow> point list list \<Rightarrow> real list list list" where
  "R_distances_all fl coordinates =
     (let R_vecs = map (\<lambda>conf. map (\<lambda>ci. map (\<lambda>cj.
                     (case vsub cj ci of (x, y, z) \<Rightarrow> (fl x, fl y, fl z))) conf) conf) coordinates
      in map (map (map (\<lambda>v. case v of (x, y, z) \<Rightarrow>
               fl (sqrt (fl (fl (fl (x\<^sup>2) + fl (y\<^sup>2)) + fl (z\<^sup>2))))))) R_vecs)"

text \<open>
  Lines 153 to 156 (and 157 to 160): the comparison with the cutoff, a Python number that is
  first converted to the format of the tensor, gives a tensor of zeros and ones,
  \<open>torch.sum(..., dim=0) > 0\<close> joins the conformations, and the product with
  \<open>1 - torch.eye(atoms)\<close> clears the diagonal. The result has shape \<open>(atoms, atoms)\<close>.
  The sum over the conformations is a count in the natural numbers.
\<close>

definition in_cutoff :: "(real \<Rightarrow> real) \<Rightarrow> real \<Rightarrow> nat \<Rightarrow> real list list list \<Rightarrow> nat list list" where
  "in_cutoff fl Rc atoms R_distances =
     (let inside = map (map (map (\<lambda>d. if d \<le> fl Rc then (1::nat) else 0))) R_distances;
          joined = map (\<lambda>i. map (\<lambda>j.
                     if 0 < sum_list (map (\<lambda>m. m ! i ! j) inside) then (1::nat) else 0)
                     [0..<atoms]) [0..<atoms]
      in map (\<lambda>i. map (\<lambda>j. joined ! i ! j * (1 - (if i = j then 1 else 0)))
               [0..<atoms]) [0..<atoms])"

text \<open>
  Lines 166 to 171: the dictionary of species selectors, filled atom by atom. \<open>species[i]\<close>
  raises \<open>IndexError\<close> when the species sequence is shorter than the number of atoms.
\<close>

fun species_selectors_loop ::
  "nat \<Rightarrow> species list \<Rightarrow> nat list \<Rightarrow> (species \<rightharpoonup> nat list) \<Rightarrow> error + (species \<rightharpoonup> nat list)" where
  "species_selectors_loop atoms sp [] selectors = Inr selectors"
| "species_selectors_loop atoms sp (i # rest) selectors =
     (if i < length sp then
        (let s = sp ! i;
             selector = (case selectors s of None \<Rightarrow> replicate atoms 0 | Some v \<Rightarrow> v)
         in species_selectors_loop atoms sp rest (selectors(s \<mapsto> selector[i := 1])))
      else Inl IndexError)"

definition species_selectors :: "nat \<Rightarrow> species list \<Rightarrow> error + (species \<rightharpoonup> nat list)" where
  "species_selectors atoms sp = species_selectors_loop atoms sp [0..<atoms] Map.empty"

text \<open>Lines 177 to 180: per species, the radial and the angular neighbor tensor.\<close>

definition species_neighbors ::
  "nat list list \<Rightarrow> nat list list \<Rightarrow> (species \<rightharpoonup> nat list) \<Rightarrow> (species \<rightharpoonup> nat list list \<times> nat list list)" where
  "species_neighbors in_Rcr in_Rca selectors =
     (\<lambda>s. case selectors s of None \<Rightarrow> None
          | Some selector \<Rightarrow>
              Some (map (\<lambda>row. map2 (*) row selector) in_Rcr,
                    map (\<lambda>row. map2 (*) row selector) in_Rca))"

definition nonzero :: "nat list \<Rightarrow> nat list" where
  "nonzero row = filter (\<lambda>j. row ! j \<noteq> 0) [0..<length row]"

text \<open>\<open>coordinates.index_select(1, indices)\<close> and \<open>coordinates[:, i, :]\<close>.\<close>

definition index_select :: "point list list \<Rightarrow> nat list \<Rightarrow> point neighbor_tensor" where
  "index_select coordinates indices =
     (length indices, map (\<lambda>conf. map (\<lambda>j. conf ! j) indices) coordinates)"

definition center_of :: "point list list \<Rightarrow> nat \<Rightarrow> point list" where
  "center_of coordinates i = map (\<lambda>conf. conf ! i) coordinates"

subsection \<open>Pair generation\<close>

text \<open>\<open>itertools.combinations_with_replacement(xs, 2)\<close>.\<close>

fun combinations_with_replacement2 :: "'a list \<Rightarrow> ('a \<times> 'a) list" where
  "combinations_with_replacement2 [] = []"
| "combinations_with_replacement2 (x # xs) = map (Pair x) (x # xs) @ combinations_with_replacement2 xs"

text \<open>
  Modelled from the spec: \<open>_utils.combinations\<close> and \<open>_utils.cartesian_prod\<close> are in
  \<open>_utils.py\<close>, which is not part of the sources at hand. The specification asks for all
  2-element combinations without repetition and without order of the neighbors of one species,
  and for every neighbor of the first species paired with every neighbor of the second. Both
  act along the neighbor axis, inside each conformation.
\<close>

fun combinations2 :: "'a list \<Rightarrow> ('a \<times> 'a) list" where
  "combinations2 [] = []"
| "combinations2 (x # xs) = map (Pair x) xs @ combinations2 xs"

definition combinations :: "point neighbor_tensor \<Rightarrow> pair_tensor" where
  "combinations t = (fst t choose 2, map combinations2 (snd t))"

definition cartesian_prod :: "point neighbor_tensor \<Rightarrow> point neighbor_tensor \<Rightarrow> pair_tensor" where
  "cartesian_prod a b = (fst a * fst b, map2 List.product (snd a) (snd b))"

subsection \<open>Assembly\<close>

text \<open>A loop that appends one result per iteration stops at the first iteration that raises.\<close>

fun collect :: "(error + 'a) list \<Rightarrow> error + 'a list" where
  "collect [] = Inr []"
| "collect (r # rs) =
     (case r of Inl e \<Rightarrow> Inl e
      | Inr x \<Rightarrow> (case collect rs of Inl e \<Rightarrow> Inl e | Inr xs \<Rightarrow> Inr (x # xs)))"

text \<open>
  \<open>torch.cat(blocks, dim=1)\<close> and \<open>torch.stack(rows, dim=1)\<close> of tensors whose first axis
  has length \<open>conformations\<close>. Both raise on an empty list of tensors.
\<close>

definition cat_dim1 :: "nat \<Rightarrow> 'a list list list \<Rightarrow> error + 'a list list" where
  "cat_dim1 conformations blocks =
     (if blocks = [] then Inl RuntimeError
      else Inr (map (\<lambda>n. concat (map (\<lambda>b. b ! n) blocks)) [0..<conformations]))"

definition stack_dim1 :: "nat \<Rightarrow> 'a list list \<Rightarrow> error + 'a list list" where
  "stack_dim1 conformations rows =
     (if rows = [] then Inl RuntimeError
      else Inr (map (\<lambda>n. map (\<lambda>r. r ! n) rows) [0..<conformations]))"

text \<open>Lines 189 to 202: the radial block of atom \<open>i\<close> for the species \<open>s\<close>.\<close>

definition radial_block ::
  "constants \<Rightarrow> point list list \<Rightarrow> (species \<rightharpoonup> nat list list \<times> nat list list) \<Rightarrow> nat \<Rightarrow> species
   \<Rightarrow> error + val list list" where
  "radial_block c coordinates sn i s =
     (case sn s of
        Some nb \<Rightarrow>
          (let indices = nonzero (fst nb ! i) in
           if 0 < length indices
           then radial_subaev c (center_of coordinates i) (index_select coordinates indices)
           else Inr (zeros (length coordinates) (per_species_radial_length c)))
      | None \<Rightarrow> Inr (zeros (length coordinates) (per_species_radial_length c)))"

text \<open>
  Lines 214 to 232: the neighbor pairs of atom \<open>i\<close> for the species pair \<open>(j, k)\<close>;
  \<open>None\<close> is the outcome \<open>is_zero\<close>.
\<close>

definition angular_pairs ::
  "point list list \<Rightarrow> (species \<rightharpoonup> nat list list \<times> nat list list) \<Rightarrow> nat \<Rightarrow> species \<Rightarrow> species
   \<Rightarrow> pair_tensor option" where
  "angular_pairs coordinates sn i j k =
     (case sn j of None \<Rightarrow> None
      | Some nbj \<Rightarrow>
         (case sn k of None \<Rightarrow> None
          | Some nbk \<Rightarrow>
             (let indices_j = nonzero (snd nbj ! i);
                  neighbors_j = index_select coordinates indices_j
              in if j \<noteq> k \<and> 0 < length indices_j then
                   (let indices_k = nonzero (snd nbk ! i);
                        neighbors_k = index_select coordinates indices_k
                    in if 0 < length indices_k then Some (cartesian_prod neighbors_j neighbors_k)
                       else None)
                 else if 1 < length indices_j then Some (combinations neighbors_j)
                 else None)))"

text \<open>Lines 233 to 240: the angular block of atom \<open>i\<close> for the species pair \<open>(j, k)\<close>.\<close>

definition angular_block ::
  "constants \<Rightarrow> point list list \<Rightarrow> (species \<rightharpoonup> nat list list \<times> nat list list) \<Rightarrow> nat \<Rightarrow> species \<times> species
   \<Rightarrow> error + val list list" where
  "angular_block c coordinates sn i jk =
     (case angular_pairs coordinates sn i (fst jk) (snd jk) of
        Some neighbors \<Rightarrow> angular_subaev c (center_of coordinates i) neighbors
      | None \<Rightarrow> Inr (zeros (length coordinates) (per_species_angular_length c)))"

definition radial_aev :: 
  "constants \<Rightarrow> point list list \<Rightarrow> (species \<rightharpoonup> nat list list \<times> nat list list) \<Rightarrow> nat \<Rightarrow> error + val list list" where
  "radial_aev c coordinates sn i =
     (case collect (map (radial_block c coordinates sn i) (vocabulary c)) of
        Inl e \<Rightarrow> Inl e
      | Inr blocks \<Rightarrow> cat_dim1 (length coordinates) blocks)"

definition angular_aev :: 
  "constants \<Rightarrow> point list list \<Rightarrow> (species \<rightharpoonup> nat list list \<times> nat list list) \<Rightarrow> nat \<Rightarrow> error + val list list" where
  "angular_aev c coordinates sn i =
     (case collect (map (angular_block c coordinates sn i)
                     (combinations_with_replacement2 (vocabulary c))) of
        Inl e \<Rightarrow> Inl e
      | Inr blocks \<Rightarrow> cat_dim1 (length coordinates) blocks)"

text \<open>
  Lines 137 to 180, in exact real arithmetic as the rest of the call: the rounding is the
  identity.
\<close>

definition neighbor_lists ::
  "constants \<Rightarrow> nat \<Rightarrow> point list list \<Rightarrow> species list
   \<Rightarrow> error + (species \<rightharpoonup> nat list list \<times> nat list list)" where
  "neighbor_lists c atoms coordinates sp =
     (let R_distances = R_distances_all (\<lambda>x. x) coordinates;
          in_Rcr = in_cutoff (\<lambda>x. x) (Rcr c) atoms R_distances;
          in_Rca = in_cutoff (\<lambda>x. x) (Rca c) atoms R_distances
      in case species_selectors atoms sp of
           Inl e \<Rightarrow> Inl e
         | Inr selectors \<Rightarrow> Inr (species_neighbors in_Rcr in_Rca selectors))"

text \<open>
  \<open>NeighborAEV.__call__\<close>. The number of atoms is \<open>coordinates.shape[1]\<close>; it is passed
  beside the coordinates, since a list of no conformations does not record it.
\<close>

definition call ::
  "constants \<Rightarrow> nat \<Rightarrow> point list list \<Rightarrow> species list
   \<Rightarrow> error + (val list list list \<times> val list list list)" where
  "call c atoms coordinates sp =
     (let conformations = length coordinates in
      case neighbor_lists c atoms coordinates sp of
        Inl e \<Rightarrow> Inl e
      | Inr sn \<Rightarrow>
         (case collect (map (radial_aev c coordinates sn) [0..<atoms]) of
            Inl e \<Rightarrow> Inl e
          | Inr radial_rows \<Rightarrow>
             (case stack_dim1 conformations radial_rows of
                Inl e \<Rightarrow> Inl e
              | Inr radial_aevs \<Rightarrow>
                 (case collect (map (angular_aev c coordinates sn) [0..<atoms]) of
                    Inl e \<Rightarrow> Inl e
                  | Inr angular_rows \<Rightarrow>
                     (case stack_dim1 conformations angular_rows of
                        Inl e \<Rightarrow> Inl e
                      | Inr angular_aevs \<Rightarrow> Inr (radial_aevs, angular_aevs))))))"

text \<open>The input contract: every conformation lists \<open>atoms\<close> points, one species per atom.\<close>

definition valid_input :: "nat \<Rightarrow> point list list \<Rightarrow> species list \<Rightarrow> bool" where
  "valid_input atoms coordinates sp \<longleftrightarrow>
     list_all (\<lambda>conf. length conf = atoms) coordinates \<and> length sp = atoms"

subsection \<open>The symmetry functions of the specification\<close>

text \<open>
  The quantities of the specification, written out over the real numbers and independently of
  the code: the Euclidean distance of two points, the inner product of the displacement vectors
  from a center to two points, and the cutoff function
  \<open>fc(r, Rc) = 0.5 * cos(pi * r / Rc) + 0.5\<close> for \<open>r \<le> Rc\<close>, else \<open>0\<close>.
\<close>

definition euclid :: "point \<Rightarrow> point \<Rightarrow> real" where
  "euclid p q =
     sqrt ((fst q - fst p)\<^sup>2 + (fst (snd q) - fst (snd p))\<^sup>2 + (snd (snd q) - snd (snd p))\<^sup>2)"

definition dot_from :: "point \<Rightarrow> point \<Rightarrow> point \<Rightarrow> real" where
  "dot_from cn a b =
     (fst a - fst cn) * (fst b - fst cn) + (fst (snd a) - fst (snd cn)) * (fst (snd b) - fst (snd cn))
       + (snd (snd a) - snd (snd cn)) * (snd (snd b) - snd (snd cn))"

definition spec_fc :: "real \<Rightarrow> real \<Rightarrow> real" where
  "spec_fc r Rc = (if r \<le> Rc then 0.5 * cos (pi * r / Rc) + 0.5 else 0)"

text \<open>
  The distance of two points as a computation that rounds after each operation delivers it.
\<close>

definition computed_distance :: "(real \<Rightarrow> real) \<Rightarrow> point \<Rightarrow> point \<Rightarrow> real" where
  "computed_distance fl p q =
     fl (sqrt (fl (fl (fl ((fl (fst q - fst p))\<^sup>2) + fl ((fl (fst (snd q) - fst (snd p)))\<^sup>2))
                   + fl ((fl (snd (snd q) - snd (snd p)))\<^sup>2))))"

text \<open>
  The radial term \<open>0.25 * exp(-eta * (dist - shift)^2) * fc(dist, Rcr)\<close> of a neighbor
  \<open>nb\<close> of the center \<open>cn\<close>.
\<close>

definition radial_symmetry :: "real \<Rightarrow> real \<Rightarrow> real \<Rightarrow> point \<Rightarrow> point \<Rightarrow> real" where
  "radial_symmetry Rc eta shift cn nb =
     0.25 * exp (- eta * (euclid cn nb - shift)\<^sup>2) * spec_fc (euclid cn nb) Rc"

text \<open>
  The enclosed angle \<open>acos(0.95 * dot / (d1 * d2))\<close> of a neighbor pair, and the angular term
  \<open>2 * ((1 + cos(angle - shiftA)) / 2)^zeta * exp(-eta * ((d1 + d2) / 2 - shiftR)^2) * fc(d1, Rca) * fc(d2, Rca)\<close>.
  The power of a zero base is \<open>1\<close> for the exponent \<open>0\<close> and \<open>0\<close> for a positive
  exponent.
\<close>

definition enclosed_angle :: "point \<Rightarrow> point \<times> point \<Rightarrow> real" where
  "enclosed_angle cn pr =
     arccos (0.95 * dot_from cn (fst pr) (snd pr) / (euclid cn (fst pr) * euclid cn (snd pr)))"

definition angular_symmetry ::
  "real \<Rightarrow> real \<Rightarrow> real \<Rightarrow> real \<Rightarrow> real \<Rightarrow> point \<Rightarrow> point \<times> point \<Rightarrow> real" where
  "angular_symmetry Rc eta zeta shiftR shiftA cn pr =
     (let d1 = euclid cn (fst pr); d2 = euclid cn (snd pr);
          base = (1 + cos (enclosed_angle cn pr - shiftA)) / 2
      in 2 * (if base = 0 \<and> zeta = 0 then 1 else base powr zeta)
           * exp (- eta * ((d1 + d2) / 2 - shiftR)\<^sup>2) * spec_fc d1 Rc * spec_fc d2 Rc)"

subsection \<open>The terms of the sums as tensor elements\<close>

text \<open>
  The term of one neighbor in the sum of line 58, as a tensor element: it is undefined where
  the cutoff function is.
\<close>

definition spec_radial_term :: "constants \<Rightarrow> real \<Rightarrow> real \<Rightarrow> point \<Rightarrow> point \<Rightarrow> val" where
  "spec_radial_term c eta shift center nb =
     (let dist = distance (vsub nb center) in
      case cutoff_cosine dist (Rcr c) of
        None \<Rightarrow> None
      | Some fc \<Rightarrow> Some (0.25 * exp (- eta * (dist - shift)\<^sup>2) * fc))"

text \<open>
  The angle of a neighbor pair as a tensor element, \<open>acos(0.95 * dot / (d1 * d2))\<close>. It has
  no value when \<open>d1 * d2 = 0\<close>, nor when the quotient lies outside \<open>[-1, 1]\<close>.
\<close>

definition spec_angle :: "point \<Rightarrow> point \<times> point \<Rightarrow> val" where
  "spec_angle center pr =
     (let u = vsub (fst pr) center; v = vsub (snd pr) center;
          d1 = distance u; d2 = distance v; dot = inner_prod u v
      in if d1 * d2 = 0 then None
         else if \<bar>0.95 * dot / (d1 * d2)\<bar> \<le> 1 then Some (arccos (0.95 * dot / (d1 * d2)))
         else None)"

text \<open>
  The term of one neighbor pair in the sum of line 128, as a tensor element: it is undefined
  where the angle, the power or a cutoff value is.
\<close>

definition spec_angular_term ::
  "constants \<Rightarrow> real \<Rightarrow> real \<Rightarrow> real \<Rightarrow> real \<Rightarrow> point \<Rightarrow> point \<times> point \<Rightarrow> val" where
  "spec_angular_term c eta zeta shiftR shiftA center pr =
     (let d1 = distance (vsub (fst pr) center); d2 = distance (vsub (snd pr) center) in
      case spec_angle center pr of
        None \<Rightarrow> None
      | Some angle \<Rightarrow>
         (case pow_val ((1 + cos (angle - shiftA)) / 2) zeta of
            None \<Rightarrow> None
          | Some pw \<Rightarrow>
             (case cutoff_cosine d1 (Rca c) of
                None \<Rightarrow> None
              | Some fc1 \<Rightarrow>
                 (case cutoff_cosine d2 (Rca c) of
                    None \<Rightarrow> None
                  | Some fc2 \<Rightarrow>
                      Some (2 * pw * exp (- eta * ((d1 + d2) / 2 - shiftR)\<^sup>2) * fc1 * fc2)))))"

text \<open>
  The specification's neighbor sets: the atoms \<open>j \<noteq> i\<close> of species \<open>s\<close> whose distance to the
  atom \<open>i\<close> is at most the cutoff in at least one conformation, in increasing order.
\<close>

definition species_neighbor_indices ::
  "real \<Rightarrow> nat \<Rightarrow> point list list \<Rightarrow> species list \<Rightarrow> nat \<Rightarrow> species \<Rightarrow> nat list" where
  "species_neighbor_indices Rc atoms coordinates sp i s =
     filter (\<lambda>j. j \<noteq> i \<and> sp ! j = s
                 \<and> list_ex (\<lambda>conf. distance (vsub (conf ! j) (conf ! i)) \<le> Rc) coordinates)
       [0..<atoms]"

text \<open>
  The specification's neighbor pairs of the atom \<open>i\<close> for the species pair \<open>(j, k)\<close>: the
  2-element combinations of the neighbors of species \<open>j\<close> when \<open>j = k\<close>, the cartesian product
  of the neighbors of \<open>j\<close> and of \<open>k\<close> otherwise.
\<close>

definition species_pair_indices ::
  "real \<Rightarrow> nat \<Rightarrow> point list list \<Rightarrow> species list \<Rightarrow> nat \<Rightarrow> species \<Rightarrow> species \<Rightarrow> (nat \<times> nat) list" where
  "species_pair_indices Rc atoms coordinates sp i j k =
     (if j = k then combinations2 (species_neighbor_indices Rc atoms coordinates sp i j)
      else List.product (species_neighbor_indices Rc atoms coordinates sp i j)
             (species_neighbor_indices Rc atoms coordinates sp i k))"

text \<open>The coordinates of the two atoms of every index pair, in every conformation.\<close>

definition gather_pairs :: "point list list \<Rightarrow> (nat \<times> nat) list \<Rightarrow> pair_tensor" where
  "gather_pairs coordinates pairs =
     (length pairs, map (\<lambda>conf. map (\<lambda>pr. (conf ! fst pr, conf ! snd pr)) pairs) coordinates)"

text \<open>
  The dictionary of species selectors once the loop of lines 167 to 171 has handled the atoms
  \<open>0, ..., k - 1\<close>: one selector per species met so far, with a one at each of its atoms.
\<close>

definition selectors_upto :: "nat \<Rightarrow> species list \<Rightarrow> nat \<Rightarrow> (species \<rightharpoonup> nat list)" where
  "selectors_upto atoms sp k =
     (\<lambda>s. if s \<in> set (take k sp)
          then Some (map (\<lambda>j. if j < k \<and> sp ! j = s then 1 else 0) [0..<atoms])
          else None)"

text \<open>
  The blocks of the output as the specification describes them: for the conformation \<open>n\<close>, the
  center atom \<open>i\<close> and a species (or a species pair), the grid of sums of the symmetry
  function over the neighbor set (or the set of neighbor pairs). The sum over no neighbor is
  zero.
\<close>

definition spec_radial_block ::
  "constants \<Rightarrow> nat \<Rightarrow> point list list \<Rightarrow> species list \<Rightarrow> nat \<Rightarrow> nat \<Rightarrow> species \<Rightarrow> val list" where
  "spec_radial_block c atoms coordinates sp n i s =
     (let nbs = map (\<lambda>j. coordinates ! n ! j)
                  (species_neighbor_indices (Rcr c) atoms coordinates sp i s)
      in concat (map (\<lambda>eta. map (\<lambda>sh.
           sum_vals (map (spec_radial_term c eta sh (coordinates ! n ! i)) nbs)) (ShfR c)) (EtaR c)))"

definition spec_angular_block ::
  "constants \<Rightarrow> nat \<Rightarrow> point list list \<Rightarrow> species list \<Rightarrow> nat \<Rightarrow> nat \<Rightarrow> species \<times> species \<Rightarrow> val list" where
  "spec_angular_block c atoms coordinates sp n i jk =
     (let prs = map (\<lambda>pr. (coordinates ! n ! fst pr, coordinates ! n ! snd pr))
                  (species_pair_indices (Rca c) atoms coordinates sp i (fst jk) (snd jk))
      in concat (map (\<lambda>h. concat (map concat h))
           (map (\<lambda>eta. map (\<lambda>zeta. map (\<lambda>rs. map (\<lambda>sh.
              sum_vals (map (spec_angular_term c eta zeta rs sh (coordinates ! n ! i)) prs))
              (ShfZ c)) (ShfA c)) (Zeta c)) (EtaA c))))"

text \<open>The configuration of the specification's scenario A, with one angular grid point.\<close>

definition scenario_A :: constants where
  "scenario_A = \<lparr>Rcr = 5, Rca = 5, EtaR = [16], ShfR = [1], EtaA = [8], Zeta = [32],
                  ShfA = [1], ShfZ = [0], vocabulary = [''H'']\<rparr>"

text \<open>The same configuration with a second species in the vocabulary.\<close>

definition scenario_HC :: constants where
  "scenario_HC = scenario_A\<lparr>vocabulary := [''H'', ''C'']\<rparr>"

section \<open>Properties\<close>

subsection \<open>The cutoff function\<close>

lemma cutoff_cosine_inside: "Rc \<noteq> 0 \<Longrightarrow> r \<le> Rc \<Longrightarrow> cutoff_cosine r Rc = Some (0.5 * cos (pi * r / Rc) + 0.5)"
  by (simp add: cutoff_cosine_def)

lemma cutoff_cosine_outside: "Rc < r \<Longrightarrow> cutoff_cosine r Rc = Some 0"
  by (simp add: cutoff_cosine_def)

lemma cutoff_cosine_mono:
  assumes "0 < Rc" "0 \<le> r1" "r1 \<le> r2" "r2 \<le> Rc"
  shows "0.5 * cos (pi * r2 / Rc) + 0.5 \<le> 0.5 * cos (pi * r1 / Rc) + (0.5 :: real)"
proof -
  have a: "0 \<le> pi * r1 / Rc" using assms by simp
  have b: "pi * r1 / Rc \<le> pi * r2 / Rc"
    using assms by (simp add: divide_le_cancel mult_left_mono)
  have "pi * r2 \<le> pi * Rc" using assms by (simp add: mult_left_mono)
  then have c: "pi * r2 / Rc \<le> pi" using assms by (simp add: pos_divide_le_eq)
  have "cos (pi * r2 / Rc) \<le> cos (pi * r1 / Rc)"
    using cos_monotone_0_pi_le [OF a b c] .
  then show ?thesis by simp
qed

text \<open>
  Claim C9. For a cutoff radius \<open>Rc > 0\<close> the cutoff function is
  \<open>0.5 * cos(pi * r / Rc) + 0.5\<close> for \<open>r \<le> Rc\<close> and \<open>0\<close> beyond; it is exactly \<open>0\<close> at
  \<open>r = Rc\<close>, exactly \<open>1\<close> at \<open>r = 0\<close>, and it does not increase on \<open>[0, Rc]\<close>.
\<close>

theorem cutoff_cosine_law:
  assumes "0 < Rc"
  shows "(\<forall>r. r \<le> Rc \<longrightarrow> cutoff_cosine r Rc = Some (0.5 * cos (pi * r / Rc) + 0.5))
       \<and> (\<forall>r. Rc < r \<longrightarrow> cutoff_cosine r Rc = Some 0)
       \<and> cutoff_cosine Rc Rc = Some 0
       \<and> cutoff_cosine 0 Rc = Some 1
       \<and> (\<forall>r1 r2. 0 \<le> r1 \<and> r1 \<le> r2 \<and> r2 \<le> Rc \<longrightarrow>
            (\<exists>v1 v2. cutoff_cosine r1 Rc = Some v1 \<and> cutoff_cosine r2 Rc = Some v2 \<and> v2 \<le> v1))"
proof (intro conjI allI impI)
  fix r assume "r \<le> Rc"
  then show "cutoff_cosine r Rc = Some (0.5 * cos (pi * r / Rc) + 0.5)"
    using assms by (simp add: cutoff_cosine_inside)
next
  fix r assume "Rc < r"
  then show "cutoff_cosine r Rc = Some 0" by (rule cutoff_cosine_outside)
next
  show "cutoff_cosine Rc Rc = Some 0" using assms by (simp add: cutoff_cosine_def)
next
  show "cutoff_cosine 0 Rc = Some 1" using assms by (simp add: cutoff_cosine_def)
next
  fix r1 r2 assume h: "0 \<le> r1 \<and> r1 \<le> r2 \<and> r2 \<le> Rc"
  then have "0.5 * cos (pi * r2 / Rc) + 0.5 \<le> 0.5 * cos (pi * r1 / Rc) + (0.5 :: real)"
    using assms cutoff_cosine_mono by blast
  moreover have "cutoff_cosine r1 Rc = Some (0.5 * cos (pi * r1 / Rc) + 0.5)"
    using h assms by (simp add: cutoff_cosine_inside)
  moreover have "cutoff_cosine r2 Rc = Some (0.5 * cos (pi * r2 / Rc) + 0.5)"
    using h assms by (simp add: cutoff_cosine_inside)
  ultimately show "\<exists>v1 v2. cutoff_cosine r1 Rc = Some v1 \<and> cutoff_cosine r2 Rc = Some v2 \<and> v2 \<le> v1"
    by blast
qed

theorem cutoff_cosine_law_witness:
  "(0::real) < 5 \<and> cutoff_cosine 5 5 = Some 0 \<and> cutoff_cosine 0 5 = Some 1
   \<and> cutoff_cosine 7 5 = Some 0
   \<and> (\<exists>v1 v2. cutoff_cosine 1 5 = Some v1 \<and> cutoff_cosine 2 5 = Some v2 \<and> v2 \<le> v1)"
proof -
  have h: "(0::real) < 5" by simp
  have m: "(0::real) \<le> 1 \<and> (1::real) \<le> 2 \<and> (2::real) \<le> 5" by simp
  have o: "(5::real) < 7" by simp
  show ?thesis using h m o cutoff_cosine_law [OF h] by blast
qed

subsection \<open>Lists of rows of one length\<close>

declare chunks.simps [simp del]

lemma chunks_concat:
  "0 < n \<Longrightarrow> \<forall>r \<in> set rows. length r = n \<Longrightarrow> chunks n (concat rows) = rows"
proof (induction rows)
  case Nil
  then show ?case by (simp add: chunks.simps)
next
  case (Cons r rows)
  then have "r \<noteq> []" by auto
  with Cons show ?case by (subst chunks.simps) simp
qed

lemma nth_concat_uniform:
  "\<forall>r \<in> set rows. length r = n \<Longrightarrow> i < length rows \<Longrightarrow> j < n \<Longrightarrow> concat rows ! (i * n + j) = rows ! i ! j"
proof (induction rows arbitrary: i)
  case Nil
  then show ?case by simp
next
  case (Cons r rows)
  show ?case
  proof (cases i)
    case 0
    with Cons show ?thesis by (simp add: nth_append)
  next
    case (Suc k)
    with Cons show ?thesis by (simp add: nth_append)
  qed
qed

lemma length_concat_uniform:
  "\<forall>r \<in> set rows. length r = n \<Longrightarrow> length (concat rows) = length rows * n"
  by (induction rows) auto

lemma length_concat_grid [simp]:
  "length (concat (map (\<lambda>e. map (f e) ss) es)) = length es * length ss"
  by (induction es) auto

lemma nth_concat_grid:
  "i < length es \<Longrightarrow> j < length ss \<Longrightarrow>
   concat (map (\<lambda>e. map (f e) ss) es) ! (i * length ss + j) = f (es ! i) (ss ! j)"
  using nth_concat_uniform [of "map (\<lambda>e. map (f e) ss) es" "length ss" i j] by simp

lemma view_rows_concat:
  assumes "0 < L" "\<forall>r \<in> set rows. length r = L"
  shows "view_rows L (concat rows) = Inr rows"
  using assms length_concat_uniform [of rows L] by (simp add: view_rows_def chunks_concat)

subsection \<open>Sums of tensor elements\<close>

lemma add_val_simps [simp]:
  "add_val None b = None" "add_val a None = None" "add_val (Some x) (Some y) = Some (x + y)"
  by (simp_all add: add_val_def split: option.splits)

lemma add_val_zero [simp]: "add_val x (Some 0) = x"
  by (cases x) simp_all

lemma sum_vals_simps [simp]:
  "sum_vals [] = Some 0" "sum_vals (x # xs) = add_val x (sum_vals xs)"
  by (simp_all add: sum_vals_def)

lemma sum_vals_None: "None \<in> set xs \<Longrightarrow> sum_vals xs = None"
  by (induction xs) auto


lemma sum_vals_cases:
  "sum_vals (map (\<lambda>x. if B x then None else Some (G x)) xs)
     = (if \<exists>x \<in> set xs. B x then None else Some (\<Sum>x\<leftarrow>xs. G x))"
  by (induction xs) auto

subsection \<open>The radial sub-AEV\<close>

lemma sum_neighbors2_grid:
  "sum_neighbors2 (length es) (length ss) (map (\<lambda>d. map (\<lambda>eta. map (\<lambda>sh. t eta sh d) ss) es) ds)
     = map (\<lambda>eta. map (\<lambda>sh. sum_vals (map (t eta sh) ds)) ss) es"
  unfolding sum_neighbors2_def
  by (auto intro!: nth_equalityI simp: comp_def)

lemma radial_subaev_no_neighbor: "radial_subaev c center (0, neighbors) = Inl RuntimeError"
  by (simp add: radial_subaev_def)

lemma radial_subaev_rows:
  assumes "0 < per_species_radial_length c" and "0 < fst neighbors"
  shows "radial_subaev c center neighbors =
           Inr (map2 (\<lambda>cn nbs. concat (map (\<lambda>eta. map (\<lambda>sh.
                  sum_vals (map (\<lambda>nb. radial_term (Rcr c) eta sh (distance (vsub nb cn))) nbs))
                  (ShfR c)) (EtaR c))) center (snd neighbors))"
proof -
  let ?row = "\<lambda>cn nbs. map (\<lambda>eta. map (\<lambda>sh.
                  sum_vals (map (\<lambda>nb. radial_term (Rcr c) eta sh (distance (vsub nb cn))) nbs))
                  (ShfR c)) (EtaR c)"
  have grid: "\<And>cn nbs. sum_neighbors2 (length (EtaR c)) (length (ShfR c))
          (map (\<lambda>d. map (\<lambda>eta. map (\<lambda>sh. radial_term (Rcr c) eta sh d) (ShfR c)) (EtaR c))
               (map distance (map (\<lambda>nb. vsub nb cn) nbs))) = ?row cn nbs"
    by (simp add: sum_neighbors2_grid comp_def)
  have "radial_subaev c center neighbors =
          view_rows (per_species_radial_length c) (concat (map concat (map2 ?row center (snd neighbors))))"
    unfolding radial_subaev_def Let_def using assms(2)
    by (simp add: sum_neighbors2_grid comp_def case_prod_unfold)
  also have "map concat (map2 ?row center (snd neighbors))
               = map2 (\<lambda>cn nbs. concat (?row cn nbs)) center (snd neighbors)"
    by (simp add: comp_def case_prod_unfold)
  also have "view_rows (per_species_radial_length c) (concat \<dots>) = Inr \<dots>"
    by (rule view_rows_concat [OF assms(1)])
       (auto simp: per_species_radial_length_def)
  finally show ?thesis .
qed

lemma upt2: "[0..<2] = [0, Suc 0]" by (simp add: upt_rec numeral_2_eq_2)

lemma radial_term_spec:
  "radial_term (Rcr c) eta sh (distance (vsub nb cn)) = spec_radial_term c eta sh cn nb"
  by (simp add: radial_term_def spec_radial_term_def mul_val_def Let_def split: option.splits)

lemma radial_subaev_nth:
  assumes N: "0 < fst neighbors" and len: "length (snd neighbors) = length center"
    and n: "n < length center" and e: "e < length (EtaR c)" and s: "s < length (ShfR c)"
  shows "\<exists>out. radial_subaev c center neighbors = Inr out \<and> length out = length center
          \<and> length (out ! n) = per_species_radial_length c
          \<and> out ! n ! (e * length (ShfR c) + s)
              = sum_vals (map (spec_radial_term c (EtaR c ! e) (ShfR c ! s) (center ! n))
                           (snd neighbors ! n))"
proof -
  have pos: "0 < per_species_radial_length c"
    using e s by (auto simp: per_species_radial_length_def)
  show ?thesis
    using len n e s
    by (simp add: radial_subaev_rows [OF pos N] nth_concat_grid radial_term_spec
        per_species_radial_length_def)
qed

lemma distance_vsub: "distance (vsub q p) = euclid p q"
  by (cases p; cases q) (simp add: distance_def vsub_def euclid_def)

lemma euclid_nonneg: "0 \<le> euclid p q"
  by (simp add: euclid_def)

lemma euclid_sym: "euclid p q = euclid q p"
  by (simp add: euclid_def power2_commute)

lemma euclid_axis:
  "euclid (x, y, z) (w, y, z) = \<bar>w - x\<bar>" "euclid (x, y, z) (x, w, z) = \<bar>w - y\<bar>"
  "euclid (x, y, z) (x, y, w) = \<bar>w - z\<bar>"
  by (simp_all add: euclid_def)

lemma cutoff_cosine_fc:
  "0 \<le> r \<Longrightarrow> cutoff_cosine r Rc = (if Rc = 0 \<and> r = 0 then None else Some (spec_fc r Rc))"
  by (auto simp: cutoff_cosine_def spec_fc_def)

lemma spec_radial_term_value:
  "spec_radial_term c eta sh cn nb =
     (if Rcr c = 0 \<and> euclid cn nb = 0 then None else Some (radial_symmetry (Rcr c) eta sh cn nb))"
  by (simp add: spec_radial_term_def Let_def distance_vsub cutoff_cosine_fc [OF euclid_nonneg]
      radial_symmetry_def)

lemma sum_radial_terms:
  "sum_vals (map (spec_radial_term c eta sh cn) nbs)
     = (if Rcr c = 0 \<and> (\<exists>nb \<in> set nbs. euclid cn nb = 0) then None
        else Some (\<Sum>nb\<leftarrow>nbs. radial_symmetry (Rcr c) eta sh cn nb))"
proof -
  have "map (spec_radial_term c eta sh cn) nbs
          = map (\<lambda>nb. if Rcr c = 0 \<and> euclid cn nb = 0 then None
                        else Some (radial_symmetry (Rcr c) eta sh cn nb)) nbs"
    by (simp add: spec_radial_term_value)
  then show ?thesis by (simp only: sum_vals_cases) auto
qed

subsection \<open>The angular sub-AEV\<close>

lemma length_concat_map:
  "(\<And>x. x \<in> set xs \<Longrightarrow> length (G x) = m) \<Longrightarrow> length (concat (map G xs)) = length xs * m"
  by (induction xs) auto

lemma nth_concat_map:
  assumes "\<And>x. x \<in> set xs \<Longrightarrow> length (G x) = m" "i < length xs" "j < m"
  shows "concat (map G xs) ! (i * m + j) = G (xs ! i) ! j"
  using nth_concat_uniform [of "map G xs" m i j] assms by auto

lemma flat_index_bound: "(i::nat) < n \<Longrightarrow> j < m \<Longrightarrow> i * m + j < n * m"
proof -
  assume a: "i < n" "j < m"
  then have "i * m + j < i * m + m" by simp
  also have "\<dots> = Suc i * m" by simp
  also have "\<dots> \<le> n * m" using a by (intro mult_le_mono1) simp
  finally show ?thesis .
qed

lemma nth_flat4:
  assumes e: "e < length es" and z: "z < length zs" and a: "a < length as" and t: "t < length ts"
  shows "concat (map (\<lambda>h. concat (map concat h))
            (map (\<lambda>eta. map (\<lambda>zeta. map (\<lambda>rs. map (\<lambda>sh. F eta zeta rs sh) ts) as) zs) es))
          ! (((e * length zs + z) * length as + a) * length ts + t)
         = F (es ! e) (zs ! z) (as ! a) (ts ! t)"
proof -
  let ?T = "length ts" and ?A = "length as" and ?Z = "length zs"
  let ?G3 = "\<lambda>eta zeta. concat (map (\<lambda>rs. map (\<lambda>sh. F eta zeta rs sh) ts) as)"
  let ?G2 = "\<lambda>eta. concat (map (?G3 eta) zs)"
  have l3: "\<And>eta zeta. length (?G3 eta zeta) = ?A * ?T" by simp
  have l2: "\<And>eta. length (?G2 eta) = ?Z * (?A * ?T)"
    by (rule length_concat_map) (simp only: l3)
  have flat: "concat (map (\<lambda>h. concat (map concat h))
            (map (\<lambda>eta. map (\<lambda>zeta. map (\<lambda>rs. map (\<lambda>sh. F eta zeta rs sh) ts) as) zs) es))
        = concat (map ?G2 es)"
    by (simp add: comp_def)
  have idx: "((e * ?Z + z) * ?A + a) * ?T + t = e * (?Z * (?A * ?T)) + (z * (?A * ?T) + (a * ?T + t))"
    by (simp add: algebra_simps)
  have b1: "a * ?T + t < ?A * ?T" using a t by (rule flat_index_bound)
  have b2: "z * (?A * ?T) + (a * ?T + t) < ?Z * (?A * ?T)" using z b1 by (rule flat_index_bound)
  have "concat (map ?G2 es) ! (e * (?Z * (?A * ?T)) + (z * (?A * ?T) + (a * ?T + t)))
          = ?G2 (es ! e) ! (z * (?A * ?T) + (a * ?T + t))"
    by (rule nth_concat_map) (simp_all only: l2 e b2)
  also have "\<dots> = ?G3 (es ! e) (zs ! z) ! (a * ?T + t)"
    by (rule nth_concat_map) (simp_all only: l3 z b1)
  also have "\<dots> = F (es ! e) (zs ! z) (as ! a) (ts ! t)"
    using a t by (simp only: nth_concat_grid)
  finally show ?thesis by (simp only: flat idx)
qed

lemma length_flat4:
  "length (concat (map (\<lambda>h. concat (map concat h))
            (map (\<lambda>eta. map (\<lambda>zeta. map (\<lambda>rs. map (\<lambda>sh. F eta zeta rs sh) ts) as) zs) es)))
     = length es * length zs * length as * length ts"
proof -
  let ?G3 = "\<lambda>eta zeta. concat (map (\<lambda>rs. map (\<lambda>sh. F eta zeta rs sh) ts) as)"
  let ?G2 = "\<lambda>eta. concat (map (?G3 eta) zs)"
  have l3: "\<And>eta zeta. length (?G3 eta zeta) = length as * length ts" by simp
  have l2: "\<And>eta. length (?G2 eta) = length zs * (length as * length ts)"
    by (rule length_concat_map) (simp only: l3)
  have "concat (map (\<lambda>h. concat (map concat h))
            (map (\<lambda>eta. map (\<lambda>zeta. map (\<lambda>rs. map (\<lambda>sh. F eta zeta rs sh) ts) as) zs) es))
        = concat (map ?G2 es)"
    by (simp add: comp_def)
  moreover have "length (concat (map ?G2 es)) = length es * (length zs * (length as * length ts))"
    by (rule length_concat_map) (simp only: l2)
  ultimately show ?thesis by (simp add: mult.assoc)
qed

lemma sum_pairs4_grid:
  "sum_pairs4 (length es) (length zs) (length as) (length ts)
     (map (\<lambda>p. map (\<lambda>eta. map (\<lambda>zeta. map (\<lambda>rs. map (\<lambda>sh. F eta zeta rs sh p) ts) as) zs) es) ps)
   = map (\<lambda>eta. map (\<lambda>zeta. map (\<lambda>rs. map (\<lambda>sh. sum_vals (map (F eta zeta rs sh) ps)) ts) as) zs) es"
  unfolding sum_pairs4_def
  by (auto intro!: nth_equalityI simp: comp_def)

lemma acos_val_abs: "acos_val Q = (if \<bar>Q\<bar> \<le> 1 then Some (arccos Q) else None)"
  by (auto simp: acos_val_def abs_le_iff)

lemma bind_div_acos:
  "Option.bind (div_val X Y) acos_val =
     (if Y = 0 then None else if \<bar>X / Y\<bar> \<le> 1 then Some (arccos (X / Y)) else None)"
  by (simp add: div_val_def acos_val_abs)

lemma angular_term_general:
  "angular_term Rc eta zeta rs sh (Option.bind (div_val X Y) acos_val) (d1, d2) =
    (case (if Y = 0 then None else if \<bar>X / Y\<bar> \<le> 1 then Some (arccos (X / Y)) else None) of
       None \<Rightarrow> None
     | Some angle \<Rightarrow>
        (case pow_val ((1 + cos (angle - sh)) / 2) zeta of
           None \<Rightarrow> None
         | Some pw \<Rightarrow>
            (case cutoff_cosine d1 Rc of
               None \<Rightarrow> None
             | Some fc1 \<Rightarrow>
                (case cutoff_cosine d2 Rc of
                   None \<Rightarrow> None
                 | Some fc2 \<Rightarrow> Some (2 * pw * exp (- eta * ((d1 + d2) / 2 - rs)\<^sup>2) * fc1 * fc2)))))"
  by (simp add: angular_term_def mul_val_def bind_div_acos split: option.splits)

lemma angular_term_spec:
  "angular_term (Rca c) eta zeta rs sh (pair_angle cn pr)
     (distance (vsub (fst pr) cn), distance (vsub (snd pr) cn))
   = spec_angular_term c eta zeta rs sh cn pr"
  unfolding spec_angular_term_def spec_angle_def Let_def pair_angle_def pair_cos_angle_def
  by (rule angular_term_general)

lemma cos_angles_rows:
  "cos_angles center neighbors = map2 (\<lambda>cn prs. map (pair_cos_angle cn) prs) center neighbors"
  by (simp add: cos_angles_def Rij_vec_pairs_def R_distances_pairs_def Let_def
      zip_map_map zip_same_conv_map comp_def case_prod_unfold pair_cos_angle_def)

lemma angles_rows:
  "angles center neighbors = map2 (\<lambda>cn prs. map (pair_angle cn) prs) center neighbors"
  by (simp add: angles_def cos_angles_rows comp_def case_prod_unfold pair_angle_def)

lemma distances_rows:
  "R_distances_pairs (Rij_vec_pairs center neighbors) =
     map2 (\<lambda>cn prs. map (\<lambda>pr. (distance (vsub (fst pr) cn), distance (vsub (snd pr) cn))) prs)
       center neighbors"
  by (simp add: Rij_vec_pairs_def R_distances_pairs_def comp_def case_prod_unfold)

lemma angular_subaev_no_pair: "angular_subaev c center (0, neighbors) = Inl RuntimeError"
  by (simp add: angular_subaev_def)

lemma angular_subaev_rows:
  assumes "0 < per_species_angular_length c" and "0 < fst neighbors"
  shows "angular_subaev c center neighbors =
           Inr (map2 (\<lambda>cn prs. concat (map (\<lambda>h. concat (map concat h))
                  (map (\<lambda>eta. map (\<lambda>zeta. map (\<lambda>rs. map (\<lambda>sh.
                     sum_vals (map (spec_angular_term c eta zeta rs sh cn) prs))
                     (ShfZ c)) (ShfA c)) (Zeta c)) (EtaA c)))) center (snd neighbors))"
proof -
  let ?row = "\<lambda>cn prs. map (\<lambda>eta. map (\<lambda>zeta. map (\<lambda>rs. map (\<lambda>sh.
                     sum_vals (map (spec_angular_term c eta zeta rs sh cn) prs))
                     (ShfZ c)) (ShfA c)) (Zeta c)) (EtaA c)"
  let ?flat = "\<lambda>g. concat (map (\<lambda>h. concat (map concat h)) g)"
  have "angular_subaev c center neighbors =
          view_rows (per_species_angular_length c)
            (concat (map ?flat (map2 ?row center (snd neighbors))))"
    unfolding angular_subaev_def Let_def angles_rows distances_rows using assms(2)
    by (simp add: zip_map_map zip_same_conv_map comp_def case_prod_unfold sum_pairs4_grid
        angular_term_spec)
  also have "map ?flat (map2 ?row center (snd neighbors))
               = map2 (\<lambda>cn prs. ?flat (?row cn prs)) center (snd neighbors)"
    by (simp add: comp_def case_prod_unfold)
  also have "view_rows (per_species_angular_length c) (concat \<dots>) = Inr \<dots>"
    by (rule view_rows_concat [OF assms(1)])
       (auto simp only: per_species_angular_length_def length_flat4 set_map)
  finally show ?thesis .
qed

lemma nth_map2:
  "n < length xs \<Longrightarrow> length ys = length xs \<Longrightarrow> map2 F xs ys ! n = F (xs ! n) (ys ! n)"
  by simp

lemma angular_subaev_nth:
  assumes P: "0 < P" and len: "length neighbors = length center" and n: "n < length center"
    and e: "e < length (EtaA c)" and z: "z < length (Zeta c)"
    and a: "a < length (ShfA c)" and t: "t < length (ShfZ c)"
  shows "\<exists>out. angular_subaev c center (P, neighbors) = Inr out \<and> length out = length center
          \<and> length (out ! n) = per_species_angular_length c
          \<and> out ! n ! (((e * length (Zeta c) + z) * length (ShfA c) + a) * length (ShfZ c) + t)
              = sum_vals (map (spec_angular_term c (EtaA c ! e) (Zeta c ! z) (ShfA c ! a) (ShfZ c ! t)
                                (center ! n)) (neighbors ! n))"
proof -
  let ?F = "\<lambda>cn prs. concat (map (\<lambda>h. concat (map concat h))
                  (map (\<lambda>eta. map (\<lambda>zeta. map (\<lambda>rs. map (\<lambda>sh.
                     sum_vals (map (spec_angular_term c eta zeta rs sh cn) prs))
                     (ShfZ c)) (ShfA c)) (Zeta c)) (EtaA c)))"
  have pos: "0 < per_species_angular_length c"
    using e z a t by (auto simp: per_species_angular_length_def)
  have P': "0 < fst (P, neighbors)" using P by simp
  have out: "angular_subaev c center (P, neighbors) = Inr (map2 ?F center neighbors)"
    using angular_subaev_rows [OF pos P'] by (simp only: snd_conv)
  have l: "length (map2 ?F center neighbors) = length center" using len by simp
  have row: "map2 ?F center neighbors ! n = ?F (center ! n) (neighbors ! n)"
    using n len by (rule nth_map2)
  have ll: "length (?F (center ! n) (neighbors ! n)) = per_species_angular_length c"
    by (simp only: length_flat4 per_species_angular_length_def)
  have "?F (center ! n) (neighbors ! n)
          ! (((e * length (Zeta c) + z) * length (ShfA c) + a) * length (ShfZ c) + t)
        = sum_vals (map (spec_angular_term c (EtaA c ! e) (Zeta c ! z) (ShfA c ! a) (ShfZ c ! t)
                                (center ! n)) (neighbors ! n))"
    by (rule nth_flat4 [OF e z a t])
  then have entry: "map2 ?F center neighbors ! n
          ! (((e * length (Zeta c) + z) * length (ShfA c) + a) * length (ShfZ c) + t)
        = sum_vals (map (spec_angular_term c (EtaA c ! e) (Zeta c ! z) (ShfA c ! a) (ShfZ c ! t)
                                (center ! n)) (neighbors ! n))"
    by (simp only: row)
  have ll': "length (map2 ?F center neighbors ! n) = per_species_angular_length c"
    by (simp only: row ll)
  show ?thesis
    by (rule exI [of _ "map2 ?F center neighbors"]) (intro conjI out l ll' entry)
qed

lemma cauchy_schwarz3: "(inner_prod u v)\<^sup>2 \<le> (distance u)\<^sup>2 * (distance v)\<^sup>2"
proof -
  obtain a b c where u: "u = (a, b, c)" by (cases u) auto
  obtain x y z where v: "v = (x, y, z)" by (cases v) auto
  have "(a\<^sup>2 + b\<^sup>2 + c\<^sup>2) * (x\<^sup>2 + y\<^sup>2 + z\<^sup>2) - (a * x + b * y + c * z)\<^sup>2
        = (a * y - b * x)\<^sup>2 + (a * z - c * x)\<^sup>2 + (b * z - c * y)\<^sup>2"
    by (simp add: power2_eq_square algebra_simps)
  moreover have "0 \<le> (a * y - b * x)\<^sup>2 + (a * z - c * x)\<^sup>2 + (b * z - c * y)\<^sup>2" by simp
  ultimately have "(a * x + b * y + c * z)\<^sup>2 \<le> (a\<^sup>2 + b\<^sup>2 + c\<^sup>2) * (x\<^sup>2 + y\<^sup>2 + z\<^sup>2)"
    by linarith
  then show ?thesis by (simp add: u v inner_prod_def distance_def)
qed

lemma distance_nonneg: "0 \<le> distance v"
  by (cases v) (simp add: distance_def)

lemma abs_inner_le: "\<bar>inner_prod u v\<bar> \<le> distance u * distance v"
proof -
  have "(inner_prod u v)\<^sup>2 \<le> (distance u * distance v)\<^sup>2"
    using cauchy_schwarz3 [of u v] by (simp add: power_mult_distrib)
  then show ?thesis
    using distance_nonneg [of u] distance_nonneg [of v]
    by (metis abs_le_square_iff abs_of_nonneg mult_nonneg_nonneg)
qed

lemma acos_argument_bound:
  assumes "0 < distance u" "0 < distance v"
  shows "\<bar>0.95 * inner_prod u v / (distance u * distance v)\<bar> \<le> 0.95"
proof -
  let ?p = "distance u * distance v"
  have p: "0 < ?p" using assms by simp
  have "\<bar>inner_prod u v / ?p\<bar> = \<bar>inner_prod u v\<bar> / ?p" using p by simp
  also have "\<dots> \<le> 1" using abs_inner_le [of u v] p by (simp add: pos_divide_le_eq)
  finally have one: "\<bar>inner_prod u v / ?p\<bar> \<le> 1" .
  have "\<bar>0.95 * inner_prod u v / ?p\<bar> = 0.95 * \<bar>inner_prod u v / ?p\<bar>"
    by (simp add: abs_mult)
  also have "\<dots> \<le> 0.95 * 1" using one by (intro mult_left_mono) simp_all
  finally show ?thesis by simp
qed

lemma pair_angle_defined:
  assumes "0 < distance (vsub (fst pr) cn)" "0 < distance (vsub (snd pr) cn)"
  shows "\<exists>x. pair_cos_angle cn pr = Some x \<and> \<bar>x\<bar> \<le> 0.95 \<and> pair_angle cn pr = Some (arccos x)"
proof -
  let ?x = "0.95 * inner_prod (vsub (fst pr) cn) (vsub (snd pr) cn)
              / (distance (vsub (fst pr) cn) * distance (vsub (snd pr) cn))"
  have nz: "distance (vsub (fst pr) cn) * distance (vsub (snd pr) cn) \<noteq> 0" using assms by simp
  have b: "\<bar>?x\<bar> \<le> 0.95" using assms by (rule acos_argument_bound)
  then have b1: "\<bar>?x\<bar> \<le> 1" by (rule order_trans) simp
  have c: "pair_cos_angle cn pr = Some ?x"
    unfolding pair_cos_angle_def div_val_def using nz by (simp only: if_False)
  have "pair_angle cn pr = Some (arccos ?x)"
    unfolding pair_angle_def c using b1 by (simp add: acos_val_abs del: abs_divide)
  with b c show ?thesis by blast
qed

lemma pair_angle_undefined:
  assumes "distance (vsub (fst pr) cn) = 0 \<or> distance (vsub (snd pr) cn) = 0"
  shows "pair_cos_angle cn pr = None" "pair_angle cn pr = None"
  using assms by (auto simp: pair_cos_angle_def pair_angle_def div_val_def)

lemma set_flat4:
  "x \<in> set (concat (map (\<lambda>h. concat (map concat h))
            (map (\<lambda>eta. map (\<lambda>zeta. map (\<lambda>rs. map (\<lambda>sh. F eta zeta rs sh) ts) as) zs) es)))
   \<Longrightarrow> \<exists>eta zeta rs sh. x = F eta zeta rs sh"
  by auto

lemma spec_angular_term_undefined:
  "distance (vsub (fst pr) cn) * distance (vsub (snd pr) cn) = 0 \<Longrightarrow>
   spec_angular_term c eta zeta rs sh cn pr = None"
  by (simp add: spec_angular_term_def spec_angle_def Let_def)

lemma pow_val_nonneg: "0 \<le> b \<Longrightarrow> 0 < z \<Longrightarrow> pow_val b z = Some (b powr z)"
  by (auto simp: pow_val_def)

lemma half_one_plus_cos_nonneg: "0 \<le> (1 + cos (y::real)) / 2"
  using cos_ge_minus_one [of y] by (auto simp del: cos_ge_minus_one)

lemma inner_prod_vsub: "inner_prod (vsub a cn) (vsub b cn) = dot_from cn a b"
  by (cases a; cases b; cases cn) (simp add: inner_prod_def vsub_def dot_from_def)

lemma spec_angle_value:
  "spec_angle cn pr =
     (if euclid cn (fst pr) * euclid cn (snd pr) = 0 then None else Some (enclosed_angle cn pr))"
proof (cases "euclid cn (fst pr) * euclid cn (snd pr) = 0")
  case True
  then show ?thesis by (simp add: spec_angle_def Let_def distance_vsub)
next
  case False
  let ?x = "0.95 * inner_prod (vsub (fst pr) cn) (vsub (snd pr) cn)
              / (distance (vsub (fst pr) cn) * distance (vsub (snd pr) cn))"
  from False have d: "0 < distance (vsub (fst pr) cn)" "0 < distance (vsub (snd pr) cn)"
    using euclid_nonneg [of cn "fst pr"] euclid_nonneg [of cn "snd pr"]
    by (auto simp: distance_vsub less_le)
  have nz: "distance (vsub (fst pr) cn) * distance (vsub (snd pr) cn) \<noteq> 0" using d by simp
  have "\<bar>?x\<bar> \<le> 0.95" using d by (rule acos_argument_bound)
  then have b1: "\<bar>?x\<bar> \<le> 1" by (rule order_trans) simp
  have "spec_angle cn pr = Some (arccos ?x)"
    unfolding spec_angle_def Let_def using nz b1 by (simp only: if_False if_True)
  also have "arccos ?x = enclosed_angle cn pr"
    by (simp only: enclosed_angle_def distance_vsub inner_prod_vsub)
  finally show ?thesis using False by simp
qed

lemma pow_val_base_nonneg:
  "0 \<le> b \<Longrightarrow>
   pow_val b z = (if b = 0 \<and> z < 0 then None else Some (if b = 0 \<and> z = 0 then 1 else b powr z))"
  by (auto simp: pow_val_def)

lemma half_one_plus_cos_zero: "((1 + cos (y::real)) / 2 = 0) = (cos y = - 1)"
  by auto

lemma spec_angular_term_value:
  "spec_angular_term c eta zeta rs sh cn pr =
     (if euclid cn (fst pr) * euclid cn (snd pr) = 0
         \<or> (cos (enclosed_angle cn pr - sh) = - 1 \<and> zeta < 0) then None
      else Some (angular_symmetry (Rca c) eta zeta rs sh cn pr))"
proof (cases "euclid cn (fst pr) * euclid cn (snd pr) = 0")
  case True
  then show ?thesis by (simp add: spec_angular_term_def spec_angle_value Let_def)
next
  case False
  let ?b = "(1 + cos (enclosed_angle cn pr - sh)) / 2"
  from False have d: "euclid cn (fst pr) \<noteq> 0" "euclid cn (snd pr) \<noteq> 0" by simp_all
  have ang: "spec_angle cn pr = Some (enclosed_angle cn pr)"
    using False by (simp add: spec_angle_value)
  have f1: "cutoff_cosine (euclid cn (fst pr)) (Rca c) = Some (spec_fc (euclid cn (fst pr)) (Rca c))"
    using d(1) by (simp add: cutoff_cosine_fc [OF euclid_nonneg])
  have f2: "cutoff_cosine (euclid cn (snd pr)) (Rca c) = Some (spec_fc (euclid cn (snd pr)) (Rca c))"
    using d(2) by (simp add: cutoff_cosine_fc [OF euclid_nonneg])
  have pw: "pow_val ?b zeta
              = (if ?b = 0 \<and> zeta < 0 then None
                 else Some (if ?b = 0 \<and> zeta = 0 then 1 else ?b powr zeta))"
    by (rule pow_val_base_nonneg) (rule half_one_plus_cos_nonneg)
  show ?thesis
  proof (cases "?b = 0 \<and> zeta < 0")
    case True
    have p: "pow_val ?b zeta = None" unfolding pw using True by simp
    from True have c: "cos (enclosed_angle cn pr - sh) = - 1 \<and> zeta < 0"
      by (simp only: half_one_plus_cos_zero)
    have "spec_angular_term c eta zeta rs sh cn pr = None"
      unfolding spec_angular_term_def Let_def distance_vsub ang by (simp only: option.case p)
    then show ?thesis using c by simp
  next
    case nb: False
    have p: "pow_val ?b zeta = Some (if ?b = 0 \<and> zeta = 0 then 1 else ?b powr zeta)"
      unfolding pw using nb by (simp only: if_False)
    have n1: "\<not> (cos (enclosed_angle cn pr - sh) = - 1 \<and> zeta < 0)"
      using nb unfolding half_one_plus_cos_zero .
    have "spec_angular_term c eta zeta rs sh cn pr
            = Some (2 * (if ?b = 0 \<and> zeta = 0 then 1 else ?b powr zeta)
                      * exp (- eta * ((euclid cn (fst pr) + euclid cn (snd pr)) / 2 - rs)\<^sup>2)
                      * spec_fc (euclid cn (fst pr)) (Rca c) * spec_fc (euclid cn (snd pr)) (Rca c))"
      unfolding spec_angular_term_def Let_def distance_vsub ang
      by (simp only: option.case p f1 f2)
    also have "\<dots> = Some (angular_symmetry (Rca c) eta zeta rs sh cn pr)"
      by (simp only: angular_symmetry_def Let_def)
    finally show ?thesis using False n1 by simp
  qed
qed

lemma sum_angular_terms:
  "sum_vals (map (spec_angular_term c eta zeta rs sh cn) prs)
     = (if \<exists>pr \<in> set prs. euclid cn (fst pr) * euclid cn (snd pr) = 0
              \<or> (cos (enclosed_angle cn pr - sh) = - 1 \<and> zeta < 0) then None
        else Some (\<Sum>pr\<leftarrow>prs. angular_symmetry (Rca c) eta zeta rs sh cn pr))"
proof -
  have "map (spec_angular_term c eta zeta rs sh cn) prs
          = map (\<lambda>pr. if euclid cn (fst pr) * euclid cn (snd pr) = 0
                            \<or> (cos (enclosed_angle cn pr - sh) = - 1 \<and> zeta < 0) then None
                        else Some (angular_symmetry (Rca c) eta zeta rs sh cn pr)) prs"
    by (intro map_cong refl spec_angular_term_value)
  then show ?thesis by (simp only: sum_vals_cases)
qed

lemma distance_unit [simp]:
  "distance (vsub (1, 0, 0) (0, 0, 0)) = 1" "distance (vsub (0, 1, 0) (0, 0, 0)) = 1"
  by (simp_all add: distance_def vsub_def)

lemma cos_angles_nth:
  assumes "length neighbors = length center" "n < length center" "k < length (neighbors ! n)"
  shows "cos_angles center neighbors ! n ! k = pair_cos_angle (center ! n) (neighbors ! n ! k)"
    and "angles center neighbors ! n ! k = pair_angle (center ! n) (neighbors ! n ! k)"
  using assms by (simp_all add: cos_angles_rows angles_rows)

lemma angular_subaev_undefined_row:
  assumes len: "length neighbors = length center" and n: "n < length center"
    and k: "k < length (neighbors ! n)"
    and zero: "distance (vsub (fst (neighbors ! n ! k)) (center ! n))
                * distance (vsub (snd (neighbors ! n ! k)) (center ! n)) = 0"
    and pos: "0 < per_species_angular_length c"
  shows "\<exists>out. angular_subaev c center (length (neighbors ! n), neighbors) = Inr out
           \<and> out ! n = replicate (per_species_angular_length c) None"
proof -
  let ?F = "\<lambda>cn prs. concat (map (\<lambda>h. concat (map concat h))
                  (map (\<lambda>eta. map (\<lambda>zeta. map (\<lambda>rs. map (\<lambda>sh.
                     sum_vals (map (spec_angular_term c eta zeta rs sh cn) prs))
                     (ShfZ c)) (ShfA c)) (Zeta c)) (EtaA c)))"
  have P: "0 < fst (length (neighbors ! n), neighbors)" using k by auto
  have out: "angular_subaev c center (length (neighbors ! n), neighbors)
               = Inr (map2 ?F center neighbors)"
    using angular_subaev_rows [OF pos P] by (simp only: snd_conv)
  have row: "map2 ?F center neighbors ! n = ?F (center ! n) (neighbors ! n)"
    using n len by (rule nth_map2)
  have ll: "length (?F (center ! n) (neighbors ! n)) = per_species_angular_length c"
    by (simp only: length_flat4 per_species_angular_length_def)
  have none: "\<And>eta zeta rs sh.
      sum_vals (map (spec_angular_term c eta zeta rs sh (center ! n)) (neighbors ! n)) = None"
  proof (rule sum_vals_None)
    fix eta zeta rs sh
    have "spec_angular_term c eta zeta rs sh (center ! n) (neighbors ! n ! k) = None"
      using zero by (rule spec_angular_term_undefined)
    then show "None \<in> set (map (spec_angular_term c eta zeta rs sh (center ! n)) (neighbors ! n))"
      using k by (metis (no_types, lifting) length_map nth_map nth_mem)
  qed
  have "\<forall>y \<in> set (?F (center ! n) (neighbors ! n)). y = None"
  proof
    fix y assume "y \<in> set (?F (center ! n) (neighbors ! n))"
    then obtain eta zeta rs sh where
      "y = sum_vals (map (spec_angular_term c eta zeta rs sh (center ! n)) (neighbors ! n))"
      using set_flat4 by fast
    then show "y = None" by (simp only: none)
  qed
  then have "replicate (length (?F (center ! n) (neighbors ! n))) None = ?F (center ! n) (neighbors ! n)"
    by (rule replicate_length_same)
  then have "map2 ?F center neighbors ! n = replicate (per_species_angular_length c) None"
    by (simp only: row ll)
  with out show ?thesis by blast
qed

text \<open>
  Claim C10. For a neighbor pair whose two atoms lie at positive distances from the center,
  the product \<open>d1 * d2\<close> is not zero, the argument of the arc cosine is defined and at most
  \<open>0.95\<close> in absolute value, and the angle is defined. When a neighbor coincides with the
  center, \<open>d1 * d2 = 0\<close> and the quotient has no value; \<open>angular_subaev\<close> does not check
  for it: it returns, and every entry of that conformation is undefined. The pair tensor is
  given with the length of its pair axis, the number of pairs of the conformation.
\<close>

theorem acos_argument_domain:
  "length neighbors = length center \<and> n < length center \<and> k < length (neighbors ! n) \<longrightarrow>
     (0 < distance (vsub (fst (neighbors ! n ! k)) (center ! n))
        \<and> 0 < distance (vsub (snd (neighbors ! n ! k)) (center ! n)) \<longrightarrow>
      distance (vsub (fst (neighbors ! n ! k)) (center ! n))
        * distance (vsub (snd (neighbors ! n ! k)) (center ! n)) \<noteq> 0
      \<and> (\<exists>x. cos_angles center neighbors ! n ! k = Some x \<and> \<bar>x\<bar> \<le> 0.95
             \<and> angles center neighbors ! n ! k = Some (arccos x)))
   \<and> (distance (vsub (fst (neighbors ! n ! k)) (center ! n))
        * distance (vsub (snd (neighbors ! n ! k)) (center ! n)) = 0 \<longrightarrow>
      cos_angles center neighbors ! n ! k = None \<and> angles center neighbors ! n ! k = None
      \<and> (0 < per_species_angular_length c \<longrightarrow>
           (\<exists>out. angular_subaev c center (length (neighbors ! n), neighbors) = Inr out
              \<and> out ! n = replicate (per_species_angular_length c) None)))"
proof (intro impI conjI)
  assume h: "length neighbors = length center \<and> n < length center \<and> k < length (neighbors ! n)"
  then have h': "length neighbors = length center" "n < length center" "k < length (neighbors ! n)"
    by simp_all
  note nth = cos_angles_nth [OF h']
  {
    assume p: "0 < distance (vsub (fst (neighbors ! n ! k)) (center ! n))
        \<and> 0 < distance (vsub (snd (neighbors ! n ! k)) (center ! n))"
    then show "distance (vsub (fst (neighbors ! n ! k)) (center ! n))
        * distance (vsub (snd (neighbors ! n ! k)) (center ! n)) \<noteq> 0"
      by simp
    from p have "0 < distance (vsub (fst (neighbors ! n ! k)) (center ! n))"
      "0 < distance (vsub (snd (neighbors ! n ! k)) (center ! n))" by simp_all
    from pair_angle_defined [OF this]
    show "\<exists>x. cos_angles center neighbors ! n ! k = Some x \<and> \<bar>x\<bar> \<le> 0.95
             \<and> angles center neighbors ! n ! k = Some (arccos x)"
      by (simp only: nth)
  }
  {
    assume z: "distance (vsub (fst (neighbors ! n ! k)) (center ! n))
        * distance (vsub (snd (neighbors ! n ! k)) (center ! n)) = 0"
    then have "distance (vsub (fst (neighbors ! n ! k)) (center ! n)) = 0
        \<or> distance (vsub (snd (neighbors ! n ! k)) (center ! n)) = 0"
      by simp
    from pair_angle_undefined [OF this]
    show "cos_angles center neighbors ! n ! k = None" "angles center neighbors ! n ! k = None"
      by (simp_all only: nth)
    assume "0 < per_species_angular_length c"
    with h' z show "\<exists>out. angular_subaev c center (length (neighbors ! n), neighbors) = Inr out
              \<and> out ! n = replicate (per_species_angular_length c) None"
      by (rule angular_subaev_undefined_row)
  }
qed

theorem acos_argument_domain_witness:
  "(\<exists>x. cos_angles [(0, 0, 0)] [[((1, 0, 0), (0, 1, 0))]] ! 0 ! 0 = Some x \<and> \<bar>x\<bar> \<le> 0.95)
   \<and> cos_angles [(0, 0, 0)] [[((0, 0, 0), (0, 1, 0))]] ! 0 ! 0 = None
   \<and> (\<exists>out. angular_subaev scenario_A [(0, 0, 0)] (1, [[((0, 0, 0), (0, 1, 0))]]) = Inr out
         \<and> out ! 0 = [None])"
proof -
  let ?cn = "(0, 0, 0) :: point"
  let ?good = "((1, 0, 0), (0, 1, 0)) :: point \<times> point"
  let ?bad = "((0, 0, 0), (0, 1, 0)) :: point \<times> point"
  have g: "length [[?good]] = length [?cn] \<and> (0::nat) < length [?cn] \<and> (0::nat) < length ([[?good]] ! 0)"
    by simp
  have gp: "0 < distance (vsub (fst ([[?good]] ! 0 ! 0)) ([?cn] ! 0))
        \<and> 0 < distance (vsub (snd ([[?good]] ! 0 ! 0)) ([?cn] ! 0))"
    by simp
  have b: "length [[?bad]] = length [?cn] \<and> (0::nat) < length [?cn] \<and> (0::nat) < length ([[?bad]] ! 0)"
    by simp
  have bz: "distance (vsub (fst ([[?bad]] ! 0 ! 0)) ([?cn] ! 0))
        * distance (vsub (snd ([[?bad]] ! 0 ! 0)) ([?cn] ! 0)) = 0"
    by (simp add: distance_def vsub_def)
  have L: "0 < per_species_angular_length scenario_A" "per_species_angular_length scenario_A = 1"
    by (simp_all add: per_species_angular_length_def scenario_A_def)
  from acos_argument_domain [of "[[?good]]" "[?cn]" 0 0 scenario_A] g gp
  have 1: "\<exists>x. cos_angles [?cn] [[?good]] ! 0 ! 0 = Some x \<and> \<bar>x\<bar> \<le> 0.95"
    by blast
  from acos_argument_domain [of "[[?bad]]" "[?cn]" 0 0 scenario_A] b bz L(1)
  have 2: "cos_angles [?cn] [[?bad]] ! 0 ! 0 = None"
    and 3: "\<exists>out. angular_subaev scenario_A [?cn] (length ([[?bad]] ! 0), [[?bad]]) = Inr out
              \<and> out ! 0 = replicate (per_species_angular_length scenario_A) None"
    by blast+
  from 3 have "\<exists>out. angular_subaev scenario_A [?cn] (1, [[?bad]]) = Inr out \<and> out ! 0 = [None]"
    by (simp add: L(2))
  with 1 2 show ?thesis by blast
qed

subsection \<open>Distances and cutoffs\<close>

lemma in_cutoff_diag: "i < atoms \<Longrightarrow> in_cutoff fl Rc atoms R ! i ! i = 0"
  by (simp add: in_cutoff_def Let_def)

lemma joined_count:
  assumes "\<forall>m \<in> set R. i < length m \<and> j < length (m ! i)"
  shows "sum_list (map (\<lambda>m. m ! i ! j) (map (map (map f)) R)) = sum_list (map (\<lambda>m. f (m ! i ! j)) R)"
  using assms by (induction R) auto

lemma sum_list_pos_iff: "(0 < sum_list (ns :: nat list)) = (\<exists>n \<in> set ns. 0 < n)"
  by (induction ns) auto

lemma in_cutoff_nth:
  assumes "i < atoms" "j < atoms"
    and "\<forall>m \<in> set R. i < length m \<and> j < length (m ! i)"
  shows "in_cutoff fl Rc atoms R ! i ! j =
           (if (\<exists>m \<in> set R. m ! i ! j \<le> fl Rc) \<and> i \<noteq> j then 1 else 0)"
proof -
  have "(0 < sum_list (map (\<lambda>m. m ! i ! j) (map (map (map (\<lambda>d. if d \<le> fl Rc then (1::nat) else 0))) R)))
          = (\<exists>m \<in> set R. m ! i ! j \<le> fl Rc)"
    by (simp only: joined_count [OF assms(3)] sum_list_pos_iff) auto
  then show ?thesis
    using assms(1,2) by (simp add: in_cutoff_def Let_def)
qed

lemma R_distances_all_nth:
  assumes "n < length coordinates" "i < length (coordinates ! n)" "j < length (coordinates ! n)"
  shows "R_distances_all fl coordinates ! n ! i ! j
           = computed_distance fl (coordinates ! n ! i) (coordinates ! n ! j)"
  using assms
  by (cases "coordinates ! n ! i"; cases "coordinates ! n ! j")
     (simp add: R_distances_all_def Let_def vsub_def computed_distance_def)

lemma computed_distance_exact: "computed_distance (\<lambda>x. x) p q = euclid p q"
  by (simp add: computed_distance_def euclid_def)

lemma in_cutoff_computed:
  assumes v: "list_all (\<lambda>conf. length conf = atoms) coordinates" and i: "i < atoms" and j: "j < atoms"
  shows "in_cutoff fl Rc atoms (R_distances_all fl coordinates) ! i ! j
          = (if i \<noteq> j \<and> (\<exists>n < length coordinates.
                computed_distance fl (coordinates ! n ! i) (coordinates ! n ! j) \<le> fl Rc) then 1 else 0)"
proof -
  have len: "\<And>n. n < length coordinates \<Longrightarrow> length (coordinates ! n) = atoms"
    using v by (simp add: list_all_length)
  have shape: "\<forall>m \<in> set (R_distances_all fl coordinates). i < length m \<and> j < length (m ! i)"
    using v i j by (auto simp: R_distances_all_def Let_def list_all_iff)
  have "(\<exists>m \<in> set (R_distances_all fl coordinates). m ! i ! j \<le> fl Rc)
          = (\<exists>n < length (R_distances_all fl coordinates). R_distances_all fl coordinates ! n ! i ! j \<le> fl Rc)"
    by (metis (no_types, lifting) in_set_conv_nth)
  also have "length (R_distances_all fl coordinates) = length coordinates"
    by (simp add: R_distances_all_def Let_def)
  also have "(\<exists>n < length coordinates. R_distances_all fl coordinates ! n ! i ! j \<le> fl Rc)
           = (\<exists>n < length coordinates.
                computed_distance fl (coordinates ! n ! i) (coordinates ! n ! j) \<le> fl Rc)"
    using i j len by (auto simp: R_distances_all_nth)
  finally show ?thesis using i j shape by (simp add: in_cutoff_nth)
qed

lemma in_cutoff_distances:
  assumes v: "list_all (\<lambda>conf. length conf = atoms) coordinates" and i: "i < atoms" and j: "j < atoms"
  shows "in_cutoff (\<lambda>x. x) Rc atoms (R_distances_all (\<lambda>x. x) coordinates) ! i ! j
          = (if i \<noteq> j \<and> (\<exists>n < length coordinates.
                distance (vsub (coordinates ! n ! j) (coordinates ! n ! i)) \<le> Rc) then 1 else 0)"
  by (simp only: in_cutoff_computed [OF v i j] computed_distance_exact distance_vsub)

subsection \<open>Species selectors and neighbor lists\<close>

lemma selectors_step:
  assumes k: "k < atoms" and len: "atoms \<le> length sp"
  shows "(selectors_upto atoms sp k)(sp ! k \<mapsto>
            (case selectors_upto atoms sp k (sp ! k) of None \<Rightarrow> replicate atoms 0 | Some v \<Rightarrow> v)[k := 1])
         = selectors_upto atoms sp (Suc k)"
proof (rule ext)
  fix s
  have tk: "set (take (Suc k) sp) = insert (sp ! k) (set (take k sp))"
    using k len by (simp add: take_Suc_conv_app_nth)
  show "((selectors_upto atoms sp k)(sp ! k \<mapsto>
            (case selectors_upto atoms sp k (sp ! k) of None \<Rightarrow> replicate atoms 0 | Some v \<Rightarrow> v)[k := 1])) s
         = selectors_upto atoms sp (Suc k) s"
  proof (cases "s = sp ! k")
    case True
    have "(case selectors_upto atoms sp k (sp ! k) of None \<Rightarrow> replicate atoms 0 | Some v \<Rightarrow> v)
            = map (\<lambda>j. if j < k \<and> sp ! j = sp ! k then 1 else 0) [0..<atoms]"
    proof (cases "sp ! k \<in> set (take k sp)")
      case True
      then show ?thesis by (simp add: selectors_upto_def)
    next
      case False
      then have "\<And>j. j < k \<Longrightarrow> sp ! j \<noteq> sp ! k"
        using k len by (metis in_set_conv_nth length_take min.absorb2 nth_take order_less_le_trans less_imp_le_nat)
      then have "map (\<lambda>j. if j < k \<and> sp ! j = sp ! k then 1 else 0) [0..<atoms] = replicate atoms (0::nat)"
        by (auto intro!: nth_equalityI)
      with False show ?thesis by (simp add: selectors_upto_def)
    qed
    moreover have "(map (\<lambda>j. if j < k \<and> sp ! j = sp ! k then 1 else 0) [0..<atoms])[k := 1::nat]
            = map (\<lambda>j. if j < Suc k \<and> sp ! j = sp ! k then 1 else 0) [0..<atoms]"
      using k by (auto intro!: nth_equalityI simp: nth_list_update less_Suc_eq)
    ultimately show ?thesis using True tk by (simp add: selectors_upto_def)
  next
    case False
    then have "\<And>j. (j < Suc k \<and> sp ! j = s) = (j < k \<and> sp ! j = s)"
      by (auto simp: less_Suc_eq)
    with False tk show ?thesis by (simp add: selectors_upto_def)
  qed
qed

lemma selectors_loop_from:
  assumes "atoms \<le> length sp" "k \<le> atoms"
  shows "species_selectors_loop atoms sp [k..<atoms] (selectors_upto atoms sp k)
           = Inr (selectors_upto atoms sp atoms)"
  using assms(2)
proof (induction "atoms - k" arbitrary: k)
  case 0
  then show ?case by simp
next
  case (Suc d)
  then have k: "k < atoms" by simp
  then have "[k..<atoms] = k # [Suc k..<atoms]" by (simp add: upt_conv_Cons)
  moreover have "k < length sp" using k assms(1) by simp
  moreover have "species_selectors_loop atoms sp [Suc k..<atoms] (selectors_upto atoms sp (Suc k))
           = Inr (selectors_upto atoms sp atoms)"
    using Suc k by (intro Suc.hyps) simp_all
  ultimately show ?case
    by (simp add: Let_def selectors_step [OF k assms(1)] del: One_nat_def)
qed

lemma species_selectors_valid:
  assumes "atoms \<le> length sp"
  shows "species_selectors atoms sp = Inr (selectors_upto atoms sp atoms)"
proof -
  have "selectors_upto atoms sp 0 = Map.empty" by (simp add: selectors_upto_def)
  then show ?thesis
    using selectors_loop_from [OF assms, of 0] by (simp add: species_selectors_def)
qed

lemma neighbor_lists_valid:
  assumes "valid_input atoms coordinates sp"
  shows "neighbor_lists c atoms coordinates sp =
           Inr (species_neighbors
                  (in_cutoff (\<lambda>x. x) (Rcr c) atoms (R_distances_all (\<lambda>x. x) coordinates))
                  (in_cutoff (\<lambda>x. x) (Rca c) atoms (R_distances_all (\<lambda>x. x) coordinates))
                  (selectors_upto atoms sp atoms))"
  using assms by (simp add: neighbor_lists_def valid_input_def species_selectors_valid Let_def)

lemma in_cutoff_row_length: "i < atoms \<Longrightarrow> length (in_cutoff fl Rc atoms R ! i) = atoms"
  by (simp add: in_cutoff_def Let_def)

lemma nonzero_selected_row:
  assumes v: "valid_input atoms coordinates sp" and i: "i < atoms"
  shows "nonzero (map2 (*) (in_cutoff (\<lambda>x. x) Rc atoms (R_distances_all (\<lambda>x. x) coordinates) ! i)
                    (map (\<lambda>j. if j < atoms \<and> sp ! j = s then 1 else 0) [0..<atoms]))
         = species_neighbor_indices Rc atoms coordinates sp i s"
proof -
  let ?row = "map2 (*) (in_cutoff (\<lambda>x. x) Rc atoms (R_distances_all (\<lambda>x. x) coordinates) ! i)
                    (map (\<lambda>j. if j < atoms \<and> sp ! j = s then 1 else 0) [0..<atoms])"
  have c: "list_all (\<lambda>conf. length conf = atoms) coordinates"
    using v by (simp add: valid_input_def)
  have len: "length ?row = atoms" using i by (simp add: in_cutoff_row_length)
  have ex: "\<And>j. (\<exists>n < length coordinates. distance (vsub (coordinates ! n ! j) (coordinates ! n ! i)) \<le> Rc)
          = list_ex (\<lambda>conf. distance (vsub (conf ! j) (conf ! i)) \<le> Rc) coordinates"
    by (simp add: list_ex_length)
  have "\<And>j. j < atoms \<Longrightarrow> (?row ! j \<noteq> 0)
          = (j \<noteq> i \<and> sp ! j = s
              \<and> list_ex (\<lambda>conf. distance (vsub (conf ! j) (conf ! i)) \<le> Rc) coordinates)"
    using i by (auto simp: in_cutoff_row_length in_cutoff_distances [OF c] ex)
  then show ?thesis
    unfolding nonzero_def species_neighbor_indices_def len
    by (intro filter_cong refl) simp
qed

lemma species_neighbors_present:
  assumes v: "valid_input atoms coordinates sp" and i: "i < atoms" and s: "s \<in> set sp"
    and sn: "neighbor_lists c atoms coordinates sp = Inr sn"
  shows "\<exists>nb. sn s = Some nb
           \<and> nonzero (fst nb ! i) = species_neighbor_indices (Rcr c) atoms coordinates sp i s
           \<and> nonzero (snd nb ! i) = species_neighbor_indices (Rca c) atoms coordinates sp i s"
proof -
  have l: "length sp = atoms" using v by (simp add: valid_input_def)
  have sel: "selectors_upto atoms sp atoms s
               = Some (map (\<lambda>j. if j < atoms \<and> sp ! j = s then 1 else 0) [0..<atoms])"
    using s l by (simp add: selectors_upto_def)
  have li: "i < length (in_cutoff (\<lambda>x. x) (Rcr c) atoms (R_distances_all (\<lambda>x. x) coordinates))"
    "i < length (in_cutoff (\<lambda>x. x) (Rca c) atoms (R_distances_all (\<lambda>x. x) coordinates))"
    using i by (simp_all add: in_cutoff_def Let_def)
  show ?thesis
    using sn li
    unfolding neighbor_lists_valid [OF v]
    by (auto simp: species_neighbors_def sel nonzero_selected_row [OF v i])
qed

lemma species_neighbors_absent:
  assumes v: "valid_input atoms coordinates sp" and s: "s \<notin> set sp"
    and sn: "neighbor_lists c atoms coordinates sp = Inr sn"
  shows "sn s = None"
proof -
  have l: "length sp = atoms" using v by (simp add: valid_input_def)
  show "sn s = None"
    using sn s l unfolding neighbor_lists_valid [OF v]
    by (auto simp: species_neighbors_def selectors_upto_def)
qed

lemma species_neighbor_indices_absent:
  assumes v: "valid_input atoms coordinates sp" and s: "s \<notin> set sp"
  shows "species_neighbor_indices Rc atoms coordinates sp i s = []"
proof -
  have l: "length sp = atoms" using v by (simp add: valid_input_def)
  have "\<And>j. j < atoms \<Longrightarrow> sp ! j \<noteq> s" using s l by (metis nth_mem)
  then show "species_neighbor_indices Rc atoms coordinates sp i s = []"
    by (auto simp: species_neighbor_indices_def filter_empty_conv)
qed

lemma radial_block_eq:
  assumes v: "valid_input atoms coordinates sp" and i: "i < atoms"
    and sn: "neighbor_lists c atoms coordinates sp = Inr sn"
  shows "radial_block c coordinates sn i s =
          (if species_neighbor_indices (Rcr c) atoms coordinates sp i s = []
           then Inr (zeros (length coordinates) (per_species_radial_length c))
           else radial_subaev c (center_of coordinates i)
                  (index_select coordinates (species_neighbor_indices (Rcr c) atoms coordinates sp i s)))"
proof (cases "s \<in> set sp")
  case True
  from species_neighbors_present [OF v i True sn] obtain nb where
    "sn s = Some nb" "nonzero (fst nb ! i) = species_neighbor_indices (Rcr c) atoms coordinates sp i s"
    by blast
  then show ?thesis by (simp add: radial_block_def Let_def)
next
  case False
  from species_neighbors_absent [OF v False sn] species_neighbor_indices_absent [OF v False]
  show ?thesis by (simp add: radial_block_def)
qed

lemma product_map:
  "List.product (map f xs) (map g ys) = map (\<lambda>pr. (f (fst pr), g (snd pr))) (List.product xs ys)"
  by (induction xs) (simp_all add: comp_def)

lemma combinations2_map:
  "combinations2 (map f xs) = map (\<lambda>pr. (f (fst pr), f (snd pr))) (combinations2 xs)"
  by (induction xs) (simp_all add: comp_def)

lemma combinations2_empty: "(combinations2 xs = []) = (length xs \<le> 1)"
  by (cases xs rule: combinations2.cases) (auto simp: Suc_le_eq)

lemma product_empty: "(List.product xs ys = []) = (xs = [] \<or> ys = [])"
  by (induction xs) auto

lemma length_combinations2: "length (combinations2 xs) = length xs choose 2"
  by (induction xs) (simp_all add: numeral_2_eq_2)

lemma cartesian_prod_gather:
  "cartesian_prod (index_select coordinates js) (index_select coordinates ks)
     = gather_pairs coordinates (List.product js ks)"
  by (simp add: cartesian_prod_def index_select_def gather_pairs_def zip_map_map
      zip_same_conv_map comp_def product_map)

lemma combinations_gather:
  "combinations (index_select coordinates js) = gather_pairs coordinates (combinations2 js)"
  by (simp add: combinations_def index_select_def gather_pairs_def comp_def combinations2_map
      length_combinations2)

lemma angular_pairs_eq:
  assumes v: "valid_input atoms coordinates sp" and i: "i < atoms"
    and sn: "neighbor_lists c atoms coordinates sp = Inr sn"
  shows "angular_pairs coordinates sn i j k =
          (if species_pair_indices (Rca c) atoms coordinates sp i j k = [] then None
           else Some (gather_pairs coordinates (species_pair_indices (Rca c) atoms coordinates sp i j k)))"
proof -
  let ?N = "species_neighbor_indices (Rca c) atoms coordinates sp i"
  show ?thesis
  proof (cases "j \<in> set sp")
    case jin: True
    from species_neighbors_present [OF v i jin sn] obtain nbj where
      nbj: "sn j = Some nbj" "nonzero (snd nbj ! i) = ?N j" by blast
    show ?thesis
    proof (cases "k \<in> set sp")
      case kin: True
      from species_neighbors_present [OF v i kin sn] obtain nbk where
        nbk: "sn k = Some nbk" "nonzero (snd nbk ! i) = ?N k" by blast
      show ?thesis
        using nbj nbk
        by (auto simp: angular_pairs_def Let_def species_pair_indices_def cartesian_prod_gather
            combinations_gather combinations2_empty product_empty)
    next
      case kout: False
      from species_neighbors_absent [OF v kout sn] species_neighbor_indices_absent [OF v kout]
      have "sn k = None" "?N k = []" by simp_all
      moreover have "j \<noteq> k" using jin kout by auto
      ultimately show ?thesis
        using nbj by (simp add: angular_pairs_def species_pair_indices_def product_empty)
    qed
  next
    case jout: False
    from species_neighbors_absent [OF v jout sn] species_neighbor_indices_absent [OF v jout]
    have "sn j = None" "?N j = []" by simp_all
    then show ?thesis
      by (auto simp: angular_pairs_def species_pair_indices_def)
  qed
qed

subsection \<open>The neighbor relation of a call\<close>

lemma round_half_even_down:
  assumes "of_int m \<le> y" "y < of_int m + 1 / 2"
  shows "round_half_even y = m"
proof -
  have "\<lfloor>y\<rfloor> = m" using assms by (intro floor_unique) auto
  then show ?thesis using assms by (simp add: round_half_even_def Let_def)
qed

lemma floor_log2:
  assumes "2 powi k \<le> x" "x < 2 powi (k + 1)"
  shows "\<lfloor>log 2 x\<rfloor> = k"
proof -
  have pos: "0 < x" using assms(1) by (rule less_le_trans [rotated]) simp
  have a: "(2::real) powr (real_of_int k) = 2 powi k"
    using powr_real_of_int' [of 2 k] by simp
  have b: "(2::real) powr (real_of_int k + 1) = 2 powi (k + 1)"
    using powr_real_of_int' [of 2 "k + 1"] by simp
  show ?thesis using pos assms by (simp add: floor_log_eq_powr_iff a b)
qed

lemma float_round_eval:
  assumes "2 powi k \<le> \<bar>x\<bar>" "\<bar>x\<bar> < 2 powi (k + 1)"
    and "of_int m \<le> x / 2 powi (k - int p + 1)" "x / 2 powi (k - int p + 1) < of_int m + 1 / 2"
  shows "float_round p x = of_int m * 2 powi (k - int p + 1)"
proof -
  have "0 < \<bar>x\<bar>" using assms(1) by (rule less_le_trans [rotated]) simp
  then have nz: "x \<noteq> 0" by simp
  have fl: "\<lfloor>log 2 \<bar>x\<bar>\<rfloor> = k" using assms(1,2) by (rule floor_log2)
  have "round_half_even (x / 2 powi (k - int p + 1)) = m"
    using assms(3,4) by (rule round_half_even_down)
  then show ?thesis using nz by (simp add: float_round_def Let_def fl)
qed

lemma float32_examples:
  "float_round 24 0 = 0" "float_round 24 5 = 5" "float_round 24 25 = 25"
  "float_round 24 (5 + 1 / 2 ^ 30) = 5"
proof -
  show "float_round 24 0 = 0" by (simp add: float_round_def)
  show "float_round 24 5 = 5"
    using float_round_eval [of 2 5 "5 * 2 ^ 21" 24]
    by (simp add: power_int_minus field_simps)
  show "float_round 24 25 = 25"
    using float_round_eval [of 4 25 "25 * 2 ^ 19" 24]
    by (simp add: power_int_minus field_simps)
  show "float_round 24 (5 + 1 / 2 ^ 30) = 5"
    using float_round_eval [of 2 "5 + 1 / 2 ^ 30" "5 * 2 ^ 21" 24]
    by (simp add: power_int_minus field_simps)
qed


lemma self_distance_zero:
  assumes "fl 0 = 0"
  shows "computed_distance fl p p = 0"
  using assms by (simp add: computed_distance_def)

text \<open>
  Claim C5, amended. For the radial and for the angular cutoff, and for every rounding \<open>fl\<close>
  of the arithmetic, the relation built from the coordinates holds between the atoms \<open>i\<close> and
  \<open>j\<close> exactly when \<open>i \<noteq> j\<close> and, in at least one conformation of the batch, their distance
  as the arithmetic computes it is at most the cutoff as the arithmetic represents it. No atom
  is its own neighbor, although its distance to itself is \<open>0\<close>. In exact real arithmetic, with
  which the call is modelled, the computed distance is the Euclidean distance. The entries of
  \<open>R_distances\<close> are these computed distances.
\<close>

theorem neighbor_relation:
  "(list_all (\<lambda>conf. length conf = atoms) coordinates \<and> i < atoms \<and> j < atoms \<longrightarrow>
     ((in_cutoff fl (Rcr c) atoms (R_distances_all fl coordinates) ! i ! j \<noteq> 0)
        = (i \<noteq> j \<and> (\<exists>n < length coordinates.
              computed_distance fl (coordinates ! n ! i) (coordinates ! n ! j) \<le> fl (Rcr c))))
   \<and> ((in_cutoff fl (Rca c) atoms (R_distances_all fl coordinates) ! i ! j \<noteq> 0)
        = (i \<noteq> j \<and> (\<exists>n < length coordinates.
              computed_distance fl (coordinates ! n ! i) (coordinates ! n ! j) \<le> fl (Rca c))))
   \<and> in_cutoff fl (Rcr c) atoms (R_distances_all fl coordinates) ! i ! i = 0
   \<and> in_cutoff fl (Rca c) atoms (R_distances_all fl coordinates) ! i ! i = 0
   \<and> (fl 0 = 0 \<longrightarrow>
         (\<forall>n < length coordinates. R_distances_all fl coordinates ! n ! i ! i = 0)))
   \<and> computed_distance (\<lambda>x. x) p q
        = sqrt ((fst q - fst p)\<^sup>2 + (fst (snd q) - fst (snd p))\<^sup>2 + (snd (snd q) - snd (snd p))\<^sup>2)
   \<and> (valid_input atoms coordinates sp \<longrightarrow>
        (\<exists>selectors. neighbor_lists c atoms coordinates sp
           = Inr (species_neighbors
                    (in_cutoff (\<lambda>x. x) (Rcr c) atoms (R_distances_all (\<lambda>x. x) coordinates))
                    (in_cutoff (\<lambda>x. x) (Rca c) atoms (R_distances_all (\<lambda>x. x) coordinates))
                    selectors)))
   \<and> (k < length coordinates \<and> i < length (coordinates ! k) \<and> j < length (coordinates ! k) \<longrightarrow>
        R_distances_all fl coordinates ! k ! i ! j
          = computed_distance fl (coordinates ! k ! i) (coordinates ! k ! j))"
proof (intro impI conjI)
  assume "k < length coordinates \<and> i < length (coordinates ! k) \<and> j < length (coordinates ! k)"
  then show "R_distances_all fl coordinates ! k ! i ! j
          = computed_distance fl (coordinates ! k ! i) (coordinates ! k ! j)"
    by (cases "coordinates ! k ! i"; cases "coordinates ! k ! j")
       (simp add: R_distances_all_def Let_def vsub_def computed_distance_def)
next
  show "computed_distance (\<lambda>x. x) p q
        = sqrt ((fst q - fst p)\<^sup>2 + (fst (snd q) - fst (snd p))\<^sup>2 + (snd (snd q) - snd (snd p))\<^sup>2)"
    by (simp add: computed_distance_def)
next
  assume "valid_input atoms coordinates sp"
  from neighbor_lists_valid [OF this]
  show "\<exists>selectors. neighbor_lists c atoms coordinates sp
           = Inr (species_neighbors
                    (in_cutoff (\<lambda>x. x) (Rcr c) atoms (R_distances_all (\<lambda>x. x) coordinates))
                    (in_cutoff (\<lambda>x. x) (Rca c) atoms (R_distances_all (\<lambda>x. x) coordinates))
                    selectors)"
    by blast
next
  assume h: "list_all (\<lambda>conf. length conf = atoms) coordinates \<and> i < atoms \<and> j < atoms"
  then have v: "list_all (\<lambda>conf. length conf = atoms) coordinates" and i: "i < atoms" and j: "j < atoms"
    by simp_all
  show "(in_cutoff fl (Rcr c) atoms (R_distances_all fl coordinates) ! i ! j \<noteq> 0)
        = (i \<noteq> j \<and> (\<exists>n < length coordinates.
              computed_distance fl (coordinates ! n ! i) (coordinates ! n ! j) \<le> fl (Rcr c)))"
    using v i j by (simp add: in_cutoff_computed)
  show "(in_cutoff fl (Rca c) atoms (R_distances_all fl coordinates) ! i ! j \<noteq> 0)
        = (i \<noteq> j \<and> (\<exists>n < length coordinates.
              computed_distance fl (coordinates ! n ! i) (coordinates ! n ! j) \<le> fl (Rca c)))"
    using v i j by (simp add: in_cutoff_computed)
  show "in_cutoff fl (Rcr c) atoms (R_distances_all fl coordinates) ! i ! i = 0"
    using i by (rule in_cutoff_diag)
  show "in_cutoff fl (Rca c) atoms (R_distances_all fl coordinates) ! i ! i = 0"
    using i by (rule in_cutoff_diag)
  assume z: "fl 0 = 0"
  show "\<forall>n < length coordinates. R_distances_all fl coordinates ! n ! i ! i = 0"
  proof (intro allI impI)
    fix n assume n: "n < length coordinates"
    then have "length (coordinates ! n) = atoms" using v by (simp add: list_all_length)
    with n i show "R_distances_all fl coordinates ! n ! i ! i = 0"
      by (simp add: R_distances_all_nth self_distance_zero [of fl, OF z])
  qed
qed

lemma computed_distance_axis:
  "computed_distance (\<lambda>x. x) (x, y, z) (x, y, w) = \<bar>w - z\<bar>"
  by (simp add: computed_distance_def)

theorem neighbor_relation_witness:
  "in_cutoff (\<lambda>x. x) (Rcr scenario_A) 3
      (R_distances_all (\<lambda>x. x) [[(1, 1, 1), (1, 1, 2), (1, 1, 20)], [(1, 1, 1), (1, 1, 11), (1, 1, 30)]])
      ! 0 ! 1 \<noteq> 0
   \<and> in_cutoff (\<lambda>x. x) (Rcr scenario_A) 3
      (R_distances_all (\<lambda>x. x) [[(1, 1, 1), (1, 1, 2), (1, 1, 20)], [(1, 1, 1), (1, 1, 11), (1, 1, 30)]])
      ! 0 ! 2 = 0
   \<and> in_cutoff (\<lambda>x. x) (Rcr scenario_A) 3
      (R_distances_all (\<lambda>x. x) [[(1, 1, 1), (1, 1, 2), (1, 1, 20)], [(1, 1, 1), (1, 1, 11), (1, 1, 30)]])
      ! 0 ! 0 = 0"
proof -
  let ?X = "[[(1, 1, 1), (1, 1, 2), (1, 1, 20)], [(1, 1, 1), (1, 1, 11), (1, 1, 30)]] :: point list list"
  have h1: "list_all (\<lambda>conf. length conf = 3) ?X \<and> (0::nat) < 3 \<and> (1::nat) < 3" by simp
  have h2: "list_all (\<lambda>conf. length conf = 3) ?X \<and> (0::nat) < 3 \<and> (2::nat) < 3" by simp
  have "computed_distance (\<lambda>x. x) (?X ! 0 ! 0) (?X ! 0 ! 1) \<le> Rcr scenario_A"
    by (simp add: scenario_A_def computed_distance_axis)
  then have e: "(0::nat) \<noteq> 1 \<and> (\<exists>n < length ?X.
       computed_distance (\<lambda>x. x) (?X ! n ! 0) (?X ! n ! 1) \<le> Rcr scenario_A)"
    by (intro conjI exI [of _ 0]) simp_all
  have far: "\<not> (\<exists>n < length ?X.
       computed_distance (\<lambda>x. x) (?X ! n ! 0) (?X ! n ! 2) \<le> Rcr scenario_A)"
  proof
    assume "\<exists>n < length ?X.
       computed_distance (\<lambda>x. x) (?X ! n ! 0) (?X ! n ! 2) \<le> Rcr scenario_A"
    then obtain n where n: "n < length ?X"
      and le: "computed_distance (\<lambda>x. x) (?X ! n ! 0) (?X ! n ! 2) \<le> Rcr scenario_A"
      by blast
    from n have "n = 0 \<or> n = 1" by auto
    then show False using le by (auto simp: scenario_A_def computed_distance_axis)
  qed
  from neighbor_relation [of 3 ?X 0 1 "\<lambda>x. x" scenario_A] h1 e
  have a: "in_cutoff (\<lambda>x. x) (Rcr scenario_A) 3 (R_distances_all (\<lambda>x. x) ?X) ! 0 ! 1 \<noteq> 0"
    and d: "in_cutoff (\<lambda>x. x) (Rcr scenario_A) 3 (R_distances_all (\<lambda>x. x) ?X) ! 0 ! 0 = 0"
    by blast+
  from neighbor_relation [of 3 ?X 0 2 "\<lambda>x. x" scenario_A] h2 far
  have b: "in_cutoff (\<lambda>x. x) (Rcr scenario_A) 3 (R_distances_all (\<lambda>x. x) ?X) ! 0 ! 2 = 0"
    by blast
  from a b d show ?thesis by blast
qed

lemma sqrt_twenty_five: "sqrt 25 = 5"
  using real_sqrt_abs [of 5] by simp

lemma float32_distance:
  "computed_distance (float_round 24) (- (1 / 2 ^ 30), 0, 0) (5, 0, 0) = 5"
proof -
  have a: "float_round 24 (5 - - (1 / 2 ^ 30)) = 5" using float32_examples(4) by simp
  have b: "float_round 24 (0 - 0) = 0" by (simp add: float32_examples)
  have c: "float_round 24 (5\<^sup>2) = 25" "float_round 24 (0\<^sup>2) = 0"
    by (simp_all add: float32_examples)
  have d: "float_round 24 (25 + 0) = 25" by (simp add: float32_examples)
  have e: "float_round 24 (sqrt 25) = 5" by (simp add: sqrt_twenty_five float32_examples)
  show ?thesis unfolding computed_distance_def fst_conv snd_conv a b c d e by (rule refl)
qed

text \<open>
  Claim C5 as stated fails in \<open>float32\<close> arithmetic: for two atoms on the first axis at
  \<open>-2^-30\<close> and \<open>5\<close> and the cutoff \<open>5\<close>, the difference \<open>5 + 2^-30\<close> of the
  coordinates is rounded to \<open>5\<close>, so the atoms are neighbors, and their Euclidean distance
  is larger than the cutoff.
\<close>

theorem neighbor_relation_counterexample:
  "in_cutoff (float_round 24) (Rcr scenario_A) 2
      (R_distances_all (float_round 24) [[(- (1 / 2 ^ 30), 0, 0), (5, 0, 0)]]) ! 0 ! 1 \<noteq> 0
   \<and> Rcr scenario_A < euclid (- (1 / 2 ^ 30), 0, 0) (5, 0, 0)"
proof -
  let ?X = "[[(- (1 / 2 ^ 30), 0, 0), (5, 0, 0)]] :: point list list"
  have v: "list_all (\<lambda>conf. length conf = 2) ?X" by simp
  have x: "?X ! 0 ! 0 = (- (1 / 2 ^ 30), 0, 0)" "?X ! 0 ! 1 = (5, 0, 0)" by simp_all
  have r: "float_round 24 (Rcr scenario_A) = 5" by (simp add: scenario_A_def float32_examples)
  have "computed_distance (float_round 24) (?X ! 0 ! 0) (?X ! 0 ! 1) \<le> float_round 24 (Rcr scenario_A)"
    unfolding x float32_distance r by simp
  then have "\<exists>n < length ?X.
      computed_distance (float_round 24) (?X ! n ! 0) (?X ! n ! 1) \<le> float_round 24 (Rcr scenario_A)"
    by (intro exI [of _ 0] conjI) simp_all
  moreover have "in_cutoff (float_round 24) (Rcr scenario_A) 2 (R_distances_all (float_round 24) ?X) ! 0 ! 1
      = (if (0::nat) \<noteq> 1 \<and> (\<exists>n < length ?X.
            computed_distance (float_round 24) (?X ! n ! 0) (?X ! n ! 1) \<le> float_round 24 (Rcr scenario_A))
         then 1 else 0)"
    by (rule in_cutoff_computed [OF v]) simp_all
  ultimately have "in_cutoff (float_round 24) (Rcr scenario_A) 2
      (R_distances_all (float_round 24) ?X) ! 0 ! 1 = 1"
    by (simp only: if_True simp_thms zero_neq_one)
  moreover have "Rcr scenario_A < euclid (- (1 / 2 ^ 30), 0, 0) (5, 0, 0)"
    by (simp add: scenario_A_def euclid_def)
  ultimately show ?thesis by simp
qed

subsection \<open>The call in closed form\<close>

lemma collect_map_Inr:
  "(\<And>x. x \<in> set xs \<Longrightarrow> f x = Inr (g x)) \<Longrightarrow> collect (map f xs) = Inr (map g xs)"
  by (induction xs) auto

lemma map_conformations:
  "map (\<lambda>conf. F conf) coordinates = map (\<lambda>n. F (coordinates ! n)) [0..<length coordinates]"
  by (rule nth_equalityI) simp_all

lemma concat_grid_zero:
  "concat (map (\<lambda>e. map (\<lambda>s. Some 0) ss) es) = replicate (length es * length ss) (Some (0::real))"
  by (induction es) (simp_all add: replicate_add map_replicate_const)

lemma spec_radial_block_empty:
  "species_neighbor_indices (Rcr c) atoms coordinates sp i s = [] \<Longrightarrow>
   spec_radial_block c atoms coordinates sp n i s = replicate (per_species_radial_length c) (Some 0)"
  by (simp add: spec_radial_block_def concat_grid_zero per_species_radial_length_def)

lemma length_spec_radial_block [simp]:
  "length (spec_radial_block c atoms coordinates sp n i s) = per_species_radial_length c"
  by (simp add: spec_radial_block_def per_species_radial_length_def)

lemma radial_block_closed:
  assumes v: "valid_input atoms coordinates sp" and i: "i < atoms"
    and sn: "neighbor_lists c atoms coordinates sp = Inr sn"
    and pos: "0 < per_species_radial_length c"
  shows "radial_block c coordinates sn i s =
           Inr (map (\<lambda>n. spec_radial_block c atoms coordinates sp n i s) [0..<length coordinates])"
proof (cases "species_neighbor_indices (Rcr c) atoms coordinates sp i s = []")
  case True
  then show ?thesis
    unfolding radial_block_eq [OF v i sn]
    by (auto simp: zeros_def spec_radial_block_empty intro!: nth_equalityI)
next
  case False
  let ?idx = "species_neighbor_indices (Rcr c) atoms coordinates sp i s"
  let ?F = "\<lambda>cn nbs. concat (map (\<lambda>eta. map (\<lambda>sh.
                  sum_vals (map (\<lambda>nb. radial_term (Rcr c) eta sh (distance (vsub nb cn))) nbs))
                  (ShfR c)) (EtaR c))"
  have N: "0 < fst (index_select coordinates ?idx)"
    using False by (simp add: index_select_def)
  have "map2 ?F (center_of coordinates i) (snd (index_select coordinates ?idx))
          = map (\<lambda>conf. ?F (conf ! i) (map (\<lambda>j. conf ! j) ?idx)) coordinates"
    by (simp add: center_of_def index_select_def zip_map_map zip_same_conv_map comp_def)
  also have "\<dots> = map (\<lambda>n. ?F (coordinates ! n ! i) (map (\<lambda>j. coordinates ! n ! j) ?idx))
                      [0..<length coordinates]"
    by (rule map_conformations)
  also have "\<dots> = map (\<lambda>n. spec_radial_block c atoms coordinates sp n i s) [0..<length coordinates]"
    by (simp add: spec_radial_block_def radial_term_spec comp_def)
  finally show ?thesis
    using False unfolding radial_block_eq [OF v i sn]
    by (simp add: radial_subaev_rows [OF pos N])
qed

lemma cat_dim1_map:
  "xs \<noteq> [] \<Longrightarrow>
   cat_dim1 B (map (\<lambda>s. map (\<lambda>n. F n s) [0..<B]) xs) = Inr (map (\<lambda>n. concat (map (F n) xs)) [0..<B])"
  by (auto simp: cat_dim1_def comp_def)

lemma stack_dim1_map:
  "xs \<noteq> [] \<Longrightarrow>
   stack_dim1 B (map (\<lambda>i. map (\<lambda>n. F n i) [0..<B]) xs) = Inr (map (\<lambda>n. map (F n) xs) [0..<B])"
  by (auto simp: stack_dim1_def comp_def)

lemma radial_aev_closed:
  assumes v: "valid_input atoms coordinates sp" and i: "i < atoms"
    and sn: "neighbor_lists c atoms coordinates sp = Inr sn"
    and pos: "0 < per_species_radial_length c" and voc: "vocabulary c \<noteq> []"
  shows "radial_aev c coordinates sn i =
           Inr (map (\<lambda>n. concat (map (spec_radial_block c atoms coordinates sp n i) (vocabulary c)))
                  [0..<length coordinates])"
proof -
  have "collect (map (radial_block c coordinates sn i) (vocabulary c))
          = Inr (map (\<lambda>s. map (\<lambda>n. spec_radial_block c atoms coordinates sp n i s)
                             [0..<length coordinates]) (vocabulary c))"
    by (rule collect_map_Inr) (rule radial_block_closed [OF v i sn pos])
  then show ?thesis
    by (simp add: radial_aev_def cat_dim1_map [OF voc])
qed

lemma flat4_zero:
  "concat (map (\<lambda>h. concat (map concat h))
      (map (\<lambda>eta. map (\<lambda>zeta. map (\<lambda>rs. map (\<lambda>sh. Some (0::real)) ts) as) zs) es))
   = replicate (length es * length zs * length as * length ts) (Some 0)"
proof -
  have "\<forall>y \<in> set (concat (map (\<lambda>h. concat (map concat h))
      (map (\<lambda>eta. map (\<lambda>zeta. map (\<lambda>rs. map (\<lambda>sh. Some (0::real)) ts) as) zs) es))). y = Some 0"
    by auto
  then have "replicate (length (concat (map (\<lambda>h. concat (map concat h))
      (map (\<lambda>eta. map (\<lambda>zeta. map (\<lambda>rs. map (\<lambda>sh. Some (0::real)) ts) as) zs) es)))) (Some 0)
     = concat (map (\<lambda>h. concat (map concat h))
      (map (\<lambda>eta. map (\<lambda>zeta. map (\<lambda>rs. map (\<lambda>sh. Some (0::real)) ts) as) zs) es))"
    by (rule replicate_length_same)
  then show ?thesis by (simp only: length_flat4)
qed

lemma spec_angular_block_empty:
  "species_pair_indices (Rca c) atoms coordinates sp i (fst jk) (snd jk) = [] \<Longrightarrow>
   spec_angular_block c atoms coordinates sp n i jk = replicate (per_species_angular_length c) (Some 0)"
  by (simp only: spec_angular_block_def Let_def per_species_angular_length_def list.map(1)
      sum_vals_simps(1) flat4_zero)

lemma length_spec_angular_block [simp]:
  "length (spec_angular_block c atoms coordinates sp n i jk) = per_species_angular_length c"
  unfolding spec_angular_block_def Let_def per_species_angular_length_def
  by (rule length_flat4)

lemma angular_block_closed:
  assumes v: "valid_input atoms coordinates sp" and i: "i < atoms"
    and sn: "neighbor_lists c atoms coordinates sp = Inr sn"
    and pos: "0 < per_species_angular_length c"
  shows "angular_block c coordinates sn i jk =
           Inr (map (\<lambda>n. spec_angular_block c atoms coordinates sp n i jk) [0..<length coordinates])"
proof (cases "species_pair_indices (Rca c) atoms coordinates sp i (fst jk) (snd jk) = []")
  case True
  then show ?thesis
    unfolding angular_block_def angular_pairs_eq [OF v i sn]
    by (auto simp: zeros_def spec_angular_block_empty intro!: nth_equalityI)
next
  case False
  let ?idx = "species_pair_indices (Rca c) atoms coordinates sp i (fst jk) (snd jk)"
  let ?F = "\<lambda>cn prs. concat (map (\<lambda>h. concat (map concat h))
                  (map (\<lambda>eta. map (\<lambda>zeta. map (\<lambda>rs. map (\<lambda>sh.
                     sum_vals (map (spec_angular_term c eta zeta rs sh cn) prs))
                     (ShfZ c)) (ShfA c)) (Zeta c)) (EtaA c)))"
  have N: "0 < fst (gather_pairs coordinates ?idx)"
    using False by (simp add: gather_pairs_def)
  have "map2 ?F (center_of coordinates i) (snd (gather_pairs coordinates ?idx))
          = map (\<lambda>conf. ?F (conf ! i) (map (\<lambda>pr. (conf ! fst pr, conf ! snd pr)) ?idx)) coordinates"
    by (simp add: center_of_def gather_pairs_def zip_map_map zip_same_conv_map comp_def)
  also have "\<dots> = map (\<lambda>n. ?F (coordinates ! n ! i)
                            (map (\<lambda>pr. (coordinates ! n ! fst pr, coordinates ! n ! snd pr)) ?idx))
                      [0..<length coordinates]"
    by (rule map_conformations)
  also have "\<dots> = map (\<lambda>n. spec_angular_block c atoms coordinates sp n i jk) [0..<length coordinates]"
    by (simp add: spec_angular_block_def)
  finally show ?thesis
    using False unfolding angular_block_def angular_pairs_eq [OF v i sn]
    by (simp add: angular_subaev_rows [OF pos N])
qed

lemma angular_aev_closed:
  assumes v: "valid_input atoms coordinates sp" and i: "i < atoms"
    and sn: "neighbor_lists c atoms coordinates sp = Inr sn"
    and pos: "0 < per_species_angular_length c" and voc: "vocabulary c \<noteq> []"
  shows "angular_aev c coordinates sn i =
           Inr (map (\<lambda>n. concat (map (spec_angular_block c atoms coordinates sp n i)
                                   (combinations_with_replacement2 (vocabulary c))))
                  [0..<length coordinates])"
proof -
  have ne: "combinations_with_replacement2 (vocabulary c) \<noteq> []"
    using voc by (cases "vocabulary c") simp_all
  have "collect (map (angular_block c coordinates sn i) (combinations_with_replacement2 (vocabulary c)))
          = Inr (map (\<lambda>jk. map (\<lambda>n. spec_angular_block c atoms coordinates sp n i jk)
                             [0..<length coordinates]) (combinations_with_replacement2 (vocabulary c)))"
    by (rule collect_map_Inr) (rule angular_block_closed [OF v i sn pos])
  then show ?thesis
    by (simp add: angular_aev_def cat_dim1_map [OF ne])
qed

lemma call_closed:
  assumes v: "valid_input atoms coordinates sp" and a: "0 < atoms"
    and voc: "vocabulary c \<noteq> []"
    and pr: "0 < per_species_radial_length c" and pa: "0 < per_species_angular_length c"
  shows "call c atoms coordinates sp =
           Inr (map (\<lambda>n. map (\<lambda>i. concat (map (spec_radial_block c atoms coordinates sp n i)
                                (vocabulary c))) [0..<atoms]) [0..<length coordinates],
                map (\<lambda>n. map (\<lambda>i. concat (map (spec_angular_block c atoms coordinates sp n i)
                                (combinations_with_replacement2 (vocabulary c)))) [0..<atoms])
                  [0..<length coordinates])"
proof -
  obtain sn where sn: "neighbor_lists c atoms coordinates sp = Inr sn"
    using neighbor_lists_valid [OF v] by blast
  have ne: "[0..<atoms] \<noteq> []" using a by simp
  have r: "collect (map (radial_aev c coordinates sn) [0..<atoms])
          = Inr (map (\<lambda>i. map (\<lambda>n. concat (map (spec_radial_block c atoms coordinates sp n i)
                                (vocabulary c))) [0..<length coordinates]) [0..<atoms])"
    by (rule collect_map_Inr) (simp add: radial_aev_closed [OF v _ sn pr voc])
  have g: "collect (map (angular_aev c coordinates sn) [0..<atoms])
          = Inr (map (\<lambda>i. map (\<lambda>n. concat (map (spec_angular_block c atoms coordinates sp n i)
                                (combinations_with_replacement2 (vocabulary c))))
                                [0..<length coordinates]) [0..<atoms])"
    by (rule collect_map_Inr) (simp add: angular_aev_closed [OF v _ sn pa voc])
  show ?thesis
    by (simp only: call_def Let_def sn sum.case r g stack_dim1_map [OF ne])
qed

lemma call_InrD:
  assumes "call c atoms coordinates sp = Inr (rad, ang)"
  obtains sn radial_rows angular_rows where
    "neighbor_lists c atoms coordinates sp = Inr sn"
    "collect (map (radial_aev c coordinates sn) [0..<atoms]) = Inr radial_rows"
    "stack_dim1 (length coordinates) radial_rows = Inr rad"
    "collect (map (angular_aev c coordinates sn) [0..<atoms]) = Inr angular_rows"
    "stack_dim1 (length coordinates) angular_rows = Inr ang"
  using assms by (auto simp: call_def Let_def split: sum.splits)

lemma collect_Inr: "collect rs = Inr ys \<Longrightarrow> rs = map Inr ys"
proof (induction rs arbitrary: ys)
  case Nil
  then show ?case by simp
next
  case (Cons r rs)
  then show ?case by (auto split: sum.splits)
qed

lemma collect_map_InrD:
  assumes "collect (map f xs) = Inr ys"
  shows "length ys = length xs" and "\<And>k. k < length xs \<Longrightarrow> f (xs ! k) = Inr (ys ! k)"
proof -
  from collect_Inr [OF assms] have e: "map f xs = map Inr ys" .
  then show l: "length ys = length xs" by (metis length_map)
  fix k assume "k < length xs"
  with e l show "f (xs ! k) = Inr (ys ! k)" by (metis nth_map)
qed

lemma view_rows_Inr_pos: "view_rows L flat = Inr out \<Longrightarrow> 0 < L"
  by (auto simp: view_rows_def split: if_splits)

lemma radial_subaev_Inr_pos:
  "radial_subaev c center neighbors = Inr out \<Longrightarrow>
   0 < per_species_radial_length c \<and> 0 < fst neighbors"
  unfolding radial_subaev_def Let_def by (auto split: if_splits dest: view_rows_Inr_pos)

lemma angular_subaev_Inr_pos:
  "angular_subaev c center neighbors = Inr out \<Longrightarrow>
   0 < per_species_angular_length c \<and> 0 < fst neighbors"
  unfolding angular_subaev_def Let_def by (auto split: if_splits dest: view_rows_Inr_pos)

lemma radial_block_returned:
  assumes v: "valid_input atoms coordinates sp" and i: "i < atoms"
    and sn: "neighbor_lists c atoms coordinates sp = Inr sn"
    and r: "radial_block c coordinates sn i s = Inr blk"
  shows "blk = map (\<lambda>n. spec_radial_block c atoms coordinates sp n i s) [0..<length coordinates]"
proof (cases "species_neighbor_indices (Rcr c) atoms coordinates sp i s = []")
  case True
  with r show ?thesis
    unfolding radial_block_eq [OF v i sn]
    by (auto simp: zeros_def spec_radial_block_empty intro!: nth_equalityI)
next
  case False
  with r have "0 < per_species_radial_length c"
    unfolding radial_block_eq [OF v i sn] by (auto dest: radial_subaev_Inr_pos)
  from radial_block_closed [OF v i sn this] r show ?thesis by simp
qed

lemma angular_block_returned:
  assumes v: "valid_input atoms coordinates sp" and i: "i < atoms"
    and sn: "neighbor_lists c atoms coordinates sp = Inr sn"
    and r: "angular_block c coordinates sn i jk = Inr blk"
  shows "blk = map (\<lambda>n. spec_angular_block c atoms coordinates sp n i jk) [0..<length coordinates]"
proof (cases "species_pair_indices (Rca c) atoms coordinates sp i (fst jk) (snd jk) = []")
  case True
  with r show ?thesis
    unfolding angular_block_def angular_pairs_eq [OF v i sn]
    by (auto simp: zeros_def spec_angular_block_empty intro!: nth_equalityI)
next
  case False
  with r have "0 < per_species_angular_length c"
    unfolding angular_block_def angular_pairs_eq [OF v i sn]
    by (auto dest: angular_subaev_Inr_pos)
  from angular_block_closed [OF v i sn this] r show ?thesis by simp
qed

lemma blocks_returned:
  assumes c: "collect (map f xs) = Inr blocks"
    and f: "\<And>x blk. f x = Inr blk \<Longrightarrow> blk = map (\<lambda>n. G n x) [0..<B]"
    and cat: "cat_dim1 B blocks = Inr row"
  shows "row = map (\<lambda>n. concat (map (G n) xs)) [0..<B]"
proof -
  note d = collect_map_InrD [OF c]
  have "blocks = map (\<lambda>x. map (\<lambda>n. G n x) [0..<B]) xs"
  proof (rule nth_equalityI)
    show "length blocks = length (map (\<lambda>x. map (\<lambda>n. G n x) [0..<B]) xs)" using d(1) by simp
    fix k assume "k < length blocks"
    then have k: "k < length xs" using d(1) by simp
    from f [OF d(2) [OF k]] show "blocks ! k = map (\<lambda>x. map (\<lambda>n. G n x) [0..<B]) xs ! k"
      using k by simp
  qed
  moreover from cat have "blocks \<noteq> []" by (auto simp: cat_dim1_def split: if_splits)
  ultimately have "xs \<noteq> []" by auto
  from cat show ?thesis
    unfolding \<open>blocks = map (\<lambda>x. map (\<lambda>n. G n x) [0..<B]) xs\<close> cat_dim1_map [OF \<open>xs \<noteq> []\<close>]
    by simp
qed

lemma radial_aev_returned:
  assumes v: "valid_input atoms coordinates sp" and i: "i < atoms"
    and sn: "neighbor_lists c atoms coordinates sp = Inr sn"
    and r: "radial_aev c coordinates sn i = Inr row"
  shows "row = map (\<lambda>n. concat (map (spec_radial_block c atoms coordinates sp n i) (vocabulary c)))
                 [0..<length coordinates]"
proof -
  from r obtain blocks where
    c: "collect (map (radial_block c coordinates sn i) (vocabulary c)) = Inr blocks"
    and cat: "cat_dim1 (length coordinates) blocks = Inr row"
    by (auto simp: radial_aev_def split: sum.splits)
  show ?thesis
    by (rule blocks_returned [OF c _ cat]) (rule radial_block_returned [OF v i sn])
qed

lemma angular_aev_returned:
  assumes v: "valid_input atoms coordinates sp" and i: "i < atoms"
    and sn: "neighbor_lists c atoms coordinates sp = Inr sn"
    and r: "angular_aev c coordinates sn i = Inr row"
  shows "row = map (\<lambda>n. concat (map (spec_angular_block c atoms coordinates sp n i)
                                  (combinations_with_replacement2 (vocabulary c))))
                 [0..<length coordinates]"
proof -
  from r obtain blocks where
    c: "collect (map (angular_block c coordinates sn i)
                  (combinations_with_replacement2 (vocabulary c))) = Inr blocks"
    and cat: "cat_dim1 (length coordinates) blocks = Inr row"
    by (auto simp: angular_aev_def split: sum.splits)
  show ?thesis
    by (rule blocks_returned [OF c _ cat]) (rule angular_block_returned [OF v i sn])
qed

lemma rows_returned:
  assumes c: "collect (map f [0..<atoms]) = Inr rows"
    and f: "\<And>i row. i < atoms \<Longrightarrow> f i = Inr row \<Longrightarrow> row = map (\<lambda>n. G n i) [0..<B]"
    and st: "stack_dim1 B rows = Inr out"
  shows "out = map (\<lambda>n. map (G n) [0..<atoms]) [0..<B]"
proof -
  note d = collect_map_InrD [OF c]
  have e: "rows = map (\<lambda>i. map (\<lambda>n. G n i) [0..<B]) [0..<atoms]"
  proof (rule nth_equalityI)
    show "length rows = length (map (\<lambda>i. map (\<lambda>n. G n i) [0..<B]) [0..<atoms])"
      using d(1) by simp
    fix k assume "k < length rows"
    then have k: "k < atoms" using d(1) by simp
    then have "f k = Inr (rows ! k)" using d(2) [of k] by simp
    from f [OF k this] show "rows ! k = map (\<lambda>i. map (\<lambda>n. G n i) [0..<B]) [0..<atoms] ! k"
      using k by simp
  qed
  from st have "rows \<noteq> []" by (auto simp: stack_dim1_def split: if_splits)
  with e have ne: "[0..<atoms] \<noteq> []" by auto
  from st show ?thesis unfolding e stack_dim1_map [OF ne] by simp
qed

lemma call_returned:
  assumes v: "valid_input atoms coordinates sp"
    and call: "call c atoms coordinates sp = Inr (rad, ang)"
  shows "rad = map (\<lambda>n. map (\<lambda>i. concat (map (spec_radial_block c atoms coordinates sp n i)
                                (vocabulary c))) [0..<atoms]) [0..<length coordinates]"
    and "ang = map (\<lambda>n. map (\<lambda>i. concat (map (spec_angular_block c atoms coordinates sp n i)
                                (combinations_with_replacement2 (vocabulary c)))) [0..<atoms])
                  [0..<length coordinates]"
proof -
  from call obtain sn radial_rows angular_rows where
    sn: "neighbor_lists c atoms coordinates sp = Inr sn"
    and rr: "collect (map (radial_aev c coordinates sn) [0..<atoms]) = Inr radial_rows"
    and rs: "stack_dim1 (length coordinates) radial_rows = Inr rad"
    and ar: "collect (map (angular_aev c coordinates sn) [0..<atoms]) = Inr angular_rows"
    and as: "stack_dim1 (length coordinates) angular_rows = Inr ang"
    by (rule call_InrD)
  show "rad = map (\<lambda>n. map (\<lambda>i. concat (map (spec_radial_block c atoms coordinates sp n i)
                                (vocabulary c))) [0..<atoms]) [0..<length coordinates]"
    by (rule rows_returned [OF rr _ rs]) (rule radial_aev_returned [OF v _ sn])
  show "ang = map (\<lambda>n. map (\<lambda>i. concat (map (spec_angular_block c atoms coordinates sp n i)
                                (combinations_with_replacement2 (vocabulary c)))) [0..<atoms])
                  [0..<length coordinates]"
    by (rule rows_returned [OF ar _ as]) (rule angular_aev_returned [OF v _ sn])
qed

lemma length_cwr2: "length (combinations_with_replacement2 xs) = (length xs + 1) choose 2"
  by (induction xs) (simp_all add: numeral_2_eq_2)

lemma take_drop_concat_map:
  assumes "\<And>x. x \<in> set xs \<Longrightarrow> length (G x) = m" "p < length xs"
  shows "take m (drop (p * m) (concat (map G xs))) = G (xs ! p)"
  using assms
proof (induction xs arbitrary: p)
  case Nil
  then show ?case by simp
next
  case (Cons x xs)
  show ?case
  proof (cases p)
    case 0
    with Cons.prems show ?thesis by simp
  next
    case (Suc q)
    with Cons show ?thesis by simp
  qed
qed

subsection \<open>Output shapes\<close>

lemma length_concat_blocks:
  "(\<And>x. x \<in> set xs \<Longrightarrow> length (G x) = m) \<Longrightarrow> length (concat (map G xs)) = length xs * m"
  by (induction xs) auto

text \<open>
  Claim C1, amended. For every input of \<open>B\<close> conformations of \<open>A\<close> atoms with one species label
  per atom, for a vocabulary of any size \<open>S\<close> and constant sets of any sizes, whenever the call
  returns it returns a radial tensor of shape \<open>(B, A, S * |EtaR| * |ShfR|)\<close> and an angular
  tensor of shape \<open>(B, A, C(S + 1, 2) * |EtaA| * |Zeta| * |ShfA| * |ShfZ|)\<close>, whatever the
  neighbors of each atom are; and it does return when there is at least one atom and the
  vocabulary and the constant sets are not empty.
\<close>

theorem call_output_shapes:
  "valid_input atoms coordinates sp \<longrightarrow>
   (0 < atoms \<and> vocabulary c \<noteq> [] \<and> EtaR c \<noteq> [] \<and> ShfR c \<noteq> []
      \<and> EtaA c \<noteq> [] \<and> Zeta c \<noteq> [] \<and> ShfA c \<noteq> [] \<and> ShfZ c \<noteq> [] \<longrightarrow>
    (\<exists>rad ang. call c atoms coordinates sp = Inr (rad, ang)))
   \<and> (\<forall>rad ang. call c atoms coordinates sp = Inr (rad, ang) \<longrightarrow>
        length rad = length coordinates
        \<and> (\<forall>row \<in> set rad. length row = atoms
              \<and> (\<forall>v \<in> set row. length v
                    = length (vocabulary c) * (length (EtaR c) * length (ShfR c))))
        \<and> length ang = length coordinates
        \<and> (\<forall>row \<in> set ang. length row = atoms
              \<and> (\<forall>v \<in> set row. length v
                    = ((length (vocabulary c) + 1) choose 2)
                      * (length (EtaA c) * length (Zeta c) * length (ShfA c) * length (ShfZ c)))))"
proof (intro impI conjI allI)
  assume v: "valid_input atoms coordinates sp"
  let ?rad = "map (\<lambda>n. map (\<lambda>i. concat (map (spec_radial_block c atoms coordinates sp n i)
                                (vocabulary c))) [0..<atoms]) [0..<length coordinates]"
  let ?ang = "map (\<lambda>n. map (\<lambda>i. concat (map (spec_angular_block c atoms coordinates sp n i)
                                (combinations_with_replacement2 (vocabulary c)))) [0..<atoms])
                  [0..<length coordinates]"
  {
    assume "0 < atoms \<and> vocabulary c \<noteq> [] \<and> EtaR c \<noteq> [] \<and> ShfR c \<noteq> []
      \<and> EtaA c \<noteq> [] \<and> Zeta c \<noteq> [] \<and> ShfA c \<noteq> [] \<and> ShfZ c \<noteq> []"
    then have a: "0 < atoms" and voc: "vocabulary c \<noteq> []"
      and pr: "0 < per_species_radial_length c" and pa: "0 < per_species_angular_length c"
      by (simp_all add: per_species_radial_length_def per_species_angular_length_def)
    from call_closed [OF v a voc pr pa]
    show "\<exists>rad ang. call c atoms coordinates sp = Inr (rad, ang)" by blast
  }
  fix rad ang
  assume call: "call c atoms coordinates sp = Inr (rad, ang)"
  have rad: "rad = ?rad" and ang: "ang = ?ang"
    using call_returned [OF v call] by blast+
  have lr: "\<And>n i. length (concat (map (spec_radial_block c atoms coordinates sp n i) (vocabulary c)))
              = length (vocabulary c) * (length (EtaR c) * length (ShfR c))"
    by (simp add: length_concat_blocks per_species_radial_length_def)
  have la: "\<And>n i. length (concat (map (spec_angular_block c atoms coordinates sp n i)
                                (combinations_with_replacement2 (vocabulary c))))
              = ((length (vocabulary c) + 1) choose 2)
                    * (length (EtaA c) * length (Zeta c) * length (ShfA c) * length (ShfZ c))"
    by (simp add: length_concat_blocks length_cwr2 per_species_angular_length_def)
  show "length rad = length coordinates" unfolding rad by simp
  show "length ang = length coordinates" unfolding ang by simp
  show "\<forall>row \<in> set rad. length row = atoms
              \<and> (\<forall>v \<in> set row. length v
                    = length (vocabulary c) * (length (EtaR c) * length (ShfR c)))"
    unfolding rad by (auto simp: lr)
  show "\<forall>row \<in> set ang. length row = atoms
              \<and> (\<forall>v \<in> set row. length v
                    = ((length (vocabulary c) + 1) choose 2)
                      * (length (EtaA c) * length (Zeta c) * length (ShfA c) * length (ShfZ c)))"
    unfolding ang by (auto simp: la)
qed

theorem call_output_shapes_witness:
  "\<exists>rad ang. call scenario_A 2 [[(0, 0, 0), (1, 0, 0)]] [''H'', ''H''] = Inr (rad, ang)
      \<and> length rad = 1 \<and> (\<forall>row \<in> set rad. length row = 2 \<and> (\<forall>v \<in> set row. length v = 1))
      \<and> length ang = 1 \<and> (\<forall>row \<in> set ang. length row = 2 \<and> (\<forall>v \<in> set row. length v = 1))"
proof -
  have v: "valid_input 2 [[(0, 0, 0), (1, 0, 0)]] [''H'', ''H'']"
    by (simp add: valid_input_def)
  have h: "(0::nat) < 2
     \<and> vocabulary scenario_A \<noteq> [] \<and> EtaR scenario_A \<noteq> [] \<and> ShfR scenario_A \<noteq> []
     \<and> EtaA scenario_A \<noteq> [] \<and> Zeta scenario_A \<noteq> [] \<and> ShfA scenario_A \<noteq> [] \<and> ShfZ scenario_A \<noteq> []"
    by (simp add: scenario_A_def)
  have n: "length (vocabulary scenario_A) * (length (EtaR scenario_A) * length (ShfR scenario_A)) = 1"
    "((length (vocabulary scenario_A) + 1) choose 2)
       * (length (EtaA scenario_A) * length (Zeta scenario_A) * length (ShfA scenario_A) * length (ShfZ scenario_A)) = 1"
    by (simp_all add: scenario_A_def numeral_2_eq_2)
  note inst = call_output_shapes [of 2 "[[(0, 0, 0), (1, 0, 0)]]" "[''H'', ''H'']" scenario_A]
  from inst v h obtain rad ang where
    call: "call scenario_A 2 [[(0, 0, 0), (1, 0, 0)]] [''H'', ''H''] = Inr (rad, ang)"
    by blast
  with inst v have "length rad = length [[(0::real, 0::real, 0::real), (1, 0, 0)]]
      \<and> (\<forall>row \<in> set rad. length row = 2 \<and> (\<forall>v \<in> set row. length v
            = length (vocabulary scenario_A) * (length (EtaR scenario_A) * length (ShfR scenario_A))))
      \<and> length ang = length [[(0::real, 0::real, 0::real), (1, 0, 0)]]
      \<and> (\<forall>row \<in> set ang. length row = 2 \<and> (\<forall>v \<in> set row. length v
            = ((length (vocabulary scenario_A) + 1) choose 2)
               * (length (EtaA scenario_A) * length (Zeta scenario_A) * length (ShfA scenario_A) * length (ShfZ scenario_A))))"
    by blast
  with call show ?thesis unfolding n by simp
qed

text \<open>
  Claim C1 as stated fails for a molecule of no atom: the loops over the atoms leave
  \<open>radial_aevs\<close> empty and \<open>torch.stack\<close> raises.
\<close>

theorem call_empty_molecule_counterexample:
  "valid_input 0 [[]] [] \<and> call scenario_A 0 [[]] [] = Inl RuntimeError"
  by (simp add: valid_input_def call_def neighbor_lists_def species_selectors_def
      stack_dim1_def Let_def)

subsection \<open>Zero blocks\<close>

lemma radial_sub_block:
  assumes v: "valid_input atoms coordinates sp"
    and call: "call c atoms coordinates sp = Inr (rad, ang)"
    and n: "n < length coordinates" and i: "i < atoms" and p: "p < length (vocabulary c)"
  shows "take (per_species_radial_length c) (drop (p * per_species_radial_length c) (rad ! n ! i))
           = spec_radial_block c atoms coordinates sp n i (vocabulary c ! p)"
proof -
  have "rad ! n ! i = concat (map (spec_radial_block c atoms coordinates sp n i) (vocabulary c))"
    using n i by (simp add: call_returned(1) [OF v call])
  then show ?thesis
    using p by (simp add: take_drop_concat_map)
qed

lemma angular_sub_block:
  assumes v: "valid_input atoms coordinates sp"
    and call: "call c atoms coordinates sp = Inr (rad, ang)"
    and n: "n < length coordinates" and i: "i < atoms"
    and q: "q < length (combinations_with_replacement2 (vocabulary c))"
  shows "take (per_species_angular_length c) (drop (q * per_species_angular_length c) (ang ! n ! i))
           = spec_angular_block c atoms coordinates sp n i
               (combinations_with_replacement2 (vocabulary c) ! q)"
proof -
  have "ang ! n ! i = concat (map (spec_angular_block c atoms coordinates sp n i)
                               (combinations_with_replacement2 (vocabulary c)))"
    using n i by (simp add: call_returned(2) [OF v call])
  then show ?thesis
    using q by (simp add: take_drop_concat_map)
qed

text \<open>
  Claim C7. In the output of a call, for every conformation, the radial sub-block of an atom
  for a species of which it has no radial neighbor is the zero vector of length
  \<open>PerSpeciesRadialLength\<close>; and the angular sub-block of an atom for a species pair whose
  list of neighbor pairs is empty is the zero vector of length \<open>PerSpeciesAngularLength\<close>.
\<close>

theorem zero_fill:
  "valid_input atoms coordinates sp \<and> call c atoms coordinates sp = Inr (rad, ang)
     \<and> n < length coordinates \<and> i < atoms \<longrightarrow>
   (\<forall>p < length (vocabulary c).
      species_neighbor_indices (Rcr c) atoms coordinates sp i (vocabulary c ! p) = [] \<longrightarrow>
      take (per_species_radial_length c) (drop (p * per_species_radial_length c) (rad ! n ! i))
        = replicate (per_species_radial_length c) (Some 0))
   \<and> (\<forall>q < length (combinations_with_replacement2 (vocabulary c)).
      species_pair_indices (Rca c) atoms coordinates sp i
         (fst (combinations_with_replacement2 (vocabulary c) ! q))
         (snd (combinations_with_replacement2 (vocabulary c) ! q)) = [] \<longrightarrow>
      take (per_species_angular_length c) (drop (q * per_species_angular_length c) (ang ! n ! i))
        = replicate (per_species_angular_length c) (Some 0))"
proof (intro impI conjI allI)
  assume h: "valid_input atoms coordinates sp \<and> call c atoms coordinates sp = Inr (rad, ang)
     \<and> n < length coordinates \<and> i < atoms"
  then have v: "valid_input atoms coordinates sp" and call: "call c atoms coordinates sp = Inr (rad, ang)"
    and n: "n < length coordinates" and i: "i < atoms"
    by simp_all
  {
    fix p
    assume p: "p < length (vocabulary c)"
      and e: "species_neighbor_indices (Rcr c) atoms coordinates sp i (vocabulary c ! p) = []"
    show "take (per_species_radial_length c) (drop (p * per_species_radial_length c) (rad ! n ! i))
        = replicate (per_species_radial_length c) (Some 0)"
      by (simp only: radial_sub_block [OF v call n i p] spec_radial_block_empty [OF e])
  }
  {
    fix q
    assume q: "q < length (combinations_with_replacement2 (vocabulary c))"
      and e: "species_pair_indices (Rca c) atoms coordinates sp i
         (fst (combinations_with_replacement2 (vocabulary c) ! q))
         (snd (combinations_with_replacement2 (vocabulary c) ! q)) = []"
    show "take (per_species_angular_length c) (drop (q * per_species_angular_length c) (ang ! n ! i))
        = replicate (per_species_angular_length c) (Some 0)"
      by (simp only: angular_sub_block [OF v call n i q] spec_angular_block_empty [OF e])
  }
qed

lemma call_two_hydrogens:
  "call scenario_HC 2 [[(0, 0, 0), (1, 0, 0)]] [''H'', ''H'']
     = Inr ([[[Some (0.25 * (0.5 * cos (pi * 1 / 5) + 0.5)), Some 0],
              [Some (0.25 * (0.5 * cos (pi * 1 / 5) + 0.5)), Some 0]]],
            [[[Some 0, Some 0, Some 0], [Some 0, Some 0, Some 0]]])"
  by (simp add: call_def neighbor_lists_def scenario_HC_def scenario_A_def R_distances_all_def
      in_cutoff_def species_selectors_def upt2 vsub_def distance_def Let_def species_neighbors_def
      radial_aev_def radial_block_def nonzero_def center_of_def index_select_def
      radial_subaev_rows per_species_radial_length_def radial_term_def cutoff_cosine_def
      mul_val_def cat_dim1_def stack_dim1_def
      angular_aev_def angular_block_def angular_pairs_def zeros_def per_species_angular_length_def)

theorem zero_fill_witness:
  "\<exists>rad ang. call scenario_HC 2 [[(0, 0, 0), (1, 0, 0)]] [''H'', ''H''] = Inr (rad, ang)
     \<and> take 1 (drop 1 (rad ! 0 ! 0)) = [Some 0] \<and> take 1 (drop 0 (ang ! 0 ! 0)) = [Some 0]"
proof -
  let ?X = "[[(0, 0, 0), (1, 0, 0)]] :: point list list"
  let ?sp = "[''H'', ''H'']"
  obtain rad ang where call: "call scenario_HC 2 ?X ?sp = Inr (rad, ang)"
    using call_two_hydrogens by blast
  have h: "valid_input 2 ?X ?sp \<and> call scenario_HC 2 ?X ?sp = Inr (rad, ang)
     \<and> (0::nat) < length ?X \<and> (0::nat) < 2"
    using call by (simp add: valid_input_def)
  have L: "per_species_radial_length scenario_HC = 1" "per_species_angular_length scenario_HC = 1"
    by (simp_all add: per_species_radial_length_def per_species_angular_length_def
        scenario_HC_def scenario_A_def)
  have p: "(1::nat) < length (vocabulary scenario_HC)"
    "species_neighbor_indices (Rcr scenario_HC) 2 ?X ?sp 0 (vocabulary scenario_HC ! 1) = []"
    by (simp_all add: scenario_HC_def scenario_A_def species_neighbor_indices_def upt2)
  have q: "(0::nat) < length (combinations_with_replacement2 (vocabulary scenario_HC))"
    "species_pair_indices (Rca scenario_HC) 2 ?X ?sp 0
         (fst (combinations_with_replacement2 (vocabulary scenario_HC) ! 0))
         (snd (combinations_with_replacement2 (vocabulary scenario_HC) ! 0)) = []"
    by (simp_all add: scenario_HC_def scenario_A_def species_pair_indices_def
        species_neighbor_indices_def upt2)
  from zero_fill [of 2 ?X ?sp scenario_HC rad ang 0 0] h p q
  have "take (per_species_radial_length scenario_HC)
          (drop (1 * per_species_radial_length scenario_HC) (rad ! 0 ! 0))
        = replicate (per_species_radial_length scenario_HC) (Some 0)"
    and "take (per_species_angular_length scenario_HC)
          (drop (0 * per_species_angular_length scenario_HC) (ang ! 0 ! 0))
        = replicate (per_species_angular_length scenario_HC) (Some 0)"
    by blast+
  then show ?thesis using call unfolding L by simp
qed

subsection \<open>The symmetry functions in the output\<close>

lemma spec_radial_block_nth:
  assumes "e < length (EtaR c)" "s < length (ShfR c)"
  shows "spec_radial_block c atoms X sp m i sname ! (e * length (ShfR c) + s)
     = sum_vals (map (spec_radial_term c (EtaR c ! e) (ShfR c ! s) (X ! m ! i))
         (map (\<lambda>j. X ! m ! j) (species_neighbor_indices (Rcr c) atoms X sp i sname)))"
  using assms by (simp add: spec_radial_block_def nth_concat_grid)

lemma spec_angular_block_nth:
  assumes "e < length (EtaA c)" "z < length (Zeta c)" "a < length (ShfA c)" "t < length (ShfZ c)"
  shows "spec_angular_block c atoms X sp m i jk
           ! (((e * length (Zeta c) + z) * length (ShfA c) + a) * length (ShfZ c) + t)
     = sum_vals (map (spec_angular_term c (EtaA c ! e) (Zeta c ! z) (ShfA c ! a) (ShfZ c ! t) (X ! m ! i))
         (map (\<lambda>pr. (X ! m ! fst pr, X ! m ! snd pr))
            (species_pair_indices (Rca c) atoms X sp i (fst jk) (snd jk))))"
  unfolding spec_angular_block_def Let_def by (rule nth_flat4 [OF assms])

lemma nth_take_drop: "r < L \<Longrightarrow> p * L + r < length xs \<Longrightarrow> xs ! (p * L + r) = take L (drop (p * L) xs) ! r"
  by simp

lemma sum_list_map_map: "(\<Sum>x\<leftarrow>map g xs. F x) = (\<Sum>j\<leftarrow>xs. F (g j))"
  by (simp add: comp_def)

lemma sqrt_nine: "sqrt 9 = 3"
  using real_sqrt_abs [of 3] by simp

text \<open>
  Claim C3. Every entry of the radial sub-AEV, at the position of \<open>(eta, shift)\<close> in the grid
  \<open>EtaR \<times> ShfR\<close>, is the sum over the neighbors of
  \<open>0.25 * exp(-eta * (dist - shift)^2) * fc(dist, Rcr)\<close>, with \<open>dist\<close> the Euclidean distance
  from the center to the neighbor; it is undefined only when \<open>Rcr\<close> is zero and a neighbor
  lies on the center, where the cutoff function has no value. The distance that the code
  computes is the Euclidean distance, and its sum over the neighbor axis is the sum. This holds
  for what
  \<open>radial_subaev\<close> returns for a neighbor tensor of at least one neighbor (for none it
  raises, and the call does not use it then), and for every radial entry of the output of a
  call, where the sum over no neighbor is zero. For two atoms of one species at distance 1, with
  \<open>EtaR = {16}\<close>, \<open>ShfR = {1}\<close> and \<open>Rcr = 5\<close>, the single radial entry of each atom is
  \<open>0.25 * fc(1, 5)\<close>.
\<close>

theorem radial_subaev_formula:
  "radial_subaev c center (0, neighbors) = Inl RuntimeError
   \<and> (0 < N \<and> (\<forall>nbs \<in> set neighbors. length nbs = N) \<and> length neighbors = length center
        \<and> n < length center \<and> e < length (EtaR c) \<and> s < length (ShfR c) \<longrightarrow>
      (\<exists>out. radial_subaev c center (N, neighbors) = Inr out
          \<and> out ! n ! (e * length (ShfR c) + s)
              = (if Rcr c = 0 \<and> (\<exists>nb \<in> set (neighbors ! n). euclid (center ! n) nb = 0) then None
                 else Some (\<Sum>nb\<leftarrow>neighbors ! n.
                        0.25 * exp (- (EtaR c ! e) * (euclid (center ! n) nb - ShfR c ! s)\<^sup>2)
                          * spec_fc (euclid (center ! n) nb) (Rcr c)))))
   \<and> (valid_input atoms coordinates sp \<and> call c atoms coordinates sp = Inr (rad, ang)
        \<and> m < length coordinates \<and> i < atoms \<and> p < length (vocabulary c)
        \<and> e < length (EtaR c) \<and> s < length (ShfR c) \<longrightarrow>
      rad ! m ! i ! (p * (length (EtaR c) * length (ShfR c)) + (e * length (ShfR c) + s))
        = (if Rcr c = 0 \<and> (\<exists>j \<in> set (species_neighbor_indices (Rcr c) atoms coordinates sp i (vocabulary c ! p)).
                               euclid (coordinates ! m ! i) (coordinates ! m ! j) = 0) then None
           else Some (\<Sum>j\<leftarrow>species_neighbor_indices (Rcr c) atoms coordinates sp i (vocabulary c ! p).
                  0.25 * exp (- (EtaR c ! e) * (euclid (coordinates ! m ! i) (coordinates ! m ! j) - ShfR c ! s)\<^sup>2)
                    * spec_fc (euclid (coordinates ! m ! i) (coordinates ! m ! j)) (Rcr c))))
   \<and> (euclid a b = 1 \<longrightarrow>
        (\<exists>ang. call scenario_A 2 [[a, b]] [''H'', ''H'']
                 = Inr ([[[Some (0.25 * spec_fc 1 5)], [Some (0.25 * spec_fc 1 5)]]], ang)))
   \<and> distance (vsub nb cn) = euclid cn nb
   \<and> sum_vals (map Some xs) = Some (sum_list xs)"
proof (intro conjI impI)
  show "radial_subaev c center (0, neighbors) = Inl RuntimeError"
    by (simp add: radial_subaev_def)
next
  show "distance (vsub nb cn) = euclid cn nb"
    by (cases nb; cases cn) (simp add: distance_def vsub_def euclid_def)
next
  show "sum_vals (map Some xs) = Some (sum_list xs)"
    unfolding sum_vals_def by (induction xs) (simp_all add: add_val_def)
next
  assume h: "0 < N \<and> (\<forall>nbs \<in> set neighbors. length nbs = N) \<and> length neighbors = length center
        \<and> n < length center \<and> e < length (EtaR c) \<and> s < length (ShfR c)"
  then have N: "0 < fst (N, neighbors)" and len: "length (snd (N, neighbors)) = length center"
    and n: "n < length center" and e: "e < length (EtaR c)" and s: "s < length (ShfR c)"
    by simp_all
  from radial_subaev_nth [OF N len n e s] obtain out where
    out: "radial_subaev c center (N, neighbors) = Inr out"
    and entry: "out ! n ! (e * length (ShfR c) + s)
              = sum_vals (map (spec_radial_term c (EtaR c ! e) (ShfR c ! s) (center ! n)) (neighbors ! n))"
    by auto
  have "out ! n ! (e * length (ShfR c) + s)
     = (if Rcr c = 0 \<and> (\<exists>nb \<in> set (neighbors ! n). euclid (center ! n) nb = 0) then None
                 else Some (\<Sum>nb\<leftarrow>neighbors ! n.
                        0.25 * exp (- (EtaR c ! e) * (euclid (center ! n) nb - ShfR c ! s)\<^sup>2)
                          * spec_fc (euclid (center ! n) nb) (Rcr c)))"
    unfolding entry sum_radial_terms radial_symmetry_def ..
  with out show "\<exists>out. radial_subaev c center (N, neighbors) = Inr out
          \<and> out ! n ! (e * length (ShfR c) + s)
              = (if Rcr c = 0 \<and> (\<exists>nb \<in> set (neighbors ! n). euclid (center ! n) nb = 0) then None
                 else Some (\<Sum>nb\<leftarrow>neighbors ! n.
                        0.25 * exp (- (EtaR c ! e) * (euclid (center ! n) nb - ShfR c ! s)\<^sup>2)
                          * spec_fc (euclid (center ! n) nb) (Rcr c)))"
    by blast
next
  let ?L = "length (EtaR c) * length (ShfR c)"
  let ?NB = "species_neighbor_indices (Rcr c) atoms coordinates sp i (vocabulary c ! p)"
  assume h: "valid_input atoms coordinates sp \<and> call c atoms coordinates sp = Inr (rad, ang)
        \<and> m < length coordinates \<and> i < atoms \<and> p < length (vocabulary c)
        \<and> e < length (EtaR c) \<and> s < length (ShfR c)"
  then have v: "valid_input atoms coordinates sp" and call: "call c atoms coordinates sp = Inr (rad, ang)"
    and m: "m < length coordinates" and i: "i < atoms" and p: "p < length (vocabulary c)"
    and e: "e < length (EtaR c)" and s: "s < length (ShfR c)"
    by simp_all
  have r: "e * length (ShfR c) + s < ?L" using e s by (rule flat_index_bound)
  have row: "rad ! m ! i = concat (map (spec_radial_block c atoms coordinates sp m i) (vocabulary c))"
    using m i by (simp add: call_returned(1) [OF v call])
  have "rad ! m ! i ! (p * ?L + (e * length (ShfR c) + s))
          = spec_radial_block c atoms coordinates sp m i (vocabulary c ! p) ! (e * length (ShfR c) + s)"
    unfolding row
    by (rule nth_concat_map) (simp_all add: per_species_radial_length_def p r)
  also have "\<dots> = sum_vals (map (spec_radial_term c (EtaR c ! e) (ShfR c ! s) (coordinates ! m ! i))
         (map (\<lambda>j. coordinates ! m ! j) ?NB))"
    by (rule spec_radial_block_nth [OF e s])
  also have "\<dots> = (if Rcr c = 0 \<and> (\<exists>j \<in> set ?NB.
                               euclid (coordinates ! m ! i) (coordinates ! m ! j) = 0) then None
           else Some (\<Sum>j\<leftarrow>?NB.
                  0.25 * exp (- (EtaR c ! e) * (euclid (coordinates ! m ! i) (coordinates ! m ! j) - ShfR c ! s)\<^sup>2)
                    * spec_fc (euclid (coordinates ! m ! i) (coordinates ! m ! j)) (Rcr c)))"
    unfolding sum_radial_terms radial_symmetry_def sum_list_map_map by simp
  finally show "rad ! m ! i ! (p * ?L + (e * length (ShfR c) + s))
        = (if Rcr c = 0 \<and> (\<exists>j \<in> set ?NB.
                               euclid (coordinates ! m ! i) (coordinates ! m ! j) = 0) then None
           else Some (\<Sum>j\<leftarrow>?NB.
                  0.25 * exp (- (EtaR c ! e) * (euclid (coordinates ! m ! i) (coordinates ! m ! j) - ShfR c ! s)\<^sup>2)
                    * spec_fc (euclid (coordinates ! m ! i) (coordinates ! m ! j)) (Rcr c)))" .
next
  assume d: "euclid a b = 1"
  let ?X = "[[a, b]]" and ?sp = "[''H'', ''H'']"
  have v: "valid_input 2 ?X ?sp" by (simp add: valid_input_def)
  have k: "(0::nat) < 2" "vocabulary scenario_A \<noteq> []" "0 < per_species_radial_length scenario_A"
    "0 < per_species_angular_length scenario_A"
    by (simp_all add: scenario_A_def per_species_radial_length_def per_species_angular_length_def)
  have voc: "vocabulary scenario_A = [''H'']" by (simp add: scenario_A_def)
  have d1: "distance (vsub b a) = 1" "distance (vsub a b) = 1"
    using d by (simp_all add: distance_vsub euclid_sym [of b a])
  have N0: "species_neighbor_indices (Rcr scenario_A) 2 ?X ?sp 0 ''H'' = [Suc 0]"
    by (simp add: species_neighbor_indices_def upt2 scenario_A_def d1)
  have N1: "species_neighbor_indices (Rcr scenario_A) 2 ?X ?sp (Suc 0) ''H'' = [0]"
    by (simp add: species_neighbor_indices_def upt2 scenario_A_def d1)
  have t: "spec_radial_term scenario_A 16 1 a b = Some (0.25 * spec_fc 1 5)"
    "spec_radial_term scenario_A 16 1 b a = Some (0.25 * spec_fc 1 5)"
    using d by (simp_all add: spec_radial_term_value radial_symmetry_def euclid_sym [of b a] scenario_A_def)
  have c: "EtaR scenario_A = [16]" "ShfR scenario_A = [1]" by (simp_all add: scenario_A_def)
  have b0: "spec_radial_block scenario_A 2 ?X ?sp 0 0 ''H'' = [Some (0.25 * spec_fc 1 5)]"
    by (simp add: spec_radial_block_def N0 c t)
  have b1: "spec_radial_block scenario_A 2 ?X ?sp 0 (Suc 0) ''H'' = [Some (0.25 * spec_fc 1 5)]"
    by (simp add: spec_radial_block_def N1 c t)
  show "\<exists>ang. call scenario_A 2 [[a, b]] [''H'', ''H'']
                 = Inr ([[[Some (0.25 * spec_fc 1 5)], [Some (0.25 * spec_fc 1 5)]]], ang)"
    unfolding call_closed [OF v k] by (simp add: voc upt2 b0 b1)
qed


lemma euclid_examples:
  "euclid (1, 1, 1) (3, 1, 1) = 2" "euclid (1, 1, 1) (1, 4, 1) = 3"
  by (simp_all add: euclid_def sqrt_nine)

theorem radial_subaev_formula_witness:
  "\<exists>out. radial_subaev scenario_A [(1, 1, 1)] (2, [[(3, 1, 1), (1, 4, 1)]]) = Inr out
      \<and> out ! 0 ! 0 = Some (0.25 * exp (- 16) * (0.5 * cos (pi * 2 / 5) + 0.5)
                              + 0.25 * exp (- 64) * (0.5 * cos (pi * 3 / 5) + 0.5))"
proof -
  let ?cn = "(1, 1, 1) :: point"
  let ?nbs = "[(3, 1, 1), (1, 4, 1)] :: point list"
  have h: "(0::nat) < 2 \<and> (\<forall>nbs \<in> set [?nbs]. length nbs = 2) \<and> length [?nbs] = length [?cn]
        \<and> (0::nat) < length [?cn] \<and> 0 < length (EtaR scenario_A) \<and> 0 < length (ShfR scenario_A)"
    by (simp add: scenario_A_def)
  from radial_subaev_formula [of scenario_A "[?cn]" "[?nbs]" 2 0 0 0] h
  obtain out where o: "radial_subaev scenario_A [?cn] (2, [?nbs]) = Inr out"
    and e: "out ! 0 ! (0 * length (ShfR scenario_A) + 0)
              = (if Rcr scenario_A = 0 \<and> (\<exists>nb \<in> set ([?nbs] ! 0). euclid ([?cn] ! 0) nb = 0) then None
                 else Some (\<Sum>nb\<leftarrow>[?nbs] ! 0.
                        0.25 * exp (- (EtaR scenario_A ! 0) * (euclid ([?cn] ! 0) nb - ShfR scenario_A ! 0)\<^sup>2)
                          * spec_fc (euclid ([?cn] ! 0) nb) (Rcr scenario_A)))"
    by blast
  have "out ! 0 ! 0 = Some (0.25 * exp (- 16) * (0.5 * cos (pi * 2 / 5) + 0.5)
                              + 0.25 * exp (- 64) * (0.5 * cos (pi * 3 / 5) + 0.5))"
    using e by (simp add: scenario_A_def euclid_examples spec_fc_def)
  with o show ?thesis by blast
qed


lemma flat4_index_bound:
  assumes "e < E" "z < Z" "a < A" "t < (T::nat)"
  shows "((e * Z + z) * A + a) * T + t < E * Z * A * T"
proof -
  have "e * Z + z < E * Z" using assms(1,2) by (rule flat_index_bound)
  then have "(e * Z + z) * A + a < E * Z * A" using assms(3) by (rule flat_index_bound)
  then show ?thesis using assms(4) by (rule flat_index_bound)
qed

lemma sum_angular_terms_gathered:
  "sum_vals (map (spec_angular_term c eta zeta rs sh cn) (map g prs))
     = (if \<exists>pr \<in> set prs. euclid cn (fst (g pr)) * euclid cn (snd (g pr)) = 0
              \<or> (cos (enclosed_angle cn (g pr) - sh) = - 1 \<and> zeta < 0) then None
        else Some (\<Sum>pr\<leftarrow>prs. angular_symmetry (Rca c) eta zeta rs sh cn (g pr)))"
  unfolding sum_angular_terms sum_list_map_map by simp

text \<open>
  Claim C4. Every entry of the angular sub-AEV, at the position of
  \<open>(eta, zeta, shiftR, shiftA)\<close> in the grid \<open>EtaA \<times> Zeta \<times> ShfA \<times> ShfZ\<close>, is the sum over
  the neighbor pairs of
  \<open>2 * ((1 + cos(angle - shiftA)) / 2)^zeta * exp(-eta * ((d1 + d2) / 2 - shiftR)^2) * fc(d1, Rca) * fc(d2, Rca)\<close>
  with \<open>d1\<close>, \<open>d2\<close> the Euclidean distances from the center to the two atoms of the pair and
  \<open>angle = acos(0.95 * dot / (d1 * d2))\<close>. It is undefined only when a pair has an atom on the
  center (\<open>d1 * d2 = 0\<close>) or a zero base meets a negative \<open>zeta\<close>. The distances and the
  inner product that the code computes are the Euclidean distance and the inner product of the
  displacement vectors. This holds for what
  \<open>angular_subaev\<close> returns for a pair tensor of at least one pair (for none it raises, and
  the call does not use it then), and for every angular entry of the output of a call, where
  the sum over no pair is zero.
\<close>

theorem angular_subaev_formula:
  "angular_subaev c center (0, neighbors) = Inl RuntimeError
   \<and> (0 < P \<and> (\<forall>prs \<in> set neighbors. length prs = P) \<and> length neighbors = length center
        \<and> n < length center \<and> e < length (EtaA c) \<and> z < length (Zeta c)
        \<and> a < length (ShfA c) \<and> t < length (ShfZ c) \<longrightarrow>
      (\<exists>out. angular_subaev c center (P, neighbors) = Inr out
          \<and> out ! n ! (((e * length (Zeta c) + z) * length (ShfA c) + a) * length (ShfZ c) + t)
              = (if \<exists>pr \<in> set (neighbors ! n).
                       euclid (center ! n) (fst pr) * euclid (center ! n) (snd pr) = 0
                       \<or> (cos (enclosed_angle (center ! n) pr - ShfZ c ! t) = - 1 \<and> Zeta c ! z < 0)
                 then None
                 else Some (\<Sum>pr\<leftarrow>neighbors ! n.
                        angular_symmetry (Rca c) (EtaA c ! e) (Zeta c ! z) (ShfA c ! a) (ShfZ c ! t)
                          (center ! n) pr))))
   \<and> (valid_input atoms coordinates sp \<and> call c atoms coordinates sp = Inr (rad, ang)
        \<and> m < length coordinates \<and> i < atoms
        \<and> q < length (combinations_with_replacement2 (vocabulary c))
        \<and> e < length (EtaA c) \<and> z < length (Zeta c)
        \<and> a < length (ShfA c) \<and> t < length (ShfZ c) \<longrightarrow>
      ang ! m ! i ! (q * (length (EtaA c) * length (Zeta c) * length (ShfA c) * length (ShfZ c))
                      + (((e * length (Zeta c) + z) * length (ShfA c) + a) * length (ShfZ c) + t))
        = (if \<exists>pr \<in> set (species_pair_indices (Rca c) atoms coordinates sp i
                              (fst (combinations_with_replacement2 (vocabulary c) ! q))
                              (snd (combinations_with_replacement2 (vocabulary c) ! q))).
                 euclid (coordinates ! m ! i) (coordinates ! m ! fst pr)
                   * euclid (coordinates ! m ! i) (coordinates ! m ! snd pr) = 0
                 \<or> (cos (enclosed_angle (coordinates ! m ! i)
                              (coordinates ! m ! fst pr, coordinates ! m ! snd pr) - ShfZ c ! t) = - 1
                      \<and> Zeta c ! z < 0)
           then None
           else Some (\<Sum>pr\<leftarrow>species_pair_indices (Rca c) atoms coordinates sp i
                              (fst (combinations_with_replacement2 (vocabulary c) ! q))
                              (snd (combinations_with_replacement2 (vocabulary c) ! q)).
                  angular_symmetry (Rca c) (EtaA c ! e) (Zeta c ! z) (ShfA c ! a) (ShfZ c ! t)
                    (coordinates ! m ! i) (coordinates ! m ! fst pr, coordinates ! m ! snd pr))))
   \<and> inner_prod (vsub p1 cn) (vsub p2 cn) = dot_from cn p1 p2
   \<and> distance (vsub p1 cn) = euclid cn p1
   \<and> sum_vals (map Some xs) = Some (sum_list xs)"
proof (intro conjI impI)
  show "angular_subaev c center (0, neighbors) = Inl RuntimeError"
    by (simp add: angular_subaev_def)
next
  show "inner_prod (vsub p1 cn) (vsub p2 cn) = dot_from cn p1 p2"
    by (cases p1; cases p2; cases cn) (simp add: inner_prod_def vsub_def dot_from_def)
next
  show "distance (vsub p1 cn) = euclid cn p1"
    by (cases p1; cases cn) (simp add: distance_def vsub_def euclid_def)
next
  show "sum_vals (map Some xs) = Some (sum_list xs)"
    unfolding sum_vals_def by (induction xs) (simp_all add: add_val_def)
next
  assume h: "0 < P \<and> (\<forall>prs \<in> set neighbors. length prs = P) \<and> length neighbors = length center
        \<and> n < length center \<and> e < length (EtaA c) \<and> z < length (Zeta c)
        \<and> a < length (ShfA c) \<and> t < length (ShfZ c)"
  then have P: "0 < P" and len: "length neighbors = length center"
    and n: "n < length center" and e: "e < length (EtaA c)" and z: "z < length (Zeta c)"
    and a: "a < length (ShfA c)" and t: "t < length (ShfZ c)"
    by simp_all
  from angular_subaev_nth [OF P len n e z a t] obtain out where
    out: "angular_subaev c center (P, neighbors) = Inr out"
    and entry: "out ! n ! (((e * length (Zeta c) + z) * length (ShfA c) + a) * length (ShfZ c) + t)
              = sum_vals (map (spec_angular_term c (EtaA c ! e) (Zeta c ! z) (ShfA c ! a) (ShfZ c ! t)
                                (center ! n)) (neighbors ! n))"
    by auto
  show "\<exists>out. angular_subaev c center (P, neighbors) = Inr out
          \<and> out ! n ! (((e * length (Zeta c) + z) * length (ShfA c) + a) * length (ShfZ c) + t)
              = (if \<exists>pr \<in> set (neighbors ! n).
                       euclid (center ! n) (fst pr) * euclid (center ! n) (snd pr) = 0
                       \<or> (cos (enclosed_angle (center ! n) pr - ShfZ c ! t) = - 1 \<and> Zeta c ! z < 0)
                 then None
                 else Some (\<Sum>pr\<leftarrow>neighbors ! n.
                        angular_symmetry (Rca c) (EtaA c ! e) (Zeta c ! z) (ShfA c ! a) (ShfZ c ! t)
                          (center ! n) pr))"
    using out entry unfolding sum_angular_terms by blast
next
  let ?L = "length (EtaA c) * length (Zeta c) * length (ShfA c) * length (ShfZ c)"
  let ?r = "((e * length (Zeta c) + z) * length (ShfA c) + a) * length (ShfZ c) + t"
  let ?cwr = "combinations_with_replacement2 (vocabulary c)"
  let ?PRS = "species_pair_indices (Rca c) atoms coordinates sp i (fst (?cwr ! q)) (snd (?cwr ! q))"
  assume h: "valid_input atoms coordinates sp \<and> call c atoms coordinates sp = Inr (rad, ang)
        \<and> m < length coordinates \<and> i < atoms \<and> q < length ?cwr
        \<and> e < length (EtaA c) \<and> z < length (Zeta c)
        \<and> a < length (ShfA c) \<and> t < length (ShfZ c)"
  then have v: "valid_input atoms coordinates sp" and call: "call c atoms coordinates sp = Inr (rad, ang)"
    and m: "m < length coordinates" and i: "i < atoms" and q: "q < length ?cwr"
    and e: "e < length (EtaA c)" and z: "z < length (Zeta c)"
    and a: "a < length (ShfA c)" and t: "t < length (ShfZ c)"
    by simp_all
  have r: "?r < ?L" using e z a t by (rule flat4_index_bound)
  have row: "ang ! m ! i = concat (map (spec_angular_block c atoms coordinates sp m i) ?cwr)"
    using m i by (simp add: call_returned(2) [OF v call])
  have "ang ! m ! i ! (q * ?L + ?r) = spec_angular_block c atoms coordinates sp m i (?cwr ! q) ! ?r"
    unfolding row
    by (rule nth_concat_map) (simp_all add: per_species_angular_length_def q r)
  also have "\<dots> = sum_vals (map (spec_angular_term c (EtaA c ! e) (Zeta c ! z) (ShfA c ! a) (ShfZ c ! t)
                                   (coordinates ! m ! i))
         (map (\<lambda>pr. (coordinates ! m ! fst pr, coordinates ! m ! snd pr)) ?PRS))"
    by (rule spec_angular_block_nth [OF e z a t])
  also have "\<dots> = (if \<exists>pr \<in> set ?PRS.
                 euclid (coordinates ! m ! i) (coordinates ! m ! fst pr)
                   * euclid (coordinates ! m ! i) (coordinates ! m ! snd pr) = 0
                 \<or> (cos (enclosed_angle (coordinates ! m ! i)
                              (coordinates ! m ! fst pr, coordinates ! m ! snd pr) - ShfZ c ! t) = - 1
                      \<and> Zeta c ! z < 0)
           then None
           else Some (\<Sum>pr\<leftarrow>?PRS.
                  angular_symmetry (Rca c) (EtaA c ! e) (Zeta c ! z) (ShfA c ! a) (ShfZ c ! t)
                    (coordinates ! m ! i) (coordinates ! m ! fst pr, coordinates ! m ! snd pr)))"
    unfolding sum_angular_terms_gathered by (simp only: fst_conv snd_conv)
  finally show "ang ! m ! i ! (q * ?L + ?r)
        = (if \<exists>pr \<in> set ?PRS.
                 euclid (coordinates ! m ! i) (coordinates ! m ! fst pr)
                   * euclid (coordinates ! m ! i) (coordinates ! m ! snd pr) = 0
                 \<or> (cos (enclosed_angle (coordinates ! m ! i)
                              (coordinates ! m ! fst pr, coordinates ! m ! snd pr) - ShfZ c ! t) = - 1
                      \<and> Zeta c ! z < 0)
           then None
           else Some (\<Sum>pr\<leftarrow>?PRS.
                  angular_symmetry (Rca c) (EtaA c ! e) (Zeta c ! z) (ShfA c ! a) (ShfZ c ! t)
                    (coordinates ! m ! i) (coordinates ! m ! fst pr, coordinates ! m ! snd pr)))" .
qed


lemma sqrt_sixteen: "sqrt 16 = 4"
  using real_sqrt_abs [of 4] by simp

theorem angular_subaev_formula_witness:
  "\<exists>out. angular_subaev scenario_A [(1, 1, 1)]
            (2, [[((4, 1, 1), (14 / 5, 17 / 5, 1)), ((4, 1, 1), (1, 1, 5))]]) = Inr out
      \<and> out ! 0 ! 0
          = Some (2 * (157 / 200) powr 32 * exp (- 32)
                    * (0.5 * cos (pi * 3 / 5) + 0.5) * (0.5 * cos (pi * 3 / 5) + 0.5)
                  + 2 * (1 / 2) powr 32 * exp (- 50)
                    * (0.5 * cos (pi * 3 / 5) + 0.5) * (0.5 * cos (pi * 4 / 5) + 0.5))"
proof -
  let ?cn = "(1, 1, 1) :: point"
  let ?a = "(4, 1, 1) :: point" and ?b = "(14 / 5, 17 / 5, 1) :: point" and ?d = "(1, 1, 5) :: point"
  let ?prs = "[(?a, ?b), (?a, ?d)]"
  have E: "euclid ?cn ?a = 3" "euclid ?cn ?b = 3" "euclid ?cn ?d = 4"
    by (simp_all add: euclid_def sqrt_nine sqrt_sixteen power2_eq_square)
  have A: "enclosed_angle ?cn (?a, ?b) = arccos (57 / 100)" "enclosed_angle ?cn (?a, ?d) = pi / 2"
    by (simp_all add: enclosed_angle_def E dot_from_def)
  have V1: "angular_symmetry 5 8 32 1 0 ?cn (?a, ?b)
              = 2 * (157 / 200) powr 32 * exp (- 32)
                  * (0.5 * cos (pi * 3 / 5) + 0.5) * (0.5 * cos (pi * 3 / 5) + 0.5)"
    by (simp add: angular_symmetry_def Let_def A E spec_fc_def power2_eq_square)
  have V2: "angular_symmetry 5 8 32 1 0 ?cn (?a, ?d)
              = 2 * (1 / 2) powr 32 * exp (- 50)
                  * (0.5 * cos (pi * 3 / 5) + 0.5) * (0.5 * cos (pi * 4 / 5) + 0.5)"
    by (simp add: angular_symmetry_def Let_def A E spec_fc_def power2_eq_square)
  have h: "(0::nat) < 2 \<and> (\<forall>prs \<in> set [?prs]. length prs = 2) \<and> length [?prs] = length [?cn]
        \<and> (0::nat) < length [?cn] \<and> 0 < length (EtaA scenario_A) \<and> 0 < length (Zeta scenario_A)
        \<and> 0 < length (ShfA scenario_A) \<and> 0 < length (ShfZ scenario_A)"
    by (simp add: scenario_A_def)
  from angular_subaev_formula [of scenario_A "[?cn]" "[?prs]" 2 0 0 0 0 0] h
  obtain out where o: "angular_subaev scenario_A [?cn] (2, [?prs]) = Inr out"
    and e: "out ! 0 ! (((0 * length (Zeta scenario_A) + 0) * length (ShfA scenario_A) + 0)
                         * length (ShfZ scenario_A) + 0)
              = (if \<exists>pr \<in> set ([?prs] ! 0).
                       euclid ([?cn] ! 0) (fst pr) * euclid ([?cn] ! 0) (snd pr) = 0
                       \<or> (cos (enclosed_angle ([?cn] ! 0) pr - ShfZ scenario_A ! 0) = - 1
                            \<and> Zeta scenario_A ! 0 < 0)
                 then None
                 else Some (\<Sum>pr\<leftarrow>[?prs] ! 0.
                        angular_symmetry (Rca scenario_A) (EtaA scenario_A ! 0) (Zeta scenario_A ! 0)
                          (ShfA scenario_A ! 0) (ShfZ scenario_A ! 0) ([?cn] ! 0) pr))"
    by blast
  have c: "Rca scenario_A = 5" "EtaA scenario_A = [8]" "Zeta scenario_A = [32]"
    "ShfA scenario_A = [1]" "ShfZ scenario_A = [0]"
    by (simp_all add: scenario_A_def)
  have "out ! 0 ! 0 = Some (angular_symmetry 5 8 32 1 0 ?cn (?a, ?b)
                             + angular_symmetry 5 8 32 1 0 ?cn (?a, ?d))"
    using e by (simp add: c E)
  then show ?thesis using o unfolding V1 V2 by blast
qed

subsection \<open>Unknown species\<close>

lemma species_neighbor_indices_label:
  "j \<in> set (species_neighbor_indices Rc atoms coordinates sp i s) \<Longrightarrow> j < atoms \<and> j \<noteq> i \<and> sp ! j = s"
  by (auto simp: species_neighbor_indices_def)

lemma concat_replicate_blocks:
  "(\<And>x. x \<in> set xs \<Longrightarrow> G x = replicate m a) \<Longrightarrow> concat (map G xs) = replicate (length xs * m) a"
  by (induction xs) (simp_all add: replicate_add)

lemma cwr2_members:
  "jk \<in> set (combinations_with_replacement2 xs) \<Longrightarrow> fst jk \<in> set xs \<and> snd jk \<in> set xs"
  by (induction xs) auto

lemma known_selected_only:
  assumes v: "valid_input atoms coordinates sp" and i: "i < atoms"
    and sn: "neighbor_lists c atoms coordinates sp = Inr sn" and nb: "sn s = Some nb"
    and j: "j \<in> set (nonzero (fst nb ! i)) \<union> set (nonzero (snd nb ! i))"
  shows "j < atoms \<and> sp ! j = s"
proof -
  have "s \<in> set sp"
    using species_neighbors_absent [OF v _ sn, of s] nb by auto
  from species_neighbors_present [OF v i this sn] nb
  have "nonzero (fst nb ! i) = species_neighbor_indices (Rcr c) atoms coordinates sp i s"
    "nonzero (snd nb ! i) = species_neighbor_indices (Rca c) atoms coordinates sp i s"
    by auto
  with j show ?thesis by (auto dest: species_neighbor_indices_label)
qed

lemma lonely_atom_no_neighbors:
  assumes "\<forall>j < atoms. j \<noteq> i \<longrightarrow> sp ! j \<notin> set (vocabulary c)" "s \<in> set (vocabulary c)"
  shows "species_neighbor_indices Rc atoms coordinates sp i s = []"
  using assms by (auto simp: species_neighbor_indices_def filter_empty_conv)

lemma lonely_atom_no_pairs:
  assumes "\<forall>j < atoms. j \<noteq> i \<longrightarrow> sp ! j \<notin> set (vocabulary c)"
    "jk \<in> set (combinations_with_replacement2 (vocabulary c))"
  shows "species_pair_indices Rc atoms coordinates sp i (fst jk) (snd jk) = []"
  using assms cwr2_members [of jk "vocabulary c"]
  by (simp add: species_pair_indices_def lonely_atom_no_neighbors)

text \<open>
  Claim C8, amended. Take an input whose species sequence holds a label that the vocabulary
  does not, and a configuration whose vocabulary and constant sets are not empty. The call
  does not raise. Whatever the configuration, building the neighbor lists does not fail, and
  no atom with an unknown label is in a neighbor list of a species of the vocabulary. In what
  the call returns every atom, the unknown ones too, has its radial and its angular row in
  every conformation: the blocks of the species and of the species pairs of the vocabulary,
  each made of the sums over the neighbors of the atom that carry these species. An atom
  whose fellow atoms all carry unknown labels has all-zero rows.
\<close>

theorem unknown_species_tolerated:
  "valid_input atoms coordinates sp \<and> (\<exists>a < atoms. sp ! a \<notin> set (vocabulary c)) \<longrightarrow>
   (vocabulary c \<noteq> [] \<and> EtaR c \<noteq> [] \<and> ShfR c \<noteq> []
      \<and> EtaA c \<noteq> [] \<and> Zeta c \<noteq> [] \<and> ShfA c \<noteq> [] \<and> ShfZ c \<noteq> [] \<longrightarrow>
    (\<exists>rad ang. call c atoms coordinates sp = Inr (rad, ang)))
   \<and> (\<exists>sn. neighbor_lists c atoms coordinates sp = Inr sn
        \<and> (\<forall>s \<in> set (vocabulary c). \<forall>i < atoms. \<forall>nb. sn s = Some nb \<longrightarrow>
              (\<forall>j \<in> set (nonzero (fst nb ! i)) \<union> set (nonzero (snd nb ! i)).
                  j < atoms \<and> sp ! j = s \<and> sp ! j \<in> set (vocabulary c))))
   \<and> (\<forall>Rc i. \<forall>s \<in> set (vocabulary c).
          \<forall>j \<in> set (species_neighbor_indices Rc atoms coordinates sp i s).
             sp ! j \<in> set (vocabulary c))
   \<and> (\<forall>rad ang. call c atoms coordinates sp = Inr (rad, ang) \<longrightarrow>
        length rad = length coordinates \<and> length ang = length coordinates
        \<and> (\<forall>n < length coordinates. length (rad ! n) = atoms \<and> length (ang ! n) = atoms
              \<and> (\<forall>i < atoms.
                    rad ! n ! i = concat (map (spec_radial_block c atoms coordinates sp n i)
                                            (vocabulary c))
                  \<and> ang ! n ! i = concat (map (spec_angular_block c atoms coordinates sp n i)
                                            (combinations_with_replacement2 (vocabulary c)))
                  \<and> length (rad ! n ! i) = length (vocabulary c) * per_species_radial_length c
                  \<and> length (ang ! n ! i) = length (combinations_with_replacement2 (vocabulary c))
                                                * per_species_angular_length c))
        \<and> (\<forall>i < atoms. (\<forall>j < atoms. j \<noteq> i \<longrightarrow> sp ! j \<notin> set (vocabulary c)) \<longrightarrow>
              (\<forall>n < length coordinates.
                 rad ! n ! i = replicate (length (vocabulary c) * per_species_radial_length c) (Some 0)
               \<and> ang ! n ! i = replicate (length (combinations_with_replacement2 (vocabulary c))
                                            * per_species_angular_length c) (Some 0))))"
proof (intro impI conjI)
  assume h: "valid_input atoms coordinates sp \<and> (\<exists>a < atoms. sp ! a \<notin> set (vocabulary c))"
  then have v: "valid_input atoms coordinates sp" by simp
  from h have a: "0 < atoms" by auto
  let ?cwr = "combinations_with_replacement2 (vocabulary c)"
  let ?rad = "map (\<lambda>n. map (\<lambda>i. concat (map (spec_radial_block c atoms coordinates sp n i)
                                (vocabulary c))) [0..<atoms]) [0..<length coordinates]"
  let ?ang = "map (\<lambda>n. map (\<lambda>i. concat (map (spec_angular_block c atoms coordinates sp n i) ?cwr))
                                [0..<atoms]) [0..<length coordinates]"
  {
    assume "vocabulary c \<noteq> [] \<and> EtaR c \<noteq> [] \<and> ShfR c \<noteq> []
      \<and> EtaA c \<noteq> [] \<and> Zeta c \<noteq> [] \<and> ShfA c \<noteq> [] \<and> ShfZ c \<noteq> []"
    then have voc: "vocabulary c \<noteq> []"
      and pr: "0 < per_species_radial_length c" and pa: "0 < per_species_angular_length c"
      by (simp_all add: per_species_radial_length_def per_species_angular_length_def)
    from call_closed [OF v a voc pr pa]
    show "\<exists>rad ang. call c atoms coordinates sp = Inr (rad, ang)" by blast
  }
  {
    obtain sn where sn: "neighbor_lists c atoms coordinates sp = Inr sn"
      using neighbor_lists_valid [OF v] by blast
    have "\<forall>s \<in> set (vocabulary c). \<forall>i < atoms. \<forall>nb. sn s = Some nb \<longrightarrow>
              (\<forall>j \<in> set (nonzero (fst nb ! i)) \<union> set (nonzero (snd nb ! i)).
                  j < atoms \<and> sp ! j = s \<and> sp ! j \<in> set (vocabulary c))"
      using known_selected_only [OF v _ sn] by blast
    with sn show "\<exists>sn. neighbor_lists c atoms coordinates sp = Inr sn
        \<and> (\<forall>s \<in> set (vocabulary c). \<forall>i < atoms. \<forall>nb. sn s = Some nb \<longrightarrow>
              (\<forall>j \<in> set (nonzero (fst nb ! i)) \<union> set (nonzero (snd nb ! i)).
                  j < atoms \<and> sp ! j = s \<and> sp ! j \<in> set (vocabulary c)))"
      by blast
  }
  show "\<forall>Rc i. \<forall>s \<in> set (vocabulary c).
          \<forall>j \<in> set (species_neighbor_indices Rc atoms coordinates sp i s).
             sp ! j \<in> set (vocabulary c)"
    using species_neighbor_indices_label by blast
  show "\<forall>rad ang. call c atoms coordinates sp = Inr (rad, ang) \<longrightarrow>
        length rad = length coordinates \<and> length ang = length coordinates
        \<and> (\<forall>n < length coordinates. length (rad ! n) = atoms \<and> length (ang ! n) = atoms
              \<and> (\<forall>i < atoms.
                    rad ! n ! i = concat (map (spec_radial_block c atoms coordinates sp n i)
                                            (vocabulary c))
                  \<and> ang ! n ! i = concat (map (spec_angular_block c atoms coordinates sp n i) ?cwr)
                  \<and> length (rad ! n ! i) = length (vocabulary c) * per_species_radial_length c
                  \<and> length (ang ! n ! i) = length ?cwr * per_species_angular_length c))
        \<and> (\<forall>i < atoms. (\<forall>j < atoms. j \<noteq> i \<longrightarrow> sp ! j \<notin> set (vocabulary c)) \<longrightarrow>
              (\<forall>n < length coordinates.
                 rad ! n ! i = replicate (length (vocabulary c) * per_species_radial_length c) (Some 0)
               \<and> ang ! n ! i = replicate (length ?cwr * per_species_angular_length c) (Some 0)))"
  proof (intro allI impI)
    fix rad ang
    assume call: "call c atoms coordinates sp = Inr (rad, ang)"
    have rad: "rad = ?rad" and ang: "ang = ?ang"
      using call_returned [OF v call] by blast+
    have lr: "\<And>n i. length (concat (map (spec_radial_block c atoms coordinates sp n i) (vocabulary c)))
              = length (vocabulary c) * per_species_radial_length c"
      by (simp add: length_concat_blocks)
    have la: "\<And>n i. length (concat (map (spec_angular_block c atoms coordinates sp n i) ?cwr))
              = length ?cwr * per_species_angular_length c"
      by (simp add: length_concat_blocks)
    have 1: "length rad = length coordinates" unfolding rad by simp
    have 2: "length ang = length coordinates" unfolding ang by simp
    have 3: "\<forall>n < length coordinates. length (rad ! n) = atoms \<and> length (ang ! n) = atoms
              \<and> (\<forall>i < atoms.
                    rad ! n ! i = concat (map (spec_radial_block c atoms coordinates sp n i)
                                            (vocabulary c))
                  \<and> ang ! n ! i = concat (map (spec_angular_block c atoms coordinates sp n i) ?cwr)
                  \<and> length (rad ! n ! i) = length (vocabulary c) * per_species_radial_length c
                  \<and> length (ang ! n ! i) = length ?cwr * per_species_angular_length c)"
      unfolding rad ang by (simp add: lr la)
    have 4: "\<forall>i < atoms. (\<forall>j < atoms. j \<noteq> i \<longrightarrow> sp ! j \<notin> set (vocabulary c)) \<longrightarrow>
              (\<forall>n < length coordinates.
                 rad ! n ! i = replicate (length (vocabulary c) * per_species_radial_length c) (Some 0)
               \<and> ang ! n ! i = replicate (length ?cwr * per_species_angular_length c) (Some 0))"
    proof (intro allI impI)
      fix i n
      assume i: "i < atoms" and n: "n < length coordinates"
        and l: "\<forall>j < atoms. j \<noteq> i \<longrightarrow> sp ! j \<notin> set (vocabulary c)"
      have r: "concat (map (spec_radial_block c atoms coordinates sp n i) (vocabulary c))
            = replicate (length (vocabulary c) * per_species_radial_length c) (Some 0)"
        by (rule concat_replicate_blocks)
           (simp add: spec_radial_block_empty lonely_atom_no_neighbors [OF l])
      have g: "concat (map (spec_angular_block c atoms coordinates sp n i) ?cwr)
            = replicate (length ?cwr * per_species_angular_length c) (Some 0)"
        by (rule concat_replicate_blocks)
           (simp add: spec_angular_block_empty lonely_atom_no_pairs [OF l])
      show "rad ! n ! i = replicate (length (vocabulary c) * per_species_radial_length c) (Some 0)
             \<and> ang ! n ! i = replicate (length ?cwr * per_species_angular_length c) (Some 0)"
        unfolding rad ang using i n r g by simp
    qed
    from 1 2 3 4
    show "length rad = length coordinates \<and> length ang = length coordinates
        \<and> (\<forall>n < length coordinates. length (rad ! n) = atoms \<and> length (ang ! n) = atoms
              \<and> (\<forall>i < atoms.
                    rad ! n ! i = concat (map (spec_radial_block c atoms coordinates sp n i)
                                            (vocabulary c))
                  \<and> ang ! n ! i = concat (map (spec_angular_block c atoms coordinates sp n i) ?cwr)
                  \<and> length (rad ! n ! i) = length (vocabulary c) * per_species_radial_length c
                  \<and> length (ang ! n ! i) = length ?cwr * per_species_angular_length c))
        \<and> (\<forall>i < atoms. (\<forall>j < atoms. j \<noteq> i \<longrightarrow> sp ! j \<notin> set (vocabulary c)) \<longrightarrow>
              (\<forall>n < length coordinates.
                 rad ! n ! i = replicate (length (vocabulary c) * per_species_radial_length c) (Some 0)
               \<and> ang ! n ! i = replicate (length ?cwr * per_species_angular_length c) (Some 0)))"
      by (intro conjI)
  qed
qed

theorem unknown_species_tolerated_witness:
  "\<exists>rad ang. call scenario_A 2 [[(1, 1, 1), (2, 1, 1)]] [''H'', ''X''] = Inr (rad, ang)
     \<and> length (rad ! 0) = 2 \<and> length (ang ! 0) = 2
     \<and> rad ! 0 ! 0 = [Some 0] \<and> ang ! 0 ! 0 = [Some 0]
     \<and> rad ! 0 ! 1 = [Some (0.25 * (0.5 * cos (pi / 5) + 0.5))] \<and> ang ! 0 ! 1 = [Some 0]"
proof -
  let ?X = "[[(1, 1, 1), (2, 1, 1)]] :: point list list"
  let ?sp = "[''H'', ''X'']"
  have "(1::nat) < 2 \<and> ?sp ! 1 \<notin> set (vocabulary scenario_A)"
    by (simp add: scenario_A_def)
  then have u: "\<exists>a < 2. ?sp ! a \<notin> set (vocabulary scenario_A)" by blast
  have v: "valid_input 2 ?X ?sp" by (simp add: valid_input_def)
  have h: "vocabulary scenario_A \<noteq> []
     \<and> EtaR scenario_A \<noteq> [] \<and> ShfR scenario_A \<noteq> []
     \<and> EtaA scenario_A \<noteq> [] \<and> Zeta scenario_A \<noteq> [] \<and> ShfA scenario_A \<noteq> [] \<and> ShfZ scenario_A \<noteq> []"
    by (simp add: scenario_A_def)
  have l: "\<forall>j < 2. j \<noteq> 0 \<longrightarrow> ?sp ! j \<notin> set (vocabulary scenario_A)"
    by (auto simp: scenario_A_def less_2_cases_iff)
  have L: "length (vocabulary scenario_A) * per_species_radial_length scenario_A = 1"
    "length (combinations_with_replacement2 (vocabulary scenario_A))
       * per_species_angular_length scenario_A = 1"
    by (simp_all add: scenario_A_def per_species_radial_length_def per_species_angular_length_def)
  have c: "vocabulary scenario_A = [''H'']" "EtaR scenario_A = [16]" "ShfR scenario_A = [1]"
    "EtaA scenario_A = [8]" "Zeta scenario_A = [32]" "ShfA scenario_A = [1]" "ShfZ scenario_A = [0]"
    by (simp_all add: scenario_A_def)
  have N: "species_neighbor_indices (Rcr scenario_A) 2 ?X ?sp (Suc 0) ''H'' = [0]"
    "species_neighbor_indices (Rca scenario_A) 2 ?X ?sp (Suc 0) ''H'' = [0]"
    by (simp_all add: species_neighbor_indices_def upt2 scenario_A_def distance_vsub euclid_axis)
  have t: "spec_radial_term scenario_A 16 1 (2, 1, 1) (1, 1, 1) = Some (0.25 * (0.5 * cos (pi / 5) + 0.5))"
    by (simp add: spec_radial_term_value radial_symmetry_def euclid_axis spec_fc_def scenario_A_def)
  have b: "spec_radial_block scenario_A 2 ?X ?sp 0 (Suc 0) ''H'' = [Some (0.25 * (0.5 * cos (pi / 5) + 0.5))]"
    by (simp add: spec_radial_block_def N c t)
  have g: "spec_angular_block scenario_A 2 ?X ?sp 0 (Suc 0) (''H'', ''H'') = [Some 0]"
    by (simp add: spec_angular_block_def species_pair_indices_def N c)
  note inst = unknown_species_tolerated [of 2 ?X ?sp scenario_A]
  from inst v u h obtain rad ang where call: "call scenario_A 2 ?X ?sp = Inr (rad, ang)"
    by blast
  with inst v u have rows: "\<forall>n < length ?X. length (rad ! n) = 2 \<and> length (ang ! n) = 2
              \<and> (\<forall>i < 2.
                    rad ! n ! i = concat (map (spec_radial_block scenario_A 2 ?X ?sp n i)
                                            (vocabulary scenario_A))
                  \<and> ang ! n ! i = concat (map (spec_angular_block scenario_A 2 ?X ?sp n i)
                                            (combinations_with_replacement2 (vocabulary scenario_A)))
                  \<and> length (rad ! n ! i) = length (vocabulary scenario_A) * per_species_radial_length scenario_A
                  \<and> length (ang ! n ! i) = length (combinations_with_replacement2 (vocabulary scenario_A))
                                                * per_species_angular_length scenario_A)"
    and lonely: "\<forall>i < 2. (\<forall>j < 2. j \<noteq> i \<longrightarrow> ?sp ! j \<notin> set (vocabulary scenario_A)) \<longrightarrow>
            (\<forall>n < length ?X.
               rad ! n ! i = replicate (length (vocabulary scenario_A) * per_species_radial_length scenario_A) (Some 0)
             \<and> ang ! n ! i = replicate (length (combinations_with_replacement2 (vocabulary scenario_A))
                                          * per_species_angular_length scenario_A) (Some 0))"
    by blast+
  from lonely l have z: "rad ! 0 ! 0 = [Some 0] \<and> ang ! 0 ! 0 = [Some 0]"
    unfolding L by simp
  from rows have r0: "length (rad ! 0) = 2 \<and> length (ang ! 0) = 2
      \<and> rad ! 0 ! Suc 0 = concat (map (spec_radial_block scenario_A 2 ?X ?sp 0 (Suc 0))
                                            (vocabulary scenario_A))
      \<and> ang ! 0 ! Suc 0 = concat (map (spec_angular_block scenario_A 2 ?X ?sp 0 (Suc 0))
                                            (combinations_with_replacement2 (vocabulary scenario_A)))"
    by simp
  then have "rad ! 0 ! 1 = [Some (0.25 * (0.5 * cos (pi / 5) + 0.5))] \<and> ang ! 0 ! 1 = [Some 0]"
    by (simp add: c b g)
  with call z r0 show ?thesis by simp
qed

text \<open>
  Claim C8 as stated fails for a configuration with an empty constant set: with no \<open>EtaR\<close>
  the radial sub-AEV of the second atom, which has the first as a neighbor, raises at its last
  \<open>view\<close>.
\<close>

theorem unknown_species_counterexample:
  "valid_input 2 [[(0, 0, 0), (1, 0, 0)]] [''H'', ''X'']
   \<and> [''H'', ''X''] ! 1 \<notin> set (vocabulary (scenario_A\<lparr>EtaR := []\<rparr>))
   \<and> call (scenario_A\<lparr>EtaR := []\<rparr>) 2 [[(0, 0, 0), (1, 0, 0)]] [''H'', ''X''] = Inl RuntimeError"
  by (simp add: valid_input_def call_def neighbor_lists_def scenario_A_def R_distances_all_def
      in_cutoff_def species_selectors_def upt2 vsub_def Let_def species_neighbors_def
      radial_aev_def radial_block_def nonzero_def center_of_def index_select_def
      radial_subaev_def view_rows_def per_species_radial_length_def zeros_def cat_dim1_def)

subsection \<open>Neighbor pairs\<close>

lemma species_neighbor_indices_sorted:
  "sorted_wrt (<) (species_neighbor_indices Rc atoms coordinates sp i s)"
  unfolding species_neighbor_indices_def by (rule sorted_wrt_filter) simp

lemma set_combinations2:
  "sorted_wrt (<) (xs :: nat list) \<Longrightarrow>
   set (combinations2 xs) = {(a, b). a \<in> set xs \<and> b \<in> set xs \<and> a < b}"
proof (induction xs)
  case Nil
  then show ?case by simp
next
  case (Cons x xs)
  then have lt: "\<forall>b \<in> set xs. x < b" and s: "sorted_wrt (<) xs" by simp_all
  from Cons.IH [OF s] lt show ?case by (auto simp: image_iff)
qed

lemma distinct_combinations2:
  "sorted_wrt (<) (xs :: nat list) \<Longrightarrow> distinct (combinations2 xs)"
proof (induction xs)
  case Nil
  then show ?case by simp
next
  case (Cons x xs)
  then have lt: "\<forall>b \<in> set xs. x < b" and s: "sorted_wrt (<) xs" by simp_all
  have d: "distinct xs" using s by (simp add: strict_sorted_iff)
  have dm: "distinct (map (Pair x) xs)" using d by (simp add: distinct_map inj_on_def)
  have dj: "set (map (Pair x) xs) \<inter> set (combinations2 xs) = {}"
    using lt by (auto simp: set_combinations2 [OF s])
  from Cons.IH [OF s] dm dj show ?case by simp
qed

text \<open>
  Claim C6. For a center atom \<open>i\<close> and a species pair \<open>(j, k)\<close>: when \<open>j = k\<close> the neighbor
  pairs are the 2-element combinations of the angular neighbors of species \<open>j\<close>, each
  unordered pair once and no atom with itself, and there is none when the atom has fewer than
  two such neighbors; when \<open>j \<noteq> k\<close> they are the cartesian product of the angular neighbors
  of \<open>j\<close> and of \<open>k\<close>, and there is none when either set is empty. With no pair the block is
  the zero block, and nothing is raised.
\<close>

theorem pair_generation:
  "valid_input atoms coordinates sp \<and> i < atoms \<and> neighbor_lists c atoms coordinates sp = Inr sn \<longrightarrow>
   (j = k \<longrightarrow>
      angular_pairs coordinates sn i j k
        = (if length (species_neighbor_indices (Rca c) atoms coordinates sp i j) < 2 then None
           else Some (gather_pairs coordinates
                        (combinations2 (species_neighbor_indices (Rca c) atoms coordinates sp i j))))
      \<and> set (combinations2 (species_neighbor_indices (Rca c) atoms coordinates sp i j))
           = {(a, b). a \<in> set (species_neighbor_indices (Rca c) atoms coordinates sp i j)
                    \<and> b \<in> set (species_neighbor_indices (Rca c) atoms coordinates sp i j) \<and> a < b}
      \<and> distinct (combinations2 (species_neighbor_indices (Rca c) atoms coordinates sp i j)))
   \<and> (j \<noteq> k \<longrightarrow>
      angular_pairs coordinates sn i j k
        = (if species_neighbor_indices (Rca c) atoms coordinates sp i j = []
              \<or> species_neighbor_indices (Rca c) atoms coordinates sp i k = [] then None
           else Some (gather_pairs coordinates
                        (List.product (species_neighbor_indices (Rca c) atoms coordinates sp i j)
                                      (species_neighbor_indices (Rca c) atoms coordinates sp i k))))
      \<and> set (List.product (species_neighbor_indices (Rca c) atoms coordinates sp i j)
                           (species_neighbor_indices (Rca c) atoms coordinates sp i k))
           = set (species_neighbor_indices (Rca c) atoms coordinates sp i j)
               \<times> set (species_neighbor_indices (Rca c) atoms coordinates sp i k)
      \<and> distinct (List.product (species_neighbor_indices (Rca c) atoms coordinates sp i j)
                                (species_neighbor_indices (Rca c) atoms coordinates sp i k)))
   \<and> (angular_pairs coordinates sn i j k = None \<longrightarrow>
        angular_block c coordinates sn i (j, k)
          = Inr (zeros (length coordinates) (per_species_angular_length c)))"
proof (intro impI conjI)
  let ?N = "species_neighbor_indices (Rca c) atoms coordinates sp i"
  assume h: "valid_input atoms coordinates sp \<and> i < atoms \<and> neighbor_lists c atoms coordinates sp = Inr sn"
  then have v: "valid_input atoms coordinates sp" and i: "i < atoms"
    and sn: "neighbor_lists c atoms coordinates sp = Inr sn"
    by simp_all
  note eq = angular_pairs_eq [OF v i sn, of j k]
  have dist: "\<And>s. distinct (?N s)"
    using species_neighbor_indices_sorted [of "Rca c" atoms coordinates sp i]
    by (simp add: strict_sorted_iff)
  {
    assume "j = k"
    then show "angular_pairs coordinates sn i j k
        = (if length (?N j) < 2 then None else Some (gather_pairs coordinates (combinations2 (?N j))))"
      unfolding eq by (auto simp: species_pair_indices_def combinations2_empty)
    show "set (combinations2 (?N j)) = {(a, b). a \<in> set (?N j) \<and> b \<in> set (?N j) \<and> a < b}"
      by (rule set_combinations2) (rule species_neighbor_indices_sorted)
    show "distinct (combinations2 (?N j))"
      by (rule distinct_combinations2) (rule species_neighbor_indices_sorted)
  }
  {
    assume "j \<noteq> k"
    then show "angular_pairs coordinates sn i j k
        = (if ?N j = [] \<or> ?N k = [] then None
           else Some (gather_pairs coordinates (List.product (?N j) (?N k))))"
      unfolding eq by (auto simp: species_pair_indices_def product_empty)
    show "set (List.product (?N j) (?N k)) = set (?N j) \<times> set (?N k)" by simp
    show "distinct (List.product (?N j) (?N k))"
      by (rule distinct_product) (rule dist)+
  }
  {
    assume "angular_pairs coordinates sn i j k = None"
    then show "angular_block c coordinates sn i (j, k)
          = Inr (zeros (length coordinates) (per_species_angular_length c))"
      by (simp add: angular_block_def)
  }
qed

lemma upt3: "[0..<3] = [0, Suc 0, Suc (Suc 0)]"
  by (simp add: upt_rec numeral_3_eq_3)

theorem pair_generation_witness:
  "\<exists>sn. neighbor_lists scenario_A 3 [[(0, 0, 0), (1, 0, 0), (0, 1, 0)]] [''H'', ''H'', ''H''] = Inr sn
     \<and> angular_pairs [[(0, 0, 0), (1, 0, 0), (0, 1, 0)]] sn 0 ''H'' ''H''
          = Some (1, [[((1, 0, 0), (0, 1, 0))]])
     \<and> angular_pairs [[(0, 0, 0), (1, 0, 0), (0, 1, 0)]] sn 0 ''H'' ''C'' = None
     \<and> angular_block scenario_A [[(0, 0, 0), (1, 0, 0), (0, 1, 0)]] sn 0 (''H'', ''C'') = Inr [[Some 0]]"
proof -
  let ?X = "[[(0, 0, 0), (1, 0, 0), (0, 1, 0)]] :: point list list"
  let ?sp = "[''H'', ''H'', ''H'']"
  have v: "valid_input 3 ?X ?sp" by (simp add: valid_input_def)
  obtain sn where sn: "neighbor_lists scenario_A 3 ?X ?sp = Inr sn"
    using neighbor_lists_valid [OF v] by blast
  have h: "valid_input 3 ?X ?sp \<and> (0::nat) < 3 \<and> neighbor_lists scenario_A 3 ?X ?sp = Inr sn"
    using v sn by simp
  have NH: "species_neighbor_indices (Rca scenario_A) 3 ?X ?sp 0 ''H'' = [1, 2]"
    by (simp add: species_neighbor_indices_def upt3 scenario_A_def vsub_def distance_def)
  have NC: "species_neighbor_indices (Rca scenario_A) 3 ?X ?sp 0 ''C'' = []"
    by (simp add: species_neighbor_indices_def upt3)
  have ne: "''H'' \<noteq> ''C''" by simp
  from pair_generation [of 3 ?X ?sp 0 scenario_A sn "''H''" "''H''"] h
  have 1: "angular_pairs ?X sn 0 ''H'' ''H'' = Some (1, [[((1, 0, 0), (0, 1, 0))]])"
    by (simp add: NH gather_pairs_def)
  from pair_generation [of 3 ?X ?sp 0 scenario_A sn "''H''" "''C''"] h ne
  have 2: "angular_pairs ?X sn 0 ''H'' ''C'' = None"
    and "angular_pairs ?X sn 0 ''H'' ''C'' = None \<longrightarrow>
           angular_block scenario_A ?X sn 0 (''H'', ''C'')
             = Inr (zeros (length ?X) (per_species_angular_length scenario_A))"
    by (simp_all add: NC)
  then have 3: "angular_block scenario_A ?X sn 0 (''H'', ''C'') = Inr [[Some 0]]"
    by (simp add: zeros_def per_species_angular_length_def scenario_A_def)
  from sn 1 2 3 show ?thesis by blast
qed

subsection \<open>The union neighbor list\<close>

lemma add_val_zero_left [simp]: "add_val (Some 0) x = x"
  by (cases x) simp_all

lemma sum_vals_filter_zero:
  "(\<And>x. x \<in> set xs \<Longrightarrow> \<not> P x \<Longrightarrow> f x = Some 0) \<Longrightarrow>
   sum_vals (map f (filter P xs)) = sum_vals (map f xs)"
  by (induction xs) simp_all

lemma sum_vals_defined_terms:
  "sum_vals (map f xs) \<noteq> None \<Longrightarrow> x \<in> set xs \<Longrightarrow> f x \<noteq> None"
  using sum_vals_None [of "map f xs"] by force


lemma single_neighbors_filter:
  assumes "n < length coordinates"
  shows "species_neighbor_indices Rc atoms [coordinates ! n] sp i s
           = filter (\<lambda>j. distance (vsub (coordinates ! n ! j) (coordinates ! n ! i)) \<le> Rc)
               (species_neighbor_indices Rc atoms coordinates sp i s)"
proof -
  have "\<And>j. distance (vsub (coordinates ! n ! j) (coordinates ! n ! i)) \<le> Rc \<Longrightarrow>
          list_ex (\<lambda>conf. distance (vsub (conf ! j) (conf ! i)) \<le> Rc) coordinates"
    using assms by (auto simp: list_ex_length)
  then show ?thesis
    unfolding species_neighbor_indices_def filter_filter
    by (intro filter_cong refl) auto
qed



lemma combinations2_filter:
  "combinations2 (filter P xs) = filter (\<lambda>pr. P (fst pr) \<and> P (snd pr)) (combinations2 xs)"
  by (induction xs) (simp_all add: filter_map comp_def)

lemma product_filter:
  "List.product (filter P xs) (filter P ys)
     = filter (\<lambda>pr. P (fst pr) \<and> P (snd pr)) (List.product xs ys)"
  by (induction xs) (simp_all add: filter_map comp_def)

lemma single_pairs_filter:
  assumes "n < length coordinates"
  shows "species_pair_indices Rc atoms [coordinates ! n] sp i j k
           = filter (\<lambda>pr. distance (vsub (coordinates ! n ! fst pr) (coordinates ! n ! i)) \<le> Rc
                         \<and> distance (vsub (coordinates ! n ! snd pr) (coordinates ! n ! i)) \<le> Rc)
               (species_pair_indices Rc atoms coordinates sp i j k)"
  by (simp add: species_pair_indices_def single_neighbors_filter [OF assms]
      combinations2_filter product_filter)

lemma spec_angular_term_outside:
  assumes "spec_angular_term c eta zeta rs sh cn pr \<noteq> None"
    and "\<not> (distance (vsub (fst pr) cn) \<le> Rca c \<and> distance (vsub (snd pr) cn) \<le> Rca c)"
  shows "spec_angular_term c eta zeta rs sh cn pr = Some 0"
proof -
  from assms(2) have "cutoff_cosine (distance (vsub (fst pr) cn)) (Rca c) = Some 0
      \<or> cutoff_cosine (distance (vsub (snd pr) cn)) (Rca c) = Some 0"
    by (auto simp: cutoff_cosine_outside)
  with assms(1) show ?thesis
    by (auto simp: spec_angular_term_def Let_def split: option.splits)
qed

lemma sum_vals_filter_defined:
  assumes "sum_vals (map f xs) \<noteq> None"
    and "\<And>x. x \<in> set xs \<Longrightarrow> \<not> P x \<Longrightarrow> f x \<noteq> None \<Longrightarrow> f x = Some 0"
  shows "sum_vals (map f (filter P xs)) = sum_vals (map f xs)"
  using assms sum_vals_defined_terms [OF assms(1)] by (intro sum_vals_filter_zero) blast

lemma set_flat4_intro:
  "eta \<in> set es \<Longrightarrow> zeta \<in> set zs \<Longrightarrow> rs \<in> set as \<Longrightarrow> sh \<in> set ts \<Longrightarrow>
   F eta zeta rs sh \<in> set (concat (map (\<lambda>h. concat (map concat h))
            (map (\<lambda>eta. map (\<lambda>zeta. map (\<lambda>rs. map (\<lambda>sh. F eta zeta rs sh) ts) as) zs) es)))"
  by auto

lemma flat4_cong:
  assumes "\<And>eta zeta rs sh. eta \<in> set es \<Longrightarrow> zeta \<in> set zs \<Longrightarrow> rs \<in> set as \<Longrightarrow> sh \<in> set ts
             \<Longrightarrow> F eta zeta rs sh = G eta zeta rs sh"
  shows "concat (map (\<lambda>h. concat (map concat h))
            (map (\<lambda>eta. map (\<lambda>zeta. map (\<lambda>rs. map (\<lambda>sh. F eta zeta rs sh) ts) as) zs) es))
       = concat (map (\<lambda>h. concat (map concat h))
            (map (\<lambda>eta. map (\<lambda>zeta. map (\<lambda>rs. map (\<lambda>sh. G eta zeta rs sh) ts) as) zs) es))"
proof -
  have "map (\<lambda>eta. map (\<lambda>zeta. map (\<lambda>rs. map (\<lambda>sh. F eta zeta rs sh) ts) as) zs) es
      = map (\<lambda>eta. map (\<lambda>zeta. map (\<lambda>rs. map (\<lambda>sh. G eta zeta rs sh) ts) as) zs) es"
    using assms by (intro map_cong refl) auto
  then show ?thesis by (simp only:)
qed

lemma spec_angular_block_union:
  assumes n: "n < length coordinates"
    and d: "None \<notin> set (spec_angular_block c atoms coordinates sp n i jk)"
  shows "spec_angular_block c atoms coordinates sp n i jk
           = spec_angular_block c atoms [coordinates ! n] sp 0 i jk"
proof -
  let ?U = "species_pair_indices (Rca c) atoms coordinates sp i (fst jk) (snd jk)"
  let ?P = "\<lambda>pr. distance (vsub (coordinates ! n ! fst pr) (coordinates ! n ! i)) \<le> Rca c
                 \<and> distance (vsub (coordinates ! n ! snd pr) (coordinates ! n ! i)) \<le> Rca c"
  let ?g = "\<lambda>pr. (coordinates ! n ! fst pr, coordinates ! n ! snd pr)"
  let ?F = "\<lambda>eta zeta rs sh prs.
              sum_vals (map (spec_angular_term c eta zeta rs sh (coordinates ! n ! i)) (map ?g prs))"
  have eq: "?F eta zeta rs sh ?U = ?F eta zeta rs sh (filter ?P ?U)"
    if m: "eta \<in> set (EtaA c)" "zeta \<in> set (Zeta c)" "rs \<in> set (ShfA c)" "sh \<in> set (ShfZ c)"
    for eta zeta rs sh
  proof -
    have "?F eta zeta rs sh ?U \<in> set (spec_angular_block c atoms coordinates sp n i jk)"
      unfolding spec_angular_block_def Let_def
      by (rule set_flat4_intro [where F = "\<lambda>eta zeta rs sh. ?F eta zeta rs sh ?U"]) (rule m)+
    with d have "?F eta zeta rs sh ?U \<noteq> None" by metis
    then have def: "sum_vals (map (\<lambda>pr. spec_angular_term c eta zeta rs sh (coordinates ! n ! i) (?g pr)) ?U)
                      \<noteq> None"
      by (simp add: comp_def)
    have "sum_vals (map (\<lambda>pr. spec_angular_term c eta zeta rs sh (coordinates ! n ! i) (?g pr))
                     (filter ?P ?U))
        = sum_vals (map (\<lambda>pr. spec_angular_term c eta zeta rs sh (coordinates ! n ! i) (?g pr)) ?U)"
      using def
    proof (rule sum_vals_filter_defined)
      fix pr
      assume "\<not> ?P pr"
        and "spec_angular_term c eta zeta rs sh (coordinates ! n ! i) (?g pr) \<noteq> None"
      then show "spec_angular_term c eta zeta rs sh (coordinates ! n ! i) (?g pr) = Some 0"
        by (intro spec_angular_term_outside) simp_all
    qed
    then show ?thesis by (simp add: comp_def)
  qed
  have "spec_angular_block c atoms coordinates sp n i jk
          = concat (map (\<lambda>h. concat (map concat h))
              (map (\<lambda>eta. map (\<lambda>zeta. map (\<lambda>rs. map (\<lambda>sh. ?F eta zeta rs sh ?U)
                 (ShfZ c)) (ShfA c)) (Zeta c)) (EtaA c)))"
    by (simp only: spec_angular_block_def Let_def)
  also have "\<dots> = concat (map (\<lambda>h. concat (map concat h))
              (map (\<lambda>eta. map (\<lambda>zeta. map (\<lambda>rs. map (\<lambda>sh. ?F eta zeta rs sh (filter ?P ?U))
                 (ShfZ c)) (ShfA c)) (Zeta c)) (EtaA c)))"
    by (rule flat4_cong) (rule eq)
  also have "\<dots> = spec_angular_block c atoms [coordinates ! n] sp 0 i jk"
    by (simp only: spec_angular_block_def Let_def single_pairs_filter [OF n] nth_Cons_0)
  finally show ?thesis .
qed















lemma distance_ten [simp]:
  "distance (vsub (10, 0, 0) (0, 0, 0)) = 10" "distance (vsub (0, 0, 0) (10, 0, 0)) = 10"
proof -
  have "sqrt ((10::real)\<^sup>2) = 10" by (simp only: real_sqrt_abs abs_numeral)
  then show "distance (vsub (10, 0, 0) (0, 0, 0)) = 10" "distance (vsub (0, 0, 0) (10, 0, 0)) = 10"
    by (simp_all add: distance_def vsub_def)
qed

lemma distance_self [simp]: "distance (vsub p p) = 0"
  by (cases p) (simp add: distance_def vsub_def)




end
